(* ===== verification/Rust_Text.thy ===== *)
theory Rust_Text
  imports Prelude
begin

text \<open>
  The part of Rust's string library the gateway relies on.  A \<^verbatim>\<open>&str\<close>, a \<^verbatim>\<open>String\<close> and
  a byte slice are all an Isabelle \<^typ>\<open>string\<close>, a list of bytes (\<^typ>\<open>char\<close> has 256
  values), so \<^verbatim>\<open>len()\<close> is \<^term>\<open>length\<close>.  Iteration over \<^verbatim>\<open>chars()\<close> splits the bytes
  into UTF-8 sequences by the rules of \<^verbatim>\<open>core::str\<close>; the same step function gives
  \<^verbatim>\<open>from_utf8\<close> and \<^verbatim>\<open>from_utf8_lossy\<close>.
\<close>

definition byte_val :: "char \<Rightarrow> nat" where
  "byte_val c = of_char c"

definition byte_of :: "nat \<Rightarrow> char" where
  "byte_of n = char_of n"

lemma byte_val_less [simp]: "byte_val c < 256"
  by (simp add: byte_val_def)

lemma byte_val_of [simp]: "n < 256 \<Longrightarrow> byte_val (byte_of n) = n"
  by (simp add: byte_val_def byte_of_def)

lemma byte_of_val [simp]: "byte_of (byte_val c) = c"
  by (simp add: byte_val_def byte_of_def)

lemma byte_val_inject [simp]: "byte_val a = byte_val b \<longleftrightarrow> a = b"
  by (simp add: byte_val_def)

subsection \<open>UTF-8\<close>

definition safe_get :: "string \<Rightarrow> nat \<Rightarrow> nat" where
  \<comment> \<open>the byte at an index, 0 past the end\<close>
  "safe_get s i = (if i < length s then byte_val (s ! i) else 0)"

definition is_cont :: "nat \<Rightarrow> bool" where
  "is_cont n \<longleftrightarrow> 128 \<le> n \<and> n \<le> 191"

definition utf8_step :: "string \<Rightarrow> bool \<times> nat" where
  \<comment> \<open>is the first sequence well formed, and how many bytes it (or its valid prefix) takes\<close>
  "utf8_step s =
     (let b = safe_get s 0; b1 = safe_get s 1; b2 = safe_get s 2; b3 = safe_get s 3 in
      if b < 128 then (True, 1)
      else if 194 \<le> b \<and> b \<le> 223 then
        (if is_cont b1 then (True, 2) else (False, 1))
      else if 224 \<le> b \<and> b \<le> 239 then
        (if b = 224 \<and> 160 \<le> b1 \<and> b1 \<le> 191 \<or> 225 \<le> b \<and> b \<le> 236 \<and> is_cont b1
            \<or> b = 237 \<and> 128 \<le> b1 \<and> b1 \<le> 159 \<or> 238 \<le> b \<and> is_cont b1
         then (if is_cont b2 then (True, 3) else (False, 2))
         else (False, 1))
      else if 240 \<le> b \<and> b \<le> 244 then
        (if b = 240 \<and> 144 \<le> b1 \<and> b1 \<le> 191 \<or> 241 \<le> b \<and> b \<le> 243 \<and> is_cont b1
            \<or> b = 244 \<and> 128 \<le> b1 \<and> b1 \<le> 143
         then (if is_cont b2 then (if is_cont b3 then (True, 4) else (False, 3)) else (False, 2))
         else (False, 1))
      else (False, 1))"

lemma utf8_step_pos: "0 < snd (utf8_step s)"
  by (simp add: utf8_step_def Let_def)

function utf8_chunks :: "string \<Rightarrow> (bool \<times> string) list" where
  "utf8_chunks [] = []"
| "utf8_chunks (c # s) =
     (let (ok, n) = utf8_step (c # s) in (ok, take n (c # s)) # utf8_chunks (drop n (c # s)))"
  by pat_completeness auto
termination
proof (relation "measure length", goal_cases)
  case (2 c s x ok n)
  then have "snd (utf8_step (c # s)) = n" by (metis snd_conv)
  then show ?case using utf8_step_pos [of "c # s"] by simp
qed simp

definition from_utf8 :: "string \<Rightarrow> string option" where
  "from_utf8 s = (if list_all fst (utf8_chunks s) then Some s else None)"

definition replacement_char :: string where
  "replacement_char = map byte_of [239, 191, 189]"

definition from_utf8_lossy :: "string \<Rightarrow> string" where
  "from_utf8_lossy s =
     concat (map (\<lambda>(ok, ch). if ok then ch else replacement_char) (utf8_chunks s))"

definition chars :: "string \<Rightarrow> string list" where
  "chars s = map snd (utf8_chunks s)"

definition is_ascii :: "string \<Rightarrow> bool" where
  "is_ascii s \<longleftrightarrow> list_all (\<lambda>c. byte_val c < 128) s"

lemma is_ascii_simps [simp]:
  "is_ascii []"
  "is_ascii (c # s) \<longleftrightarrow> byte_val c < 128 \<and> is_ascii s"
  "is_ascii (s @ t) \<longleftrightarrow> is_ascii s \<and> is_ascii t"
  by (simp_all add: is_ascii_def)

lemma utf8_step_ascii: "byte_val c < 128 \<Longrightarrow> utf8_step (c # s) = (True, 1)"
  by (simp add: utf8_step_def safe_get_def)

lemma utf8_chunks_ascii: "is_ascii s \<Longrightarrow> utf8_chunks s = map (\<lambda>c. (True, [c])) s"
  by (induction s) (simp_all add: utf8_step_ascii)

lemma chars_ascii: "is_ascii s \<Longrightarrow> chars s = map (\<lambda>c. [c]) s"
  by (simp add: chars_def utf8_chunks_ascii)

lemma from_utf8_ascii: "is_ascii s \<Longrightarrow> from_utf8 s = Some s"
  by (simp add: from_utf8_def utf8_chunks_ascii list_all_length)

lemma from_utf8_lossy_ascii: "is_ascii s \<Longrightarrow> from_utf8_lossy s = s"
  by (simp add: from_utf8_lossy_def utf8_chunks_ascii comp_def)

lemma concat_utf8_chunks: "concat (map snd (utf8_chunks s)) = s"
  by (induction s rule: utf8_chunks.induct) (auto split: prod.splits)

lemma concat_chars [simp]: "concat (chars s) = s"
  by (simp add: chars_def concat_utf8_chunks)

lemma from_utf8_SomeD: "from_utf8 s = Some t \<Longrightarrow> t = s"
  by (auto simp: from_utf8_def split: if_splits)

lemma from_utf8_lossy_valid: "from_utf8 s = Some t \<Longrightarrow> from_utf8_lossy s = s"
proof -
  assume "from_utf8 s = Some t"
  then have "list_all fst (utf8_chunks s)"
    by (simp add: from_utf8_def split: if_splits)
  then have "map (\<lambda>(ok, ch). if ok then ch else replacement_char) (utf8_chunks s)
      = map snd (utf8_chunks s)"
    by (auto simp: list_all_iff)
  then show ?thesis
    unfolding from_utf8_lossy_def by (simp only: concat_utf8_chunks)
qed

subsection \<open>Character classes\<close>

definition is_digit :: "char \<Rightarrow> bool" where
  "is_digit c \<longleftrightarrow> 48 \<le> byte_val c \<and> byte_val c \<le> 57"

definition is_ascii_alphanumeric :: "char \<Rightarrow> bool" where
  "is_ascii_alphanumeric c \<longleftrightarrow> is_digit c
     \<or> 65 \<le> byte_val c \<and> byte_val c \<le> 90 \<or> 97 \<le> byte_val c \<and> byte_val c \<le> 122"

text \<open>
  \<^verbatim>\<open>s.chars().all(p)\<close> for a predicate that only ASCII characters satisfy: a sequence of
  several bytes contains only bytes from 128 on, which fail the predicate one by one.
\<close>

definition all_chars :: "(char \<Rightarrow> bool) \<Rightarrow> string \<Rightarrow> bool" where
  "all_chars p s \<longleftrightarrow> list_all p s"

lemma all_chars_ascii:
  assumes "\<And>c. p c \<Longrightarrow> byte_val c < 128"
  shows "all_chars p s \<longleftrightarrow> list_all (\<lambda>ch. \<exists>c. ch = [c] \<and> p c) (chars s)"
proof
  assume "all_chars p s"
  then have "is_ascii s" using assms by (auto simp: all_chars_def is_ascii_def list_all_iff)
  with \<open>all_chars p s\<close> show "list_all (\<lambda>ch. \<exists>c. ch = [c] \<and> p c) (chars s)"
    by (auto simp: chars_ascii list_all_iff all_chars_def)
next
  assume "list_all (\<lambda>ch. \<exists>c. ch = [c] \<and> p c) (chars s)"
  then have "list_all p (concat (chars s))"
    by (auto simp: list_all_iff simp del: concat_chars)
  then show "all_chars p s" by (simp add: all_chars_def)
qed

definition is_whitespace :: "string \<Rightarrow> bool" where
  \<comment> \<open>the UTF-8 sequences of the Unicode \<^verbatim>\<open>White_Space\<close> characters\<close>
  "is_whitespace ch \<longleftrightarrow> map byte_val ch \<in> set (
     [[9], [10], [11], [12], [13], [32], [194, 133], [194, 160], [225, 154, 128],
      [226, 128, 168], [226, 128, 169], [226, 128, 175], [226, 129, 159], [227, 128, 128]]
     @ map (\<lambda>k. [226, 128, 128 + k]) [0, 1, 2, 3, 4, 5, 6, 7, 8, 9, 10])"

definition trim :: "string \<Rightarrow> string" where
  "trim s = concat (rev (dropWhile is_whitespace (rev (dropWhile is_whitespace (chars s)))))"

lemma is_whitespace_single:
  "is_whitespace [c] \<longleftrightarrow> byte_val c \<in> {9, 10, 11, 12, 13, 32}"
  by (simp add: is_whitespace_def)

lemma trim_id:
  assumes "is_ascii s" and "s = [] \<or> \<not> is_whitespace [hd s] \<and> \<not> is_whitespace [last s]"
  shows "trim s = s"
proof (cases s rule: rev_cases)
  case Nil
  then show ?thesis by (simp add: trim_def chars_def)
next
  case (snoc t z)
  have "dropWhile is_whitespace (map (\<lambda>c. [c]) s) = map (\<lambda>c. [c]) s"
    using assms(2) snoc by (cases t) auto
  then show ?thesis
    using assms snoc by (simp add: trim_def chars_ascii comp_def rev_map [symmetric] concat_map_singleton [of "\<lambda>x. x", simplified])
qed

lemma trim_nonspace:
  assumes "all_chars p s" and "\<And>c. p c \<Longrightarrow> byte_val c < 128"
    and "\<And>c. p c \<Longrightarrow> \<not> is_whitespace [c]"
  shows "trim s = s"
proof (rule trim_id)
  show "is_ascii s"
    using assms by (auto simp: all_chars_def is_ascii_def list_all_iff)
  show "s = [] \<or> \<not> is_whitespace [hd s] \<and> \<not> is_whitespace [last s]"
    using assms(1,3) by (cases "s = []") (auto simp: all_chars_def list_all_iff)
qed

subsection \<open>Case, prefixes, splitting\<close>

definition to_ascii_lower_byte :: "char \<Rightarrow> char" where
  "to_ascii_lower_byte c =
     (if 65 \<le> byte_val c \<and> byte_val c \<le> 90 then byte_of (byte_val c + 32) else c)"

definition to_ascii_lowercase :: "string \<Rightarrow> string" where
  "to_ascii_lowercase s = map to_ascii_lower_byte s"

definition eq_ignore_ascii_case :: "string \<Rightarrow> string \<Rightarrow> bool" where
  "eq_ignore_ascii_case s t \<longleftrightarrow> to_ascii_lowercase s = to_ascii_lowercase t"

definition starts_with :: "string \<Rightarrow> string \<Rightarrow> bool" where
  \<comment> \<open>\<^verbatim>\<open>s.starts_with(p)\<close>\<close>
  "starts_with s p \<longleftrightarrow> take (length p) s = p"

definition ends_with :: "string \<Rightarrow> string \<Rightarrow> bool" where
  "ends_with s p \<longleftrightarrow> starts_with (rev s) (rev p)"

definition strip_prefix :: "string \<Rightarrow> string \<Rightarrow> string option" where
  "strip_prefix s p = (if starts_with s p then Some (drop (length p) s) else None)"

lemma starts_with_iff: "starts_with s p \<longleftrightarrow> (\<exists>t. s = p @ t)"
proof
  assume "starts_with s p"
  then have "s = p @ drop (length p) s"
    by (metis append_take_drop_id starts_with_def)
  then show "\<exists>t. s = p @ t" ..
qed (auto simp: starts_with_def)

lemma starts_with_append [simp]: "starts_with (p @ t) p"
  by (simp add: starts_with_def)

lemma starts_with_Nil [simp]: "starts_with s []"
  by (simp add: starts_with_def)

lemma starts_with_Cons [simp]:
  "starts_with (c # s) (d # p) \<longleftrightarrow> c = d \<and> starts_with s p"
  "\<not> starts_with [] (d # p)"
  by (simp_all add: starts_with_def)

lemma strip_prefix_Some [simp]: "strip_prefix s p = Some t \<longleftrightarrow> s = p @ t"
  by (auto simp: strip_prefix_def starts_with_iff)

lemma strip_prefix_None [simp]: "strip_prefix s p = None \<longleftrightarrow> \<not> starts_with s p"
  by (simp add: strip_prefix_def)

text \<open>\<^verbatim>\<open>split_once(c)\<close>: at the first occurrence of a character.\<close>

fun split_once :: "char \<Rightarrow> string \<Rightarrow> (string \<times> string) option" where
  "split_once d [] = None"
| "split_once d (c # s) =
     (if c = d then Some ([], s) else map_option (\<lambda>(l, r). (c # l, r)) (split_once d s))"

lemma split_once_None: "split_once d s = None \<longleftrightarrow> d \<notin> set s"
  by (induction s) auto

lemma split_once_Some: "split_once d s = Some (l, r) \<longleftrightarrow> s = l @ d # r \<and> d \<notin> set l"
proof (induction s arbitrary: l)
  case (Cons c s)
  then show ?case by (cases l) auto
qed simp

text \<open>\<^verbatim>\<open>split(c)\<close>: all the pieces, at least one.\<close>

fun split_on :: "char \<Rightarrow> string \<Rightarrow> string list" where
  "split_on d [] = [[]]"
| "split_on d (c # s) =
     (if c = d then [] # split_on d s
      else (case split_on d s of [] \<Rightarrow> [[c]] | p # ps \<Rightarrow> (c # p) # ps))"

fun join_with :: "string \<Rightarrow> string list \<Rightarrow> string" where
  "join_with sep [] = []"
| "join_with sep [p] = p"
| "join_with sep (p # q # ps) = p @ sep @ join_with sep (q # ps)"

lemma split_on_nonempty [simp]: "split_on d s \<noteq> []"
  by (induction s) (auto split: list.splits)

lemma join_split_on: "join_with [d] (split_on d s) = s"
proof (induction s)
  case (Cons c s)
  obtain p ps where "split_on d s = p # ps" by (cases "split_on d s") auto
  with Cons show ?case by (cases ps) auto
qed simp

lemma split_on_pieces: "p \<in> set (split_on d s) \<Longrightarrow> d \<notin> set p"
proof (induction s arbitrary: p)
  case (Cons c s)
  then show ?case by (auto split: if_splits list.splits)
qed simp

lemma split_on_no_sep: "d \<notin> set p \<Longrightarrow> split_on d p = [p]"
  by (induction p) auto

lemma split_on_append_sep: "d \<notin> set p \<Longrightarrow> split_on d (p @ d # s) = p # split_on d s"
proof (induction p)
  case (Cons c p)
  then show ?case by (auto split: list.splits)
qed simp

lemma split_join:
  assumes "ps \<noteq> []" and "\<forall>p\<in>set ps. d \<notin> set p"
  shows "split_on d (join_with [d] ps) = ps"
  using assms
proof (induction ps rule: induct_list012)
  case (3 p q ps)
  then show ?case by (simp add: split_on_append_sep)
qed (simp_all add: split_on_no_sep)

subsection \<open>Numbers in decimal\<close>

definition digit_char :: "nat \<Rightarrow> char" where
  "digit_char d = byte_of (48 + d)"

definition digit_val :: "char \<Rightarrow> nat" where
  "digit_val c = byte_val c - 48"

fun show_nat :: "nat \<Rightarrow> string" where
  "show_nat n = (if n < 10 then [digit_char n] else show_nat (n div 10) @ [digit_char (n mod 10)])"

declare show_nat.simps [simp del]

definition usize_limit :: nat where
  "usize_limit = 2 ^ 64"

fun parse_digits :: "nat \<Rightarrow> nat \<Rightarrow> string \<Rightarrow> nat option" where
  "parse_digits lim acc [] = Some acc"
| "parse_digits lim acc (c # s) =
     (if is_digit c \<and> acc * 10 + digit_val c < lim
      then parse_digits lim (acc * 10 + digit_val c) s else None)"

text \<open>
  \<^verbatim>\<open>str::parse::<usize>()\<close>: one optional \<^verbatim>\<open>+\<close>, then at least one digit, and no value from
  \<^term>\<open>usize_limit\<close> on.
\<close>

definition parse_usize :: "string \<Rightarrow> nat option" where
  "parse_usize s =
     (case s of [] \<Rightarrow> None
      | c # t \<Rightarrow>
         if c = CHR ''+'' then (if t = [] then None else parse_digits usize_limit 0 t)
         else parse_digits usize_limit 0 s)"

lemma is_digit_digit_char: "d < 10 \<Longrightarrow> is_digit (digit_char d)"
  by (simp add: is_digit_def digit_char_def)

lemma digit_val_digit_char [simp]: "d < 10 \<Longrightarrow> digit_val (digit_char d) = d"
  by (simp add: digit_val_def digit_char_def)

lemma show_nat_nonempty [simp]: "show_nat n \<noteq> []"
  by (subst show_nat.simps) simp

lemma show_nat_digits: "list_all is_digit (show_nat n)"
proof (induction n rule: show_nat.induct)
  case (1 n)
  then show ?case
    by (subst show_nat.simps) (simp add: is_digit_digit_char)
qed

lemma parse_digits_append:
  "parse_digits lim acc (s @ t) = Option.bind (parse_digits lim acc s) (\<lambda>a. parse_digits lim a t)"
  by (induction s arbitrary: acc) auto

lemma parse_digits_show_nat: "n < lim \<Longrightarrow> parse_digits lim 0 (show_nat n) = Some n"
proof (induction n rule: show_nat.induct)
  case (1 n)
  show ?case
  proof (cases "n < 10")
    case True
    with "1.prems" show ?thesis
      by (subst show_nat.simps) (simp add: is_digit_digit_char)
  next
    case False
    with "1.IH" "1.prems" have "parse_digits lim 0 (show_nat (n div 10)) = Some (n div 10)"
      by simp
    with False "1.prems" show ?thesis
      by (subst show_nat.simps) (simp add: parse_digits_append is_digit_digit_char)
  qed
qed

lemma show_nat_hd_digit: "is_digit (hd (show_nat n))"
  using show_nat_digits [of n] by (cases "show_nat n") auto

theorem parse_show_nat: "n < usize_limit \<Longrightarrow> parse_usize (show_nat n) = Some n"
proof -
  assume n: "n < usize_limit"
  obtain c t where s: "show_nat n = c # t" by (cases "show_nat n") auto
  have "is_digit c" using show_nat_hd_digit [of n] s by simp
  then have "c \<noteq> CHR ''+''" by (auto simp: is_digit_def byte_val_def)
  with s n parse_digits_show_nat [of n usize_limit] show ?thesis
    by (simp add: parse_usize_def)
qed

lemma digit_not_space: "is_digit c \<Longrightarrow> \<not> is_whitespace [c]"
  by (auto simp: is_digit_def is_whitespace_single)

lemma trim_show_nat [simp]: "trim (show_nat n) = show_nat n"
  by (rule trim_nonspace [where p = is_digit])
    (auto simp: all_chars_def show_nat_digits digit_not_space is_digit_def)

subsection \<open>Messages\<close>

definition sq :: "string \<Rightarrow> string" where
  \<comment> \<open>a value between single quotation marks, as the messages print it\<close>
  "sq s = [CHR 39] @ s @ [CHR 39]"

definition newline :: string where
  "newline = [CHR 10]"

definition crlf :: string where
  "crlf = [CHR 13, CHR 10]"

end
