(* ===== verification/Version_Support.thy ===== *)
theory Version_Support
  imports Rust_Text
begin

text \<open>
  Release tags and manifest rewriting (\<^verbatim>\<open>src/src/version_support.rs\<close>) and the choice of the
  version string at build time (\<^verbatim>\<open>src/build.rs\<close>).  A \<^verbatim>\<open>VersionError\<close> is its message.
\<close>

type_synonym version_error = string

subsection \<open>Validation\<close>

definition validate_numeric_identifier :: "string \<Rightarrow> bool \<Rightarrow> (version_error, unit) result" where
  "validate_numeric_identifier value prerelease =
     (if value = [] then Inl ''semantic version identifiers must not be empty''
      else if \<not> all_chars is_digit value then
        Inl ''semantic version core identifiers must be numeric''
      else if 1 < length value \<and> starts_with value ''0'' then
        Inl ''semantic version numeric identifiers must not have leading zeros''
      else if prerelease \<and> starts_with value ''0'' \<and> 1 < length value then
        Inl ''semantic version prerelease numeric identifiers must not have leading zeros''
      else Inr ())"

definition is_identifier_char :: "char \<Rightarrow> bool" where
  "is_identifier_char c \<longleftrightarrow> is_ascii_alphanumeric c \<or> c = CHR ''-''"

definition validate_identifier :: "bool \<Rightarrow> string \<Rightarrow> (version_error, unit) result" where
  "validate_identifier forbid_leading_zero ident =
     (if ident = [] then Inl ''semantic version identifiers must not be empty''
      else if \<not> all_chars is_identifier_char ident then
        Inl ''semantic version identifiers must be ASCII alphanumeric or hyphen''
      else if forbid_leading_zero \<and> all_chars is_digit ident then
        validate_numeric_identifier ident True
      else Inr ())"

definition validate_identifiers :: "string \<Rightarrow> bool \<Rightarrow> (version_error, unit) result" where
  "validate_identifiers value forbid_leading_zero =
     try_each (validate_identifier forbid_leading_zero) (split_on CHR ''.'' value)"

text \<open>The loop takes three parts from the iterator and then asks for a fourth.\<close>

fun core_parts :: "nat \<Rightarrow> string list \<Rightarrow> (version_error, unit) result" where
  "core_parts 0 [] = Inr ()"
| "core_parts 0 (p # ps) = Inl ''semantic version must have major.minor.patch''"
| "core_parts (Suc n) [] = Inl ''semantic version must have major.minor.patch''"
| "core_parts (Suc n) (p # ps) =
     bind_res (validate_numeric_identifier p False) (\<lambda>_. core_parts n ps)"

definition validate_core :: "string \<Rightarrow> (version_error, unit) result" where
  "validate_core core = core_parts 3 (split_on CHR ''.'' core)"

definition split_build :: "string \<Rightarrow> (version_error, string \<times> string option) result" where
  "split_build version =
     (case split_once CHR ''+'' version of
        Some (l, r) \<Rightarrow>
          if r = [] \<or> CHR ''+'' \<in> set r then Inl ''invalid semantic version build metadata''
          else Inr (l, Some r)
      | None \<Rightarrow> Inr (version, None))"

definition split_prerelease :: "string \<Rightarrow> (version_error, string \<times> string option) result" where
  "split_prerelease core_and_pre =
     (case split_once CHR ''-'' core_and_pre of
        Some (l, r) \<Rightarrow>
          if r = [] then Inl ''invalid semantic version prerelease'' else Inr (l, Some r)
      | None \<Rightarrow> Inr (core_and_pre, None))"

definition split_version ::
  "string \<Rightarrow> (version_error, string \<times> string option \<times> string option) result" where
  "split_version version =
     bind_res (split_build version) (\<lambda>(core_and_pre, build).
     bind_res (split_prerelease core_and_pre) (\<lambda>(core, prerelease).
       Inr (core, prerelease, build)))"

definition validate_semver :: "string \<Rightarrow> (version_error, unit) result" where
  "validate_semver version =
     bind_res (split_version version) (\<lambda>(core, prerelease, build).
       bind_res (validate_core core) (\<lambda>_.
       bind_res (case prerelease of None \<Rightarrow> Inr () | Some p \<Rightarrow> validate_identifiers p True) (\<lambda>_.
         case build of None \<Rightarrow> Inr () | Some b \<Rightarrow> validate_identifiers b False)))"

definition normalize_release_tag :: "string \<Rightarrow> (version_error, string) result" where
  "normalize_release_tag tag =
     bind_res
       (ok_or ''release tag must start with v or V''
          (or_else (strip_prefix tag ''v'') (strip_prefix tag ''V'')))
       (\<lambda>version. bind_res (validate_semver version) (\<lambda>_. Inr version))"

definition runtime_version :: "string \<Rightarrow> bool \<Rightarrow> string" where
  "runtime_version version dist_build = (if dist_build then version @ ''-dist'' else version)"

subsection \<open>Manifest rewriting\<close>

fun split_inclusive :: "string \<Rightarrow> string list" where
  \<comment> \<open>the lines with their newline; no line for an empty rest\<close>
  "split_inclusive [] = []"
| "split_inclusive (c # s) =
     (if c = CHR 10 then [c] # split_inclusive s
      else (case split_inclusive s of [] \<Rightarrow> [[c]] | l # ls \<Rightarrow> (c # l) # ls))"

definition trim_line_end :: "string \<Rightarrow> string" where
  "trim_line_end line = rev (dropWhile (\<lambda>c. c = CHR 13 \<or> c = CHR 10) (rev line))"

definition version_key :: string where
  "version_key = ''version = ''"

definition version_line :: "string \<Rightarrow> string" where
  "version_line version = version_key @ [CHR 34] @ version @ [CHR 34, CHR 10]"

definition enters_package :: "bool \<Rightarrow> string \<Rightarrow> bool" where
  "enters_package in_package line =
     (let section = trim (trim_line_end line) in
      if starts_with section ''['' \<and> ends_with section '']'' then section = ''[package]''
      else in_package)"

fun rewrite_lines :: "string \<Rightarrow> bool \<Rightarrow> bool \<Rightarrow> string list \<Rightarrow> string \<times> bool" where
  "rewrite_lines version in_package replaced [] = ([], replaced)"
| "rewrite_lines version in_package replaced (line # rest) =
     (let in_package' = enters_package in_package line in
      if in_package' \<and> \<not> replaced \<and> starts_with (trim_line_end line) version_key then
        (let (out, r) = rewrite_lines version in_package' True rest
         in (version_line version @ out, r))
      else
        (let (out, r) = rewrite_lines version in_package' replaced rest in (line @ out, r)))"

definition rewrite_manifest_version :: "string \<Rightarrow> string \<Rightarrow> (version_error, string) result" where
  "rewrite_manifest_version contents version =
     (let (output, replaced) = rewrite_lines version False False (split_inclusive contents) in
      if \<not> replaced then Inl ''failed to locate package version in Cargo.toml''
      else Inr output)"

subsection \<open>Build-time selection (build.rs)\<close>

definition env_truthy :: "string option \<Rightarrow> bool" where
  "env_truthy value =
     (case value of
        None \<Rightarrow> False
      | Some v \<Rightarrow>
         (case from_utf8 v of
            None \<Rightarrow> False
          | Some v \<Rightarrow> to_ascii_lowercase (trim v) \<in> {''1'', ''true'', ''yes'', ''on''}))"

definition dist_build_enabled :: "(string \<Rightarrow> string option) \<Rightarrow> bool" where
  "dist_build_enabled env \<longleftrightarrow> env_truthy (env ''CENTRALSSH_DIST_BUILD'') \<or> env_truthy (env ''CI'')"

text \<open>
  \<^verbatim>\<open>env::var\<close> fails on a value that is not UTF-8; \<^verbatim>\<open>git\<close> is what
  \<^verbatim>\<open>git describe --tags --exact-match HEAD\<close> printed, when it succeeded.
\<close>

definition env_var :: "(string \<Rightarrow> string option) \<Rightarrow> string \<Rightarrow> string option" where
  "env_var env k = Option.bind (env k) from_utf8"

definition detect_git_tag_version :: "string option \<Rightarrow> string option" where
  "detect_git_tag_version git =
     Option.bind git (\<lambda>out. Option.bind (from_utf8 out) (\<lambda>tag.
       res_ok (normalize_release_tag (trim tag))))"

definition build_release_version ::
  "(string \<Rightarrow> string option) \<Rightarrow> string option \<Rightarrow> string \<Rightarrow> string" where
  "build_release_version env git cargo_pkg_version =
     unwrap_or cargo_pkg_version
       (or_else (or_else (env_var env ''CENTRALSSH_RELEASE_VERSION'')
                         (env_var env ''CENTRALSSH_VERSION''))
                (detect_git_tag_version git))"

definition build_version_suffix :: "(string \<Rightarrow> string option) \<Rightarrow> string" where
  "build_version_suffix env = (if dist_build_enabled env then ''-dist'' else '''')"

subsection \<open>The grammar of semantic versions\<close>

definition numeric_ident :: "string \<Rightarrow> bool" where
  "numeric_ident s \<longleftrightarrow> s \<noteq> [] \<and> list_all is_digit s \<and> (hd s = CHR ''0'' \<longrightarrow> s = ''0'')"

definition build_ident :: "string \<Rightarrow> bool" where
  "build_ident s \<longleftrightarrow> s \<noteq> [] \<and> list_all is_identifier_char s"

definition pre_ident :: "string \<Rightarrow> bool" where
  "pre_ident s \<longleftrightarrow> build_ident s \<and> (list_all is_digit s \<longrightarrow> numeric_ident s)"

definition ident_list :: "(string \<Rightarrow> bool) \<Rightarrow> string \<Rightarrow> bool" where
  "ident_list p s \<longleftrightarrow> (\<exists>ids. ids \<noteq> [] \<and> list_all p ids \<and> s = join_with ''.'' ids)"

definition semver :: "string \<Rightarrow> bool" where
  "semver v \<longleftrightarrow> (\<exists>major minor patch pre build.
     numeric_ident major \<and> numeric_ident minor \<and> numeric_ident patch \<and>
     (case pre of None \<Rightarrow> True | Some p \<Rightarrow> ident_list pre_ident p) \<and>
     (case build of None \<Rightarrow> True | Some b \<Rightarrow> ident_list build_ident b) \<and>
     v = join_with ''.'' [major, minor, patch]
         @ (case pre of None \<Rightarrow> [] | Some p \<Rightarrow> ''-'' @ p)
         @ (case build of None \<Rightarrow> [] | Some b \<Rightarrow> ''+'' @ b))"

lemma validate_numeric_identifier_ok:
  "validate_numeric_identifier s pre = Inr u \<longleftrightarrow> numeric_ident s"
  by (cases s) (auto simp: validate_numeric_identifier_def numeric_ident_def all_chars_def)

lemma validate_identifier_pre_ok: "validate_identifier True s = Inr () \<longleftrightarrow> pre_ident s"
  by (auto simp: validate_identifier_def pre_ident_def build_ident_def all_chars_def
      validate_numeric_identifier_ok)

lemma validate_identifier_build_ok: "validate_identifier False s = Inr () \<longleftrightarrow> build_ident s"
  by (auto simp: validate_identifier_def build_ident_def all_chars_def)

lemma identifier_chars: "build_ident s \<Longrightarrow> CHR ''.'' \<notin> set s \<and> CHR ''+'' \<notin> set s"
  by (auto simp: build_ident_def is_identifier_char_def list_all_iff is_ascii_alphanumeric_def
      is_digit_def byte_val_def)

lemma numeric_chars:
  "numeric_ident s \<Longrightarrow> CHR ''.'' \<notin> set s \<and> CHR ''+'' \<notin> set s \<and> CHR ''-'' \<notin> set s"
  by (auto simp: numeric_ident_def list_all_iff is_digit_def byte_val_def)

lemma pre_ident_build: "pre_ident s \<Longrightarrow> build_ident s"
  by (simp add: pre_ident_def)

text \<open>A list of identifiers is what splitting at the dots gives back.\<close>

lemma ident_list_split:
  assumes "\<And>s. p s \<Longrightarrow> CHR ''.'' \<notin> set s"
  shows "ident_list p v \<longleftrightarrow> list_all p (split_on CHR ''.'' v)"
proof
  assume "ident_list p v"
  then obtain ids where ids: "ids \<noteq> []" "list_all p ids" "v = join_with [CHR ''.''] ids"
    by (auto simp: ident_list_def)
  with assms have "split_on CHR ''.'' v = ids"
    by (auto simp: list_all_iff split_join)
  with ids show "list_all p (split_on CHR ''.'' v)" by simp
next
  assume "list_all p (split_on CHR ''.'' v)"
  then show "ident_list p v"
    unfolding ident_list_def
    by (intro exI [of _ "split_on CHR ''.'' v"]) (simp add: join_split_on)
qed

lemma validate_identifiers_pre_ok:
  "validate_identifiers v True = Inr u \<longleftrightarrow> ident_list pre_ident v"
  by (subst ident_list_split)
    (auto simp: validate_identifiers_def validate_identifier_pre_ok list_all_iff
      dest: pre_ident_build identifier_chars)

lemma validate_identifiers_build_ok:
  "validate_identifiers v False = Inr u \<longleftrightarrow> ident_list build_ident v"
  by (subst ident_list_split)
    (auto simp: validate_identifiers_def validate_identifier_build_ok list_all_iff
      dest: identifier_chars)

lemma build_ident_nonempty: "build_ident s \<Longrightarrow> s \<noteq> []"
  by (simp add: build_ident_def)

lemma ident_list_nonempty:
  "ident_list p v \<Longrightarrow> (\<And>s. p s \<Longrightarrow> build_ident s) \<Longrightarrow> v \<noteq> [] \<and> CHR ''+'' \<notin> set v"
proof -
  assume "ident_list p v" and p: "\<And>s. p s \<Longrightarrow> build_ident s"
  then obtain ids where ids: "ids \<noteq> []" "list_all build_ident ids" "v = join_with ''.'' ids"
    by (auto simp: ident_list_def list_all_iff)
  from ids(1,2) have "join_with ''.'' ids \<noteq> [] \<and> CHR ''+'' \<notin> set (join_with ''.'' ids)"
    by (induction ids rule: induct_list012) (auto dest: identifier_chars build_ident_nonempty)
  with ids(3) show ?thesis by simp
qed

lemma core_parts_three:
  "core_parts 3 ps = Inr u \<longleftrightarrow>
     (\<exists>a b c. ps = [a, b, c] \<and> numeric_ident a \<and> numeric_ident b \<and> numeric_ident c)"
proof -
  have "core_parts (Suc (Suc (Suc 0))) ps = Inr u \<longleftrightarrow>
     (\<exists>a b c. ps = [a, b, c] \<and> numeric_ident a \<and> numeric_ident b \<and> numeric_ident c)"
  proof (cases "length ps = 3")
    case True
    then obtain a b c where "ps = [a, b, c]"
      by (auto simp: numeral_3_eq_3 length_Suc_conv)
    then show ?thesis by (simp add: validate_numeric_identifier_ok)
  next
    case False
    have "core_parts n ps = Inr u \<Longrightarrow> length ps = n" for n
      by (induction n ps rule: core_parts.induct) auto
    with False show ?thesis by auto
  qed
  then show ?thesis by (simp add: numeral_3_eq_3)
qed

lemma validate_core_ok:
  "validate_core core = Inr u \<longleftrightarrow>
     (\<exists>a b c. core = join_with ''.'' [a, b, c] \<and> numeric_ident a \<and> numeric_ident b \<and> numeric_ident c)"
    (is "?L \<longleftrightarrow> ?R")
proof
  assume ?L
  then obtain a b c where abc: "split_on CHR ''.'' core = [a, b, c]"
      "numeric_ident a" "numeric_ident b" "numeric_ident c"
    by (auto simp: validate_core_def core_parts_three)
  have "core = join_with ''.'' [a, b, c]"
    using join_split_on [of "CHR ''.''" core] abc(1) by simp
  with abc(2-) show ?R by blast
next
  assume ?R
  then obtain a b c where abc: "core = join_with ''.'' [a, b, c]"
      "numeric_ident a" "numeric_ident b" "numeric_ident c" by blast
  then have "split_on CHR ''.'' core = [a, b, c]"
    using split_join [of "[a, b, c]" "CHR ''.''"] by (auto dest: numeric_chars)
  with abc(2-) show ?L by (simp add: validate_core_def core_parts_three)
qed

lemma core_no_marks:
  "validate_core core = Inr u \<Longrightarrow> CHR ''-'' \<notin> set core \<and> CHR ''+'' \<notin> set core"
  by (auto simp: validate_core_ok dest: numeric_chars)

lemma split_build_ok:
  "split_build v = Inr (cp, build) \<longleftrightarrow>
   (case build of None \<Rightarrow> v = cp \<and> CHR ''+'' \<notin> set v
    | Some b \<Rightarrow> v = cp @ ''+'' @ b \<and> CHR ''+'' \<notin> set cp \<and> b \<noteq> [] \<and> CHR ''+'' \<notin> set b)"
proof (cases "split_once CHR ''+'' v")
  case None
  then have "CHR ''+'' \<notin> set v" by (simp add: split_once_None)
  with None show ?thesis by (cases build) (auto simp: split_build_def)
next
  case (Some lr)
  obtain l r where lr: "lr = (l, r)" by (cases lr)
  have "split_once CHR ''+'' v = Some (cp, b) \<longleftrightarrow> cp = l \<and> b = r" for b
    using Some lr by auto
  then have "v = cp @ CHR ''+'' # b \<and> CHR ''+'' \<notin> set cp \<longleftrightarrow> cp = l \<and> b = r" for b
    by (simp only: split_once_Some)
  moreover have "CHR ''+'' \<in> set v" using Some lr by (simp add: split_once_Some)
  ultimately show ?thesis
    using Some lr by (cases build) (auto simp: split_build_def)
qed

lemma split_prerelease_ok:
  "split_prerelease cp = Inr (core, pre) \<longleftrightarrow>
   (case pre of None \<Rightarrow> cp = core \<and> CHR ''-'' \<notin> set cp
    | Some p \<Rightarrow> cp = core @ ''-'' @ p \<and> CHR ''-'' \<notin> set core \<and> p \<noteq> [])"
proof (cases "split_once CHR ''-'' cp")
  case None
  then have "CHR ''-'' \<notin> set cp" by (simp add: split_once_None)
  with None show ?thesis by (cases pre) (auto simp: split_prerelease_def)
next
  case (Some lr)
  obtain l r where lr: "lr = (l, r)" by (cases lr)
  have "split_once CHR ''-'' cp = Some (core, p) \<longleftrightarrow> core = l \<and> p = r" for p
    using Some lr by auto
  then have "cp = core @ CHR ''-'' # p \<and> CHR ''-'' \<notin> set core \<longleftrightarrow> core = l \<and> p = r" for p
    by (simp only: split_once_Some)
  moreover have "CHR ''-'' \<in> set cp" using Some lr by (simp add: split_once_Some)
  ultimately show ?thesis
    using Some lr by (cases pre) (auto simp: split_prerelease_def)
qed

lemma split_version_ok:
  "split_version v = Inr (core, pre, build) \<longleftrightarrow>
     (\<exists>cp. split_build v = Inr (cp, build) \<and> split_prerelease cp = Inr (core, pre))"
  by (auto simp: split_version_def)

lemma validate_semver_ok: "validate_semver v = Inr u \<longleftrightarrow> semver v"
proof
  assume "validate_semver v = Inr u"
  then obtain core pre build where
    sv: "split_version v = Inr (core, pre, build)" and core: "validate_core core = Inr ()" and
    pre: "(case pre of None \<Rightarrow> Inr () | Some p \<Rightarrow> validate_identifiers p True) = Inr ()" and
    build: "(case build of None \<Rightarrow> Inr () | Some b \<Rightarrow> validate_identifiers b False) = Inr ()"
    by (auto simp: validate_semver_def)
  from core obtain a b c where "core = join_with ''.'' [a, b, c]"
      "numeric_ident a" "numeric_ident b" "numeric_ident c"
    by (auto simp: validate_core_ok)
  moreover from sv have "v = core @ (case pre of None \<Rightarrow> [] | Some p \<Rightarrow> ''-'' @ p)
      @ (case build of None \<Rightarrow> [] | Some b \<Rightarrow> ''+'' @ b)"
    by (auto simp: split_version_ok split_build_ok split_prerelease_ok split: option.splits)
  ultimately show "semver v"
    using pre build unfolding semver_def
    by (intro exI [of _ a] exI [of _ b] exI [of _ c] exI [of _ pre] exI [of _ build])
      (auto simp: validate_identifiers_pre_ok validate_identifiers_build_ok split: option.splits)
next
  assume "semver v"
  then obtain a b c pre build where
    nums: "numeric_ident a" "numeric_ident b" "numeric_ident c" and
    pre: "case pre of None \<Rightarrow> True | Some p \<Rightarrow> ident_list pre_ident p" and
    build: "case build of None \<Rightarrow> True | Some b \<Rightarrow> ident_list build_ident b" and
    v: "v = join_with ''.'' [a, b, c] @ (case pre of None \<Rightarrow> [] | Some p \<Rightarrow> ''-'' @ p)
         @ (case build of None \<Rightarrow> [] | Some b \<Rightarrow> ''+'' @ b)"
    unfolding semver_def by blast
  let ?core = "join_with ''.'' [a, b, c]"
  have core: "validate_core ?core = Inr ()"
    unfolding validate_core_ok using nums by blast
  note marks = core_no_marks [OF core]
  let ?cp = "?core @ (case pre of None \<Rightarrow> [] | Some p \<Rightarrow> ''-'' @ p)"
  have cp: "CHR ''+'' \<notin> set ?cp"
    using marks pre ident_list_nonempty [OF _ pre_ident_build]
    by (auto simp del: join_with.simps split: option.splits)
  have "split_prerelease ?cp = Inr (?core, pre)"
    using marks pre ident_list_nonempty [OF _ pre_ident_build]
    by (auto simp: split_prerelease_ok simp del: join_with.simps split: option.splits)
  moreover have "split_build v = Inr (?cp, build)"
    using cp build v ident_list_nonempty [of build_ident]
    by (auto simp: split_build_ok simp del: join_with.simps split: option.splits)
  ultimately have "split_version v = Inr (?core, pre, build)"
    unfolding split_version_ok by blast
  with core pre build show "validate_semver v = Inr u"
    by (auto simp: validate_semver_def validate_identifiers_pre_ok validate_identifiers_build_ok
        split: option.splits)
qed

text \<open>
  a release tag is accepted exactly when it is \<^verbatim>\<open>v\<close> or \<^verbatim>\<open>V\<close> followed by a version of
  the semantic-version grammar (three numbers without leading zeros, optional prerelease and
  build identifiers), and the result is the tag without its first letter.
\<close>

theorem normalize_release_tag_correct:
  "normalize_release_tag tag = Inr v \<longleftrightarrow> (tag = ''v'' @ v \<or> tag = ''V'' @ v) \<and> semver v"
proof (cases "\<exists>w. tag = CHR ''v'' # w")
  case True
  then show ?thesis
    by (auto simp: normalize_release_tag_def validate_semver_ok strip_prefix_def)
next
  case False
  then show ?thesis
    by (cases tag) (auto simp: normalize_release_tag_def validate_semver_ok strip_prefix_def
        split: if_splits)
qed

subsection \<open>What rewriting a manifest changes\<close>

definition is_line :: "string \<Rightarrow> bool" where
  "is_line l \<longleftrightarrow> (\<exists>t. l = t @ [CHR 10] \<and> CHR 10 \<notin> set t)"

lemma is_line_version_line: "CHR 10 \<notin> set v \<Longrightarrow> is_line (version_line v)"
  unfolding is_line_def
  by (intro exI [of _ "version_key @ [CHR 34] @ v @ [CHR 34]"])
    (auto simp: version_line_def version_key_def)

lemma split_inclusive_no_newline:
  "CHR 10 \<notin> set s \<Longrightarrow> s \<noteq> [] \<Longrightarrow> split_inclusive s = [s]"
  by (induction s rule: induct_list012) auto

lemma split_inclusive_line: "is_line l \<Longrightarrow> split_inclusive (l @ s) = l # split_inclusive s"
proof -
  have "CHR 10 \<notin> set t \<Longrightarrow> split_inclusive (t @ CHR 10 # s) = (t @ [CHR 10]) # split_inclusive s" for t
    by (induction t) auto
  then show "is_line l \<Longrightarrow> ?thesis" by (auto simp: is_line_def)
qed

definition line_list :: "string list \<Rightarrow> bool" where
  \<comment> \<open>newline-terminated lines; the last one may lack its newline\<close>
  "line_list ls \<longleftrightarrow> list_all is_line ls
     \<or> (\<exists>ms m. ls = ms @ [m] \<and> list_all is_line ms \<and> m \<noteq> [] \<and> CHR 10 \<notin> set m)"

lemma split_inclusive_lines: "list_all is_line ls \<Longrightarrow> split_inclusive (concat ls @ s) = ls @ split_inclusive s"
  by (induction ls) (simp_all add: split_inclusive_line)

lemma split_inclusive_concat: "line_list ls \<Longrightarrow> split_inclusive (concat ls) = ls"
  using split_inclusive_lines [of ls "[]"]
  by (auto simp: line_list_def split_inclusive_lines split_inclusive_no_newline)

lemma line_list_Cons: "is_line l \<Longrightarrow> line_list ls \<Longrightarrow> line_list (l # ls)"
  unfolding line_list_def by (metis append_Cons list.pred_inject(2))

lemma line_list_replace:
  assumes "line_list (pre @ l # post)" and "is_line m"
  shows "line_list (pre @ m # post)"
  using assms
proof (cases post rule: rev_cases)
  case (snoc qs q)
  with assms show ?thesis unfolding line_list_def
    by (auto simp: list_all_append)
qed (auto simp: line_list_def)

lemma line_list_split_inclusive: "line_list (split_inclusive s)"
proof (induction s)
  case (Cons c s)
  show ?case
  proof (cases "c = CHR 10")
    case True
    have "is_line [CHR 10]" by (auto simp: is_line_def)
    with True Cons show ?thesis by (simp add: line_list_Cons)
  next
    case False
    show ?thesis
    proof (cases "split_inclusive s")
      case Nil
      with False show ?thesis
        by (auto simp: line_list_def intro: exI [of _ "[]"])
    next
      case (Cons l ls)
      have line: "is_line l \<Longrightarrow> is_line (c # l)"
        using False unfolding is_line_def by (metis append_Cons set_ConsD)
      from Cons.IH Cons consider "list_all is_line (l # ls)"
        | ms m where "l # ls = ms @ [m]" "list_all is_line ms" "m \<noteq> []" "CHR 10 \<notin> set m"
        by (auto simp: line_list_def)
      then have "line_list ((c # l) # ls)"
      proof cases
        case 1
        with line show ?thesis by (simp add: line_list_def)
      next
        case 2
        show ?thesis
        proof (cases ms)
          case Nil
          with 2 False show ?thesis
            by (auto simp: line_list_def intro!: disjI2 exI [of _ "[]"])
        next
          case (Cons n ns)
          with 2 line have "(c # l) # ls = ((c # l) # ns) @ [m] \<and> list_all is_line ((c # l) # ns)"
            by simp
          with 2 show ?thesis unfolding line_list_def by blast
        qed
      qed
      with False Cons show ?thesis by simp
    qed
  qed
qed (simp add: line_list_def)

lemma concat_split_inclusive: "concat (split_inclusive s) = s"
  by (induction s) (auto split: list.splits)

lemma trim_hd:
  assumes "byte_val c < 128" and "\<not> is_whitespace [c]"
  shows "\<exists>t. trim (c # s) = c # t"
proof -
  have chars: "chars (c # s) = [c] # chars s"
    using assms(1) by (simp add: chars_def utf8_step_ascii)
  have keep: "dropWhile is_whitespace (xs @ [[c]]) = dropWhile is_whitespace xs @ [[c]]" for xs
    using assms(2) by (induction xs) auto
  show ?thesis
    using assms(2) by (simp add: trim_def chars keep)
qed

lemma enters_package_version_key:
  assumes "starts_with (trim_line_end line) version_key"
  shows "enters_package b line = b"
proof -
  obtain t where t: "trim_line_end line = CHR ''v'' # t"
    using assms by (auto simp: starts_with_iff version_key_def)
  have "byte_val (CHR ''v'') = 118" by (simp add: byte_val_def)
  then obtain u where "trim (trim_line_end line) = CHR ''v'' # u"
    using trim_hd [of "CHR ''v''" t] t by (auto simp: is_whitespace_single)
  then show ?thesis by (simp add: enters_package_def)
qed

definition in_package_after :: "string list \<Rightarrow> bool" where
  "in_package_after ls = foldl enters_package False ls"

definition version_entry :: "string list \<Rightarrow> string \<Rightarrow> bool" where
  \<comment> \<open>after the lines \<^verbatim>\<open>ls\<close>, this line is a version entry of the package section\<close>
  "version_entry ls line \<longleftrightarrow>
     in_package_after ls \<and> starts_with (trim_line_end line) version_key"

definition first_version_entry :: "string list \<Rightarrow> string \<Rightarrow> bool" where
  "first_version_entry ls line \<longleftrightarrow> version_entry ls line
     \<and> (\<forall>us u vs. ls = us @ u # vs \<longrightarrow> \<not> version_entry us u)"

lemma rewrite_lines_replaced: "rewrite_lines v b True ls = (concat ls, True)"
  by (induction ls arbitrary: b) (auto simp: Let_def)

lemma rewrite_lines_skip:
  assumes "\<And>us u ws. pre = us @ u # ws \<Longrightarrow>
      \<not> (foldl enters_package b us \<and> starts_with (trim_line_end u) version_key)"
  shows "rewrite_lines v b False (pre @ ls) =
    (let (out, r) = rewrite_lines v (foldl enters_package b pre) False ls in (concat pre @ out, r))"
  using assms
proof (induction pre arbitrary: b)
  case (Cons x pre)
  from Cons.prems [of "[]" x pre]
  have x: "\<not> (enters_package b x \<and> starts_with (trim_line_end x) version_key)"
    by (auto simp: enters_package_version_key)
  have "rewrite_lines v (enters_package b x) False (pre @ ls) =
    (let (out, r) = rewrite_lines v (foldl enters_package (enters_package b x) pre) False ls
     in (concat pre @ out, r))"
    using Cons.prems [of "x # _"] by (intro Cons.IH) simp
  with x show ?case by (auto simp: Let_def split: prod.splits)
qed simp

lemma rewrite_lines_hit:
  assumes "first_version_entry pre line"
  shows "rewrite_lines v False False (pre @ line # post)
    = (concat pre @ version_line v @ concat post, True)"
proof -
  from assms have "version_entry pre line" by (simp add: first_version_entry_def)
  then have "rewrite_lines v (foldl enters_package False pre) False (line # post)
      = (version_line v @ concat post, True)"
    by (simp add: version_entry_def in_package_after_def enters_package_version_key
        rewrite_lines_replaced)
  moreover have "rewrite_lines v False False (pre @ line # post) =
    (let (out, r) = rewrite_lines v (foldl enters_package False pre) False (line # post)
     in (concat pre @ out, r))"
    using assms unfolding first_version_entry_def version_entry_def in_package_after_def
    by (intro rewrite_lines_skip) blast
  ultimately show ?thesis by simp
qed

lemma first_entry_or_none:
  "(\<exists>pre line post. ls = pre @ line # post \<and> first_version_entry pre line)
   \<or> (\<forall>us u ws. ls = us @ u # ws \<longrightarrow> \<not> version_entry us u)"
proof (induction ls rule: rev_induct)
  case (snoc x ls)
  from snoc show ?case
  proof
    assume "\<exists>pre line post. ls = pre @ line # post \<and> first_version_entry pre line"
    then show ?thesis by (metis append_Cons append_assoc)
  next
    assume none: "\<forall>us u ws. ls = us @ u # ws \<longrightarrow> \<not> version_entry us u"
    show ?thesis
    proof (cases "version_entry ls x")
      case True
      with none have "first_version_entry ls x" by (simp add: first_version_entry_def)
      then show ?thesis by blast
    next
      case False
      have "\<not> version_entry us u" if "ls @ [x] = us @ u # ws" for us u ws
        using that none False by (cases ws rule: rev_cases) auto
      then show ?thesis by blast
    qed
  qed
qed simp

lemma rewrite_lines_none:
  assumes "\<forall>us u ws. ls = us @ u # ws \<longrightarrow> \<not> version_entry us u"
  shows "rewrite_lines v False False ls = (concat ls, False)"
proof -
  have "rewrite_lines v False False (ls @ []) =
    (let (out, r) = rewrite_lines v (foldl enters_package False ls) False [] in (concat ls @ out, r))"
    using assms unfolding version_entry_def in_package_after_def
    by (intro rewrite_lines_skip) blast
  then show ?thesis by simp
qed

text \<open>
  rewriting a manifest succeeds exactly when some line of the package section is a
  version entry; then the first such line alone is replaced, and every other line,
  dependency versions included, is kept byte for byte.
\<close>

theorem rewrite_manifest_correct:
  "rewrite_manifest_version contents version = Inr out \<longleftrightarrow>
     (\<exists>pre line post. split_inclusive contents = pre @ line # post
        \<and> first_version_entry pre line
        \<and> out = concat pre @ version_line version @ concat post)"
  (is "?L \<longleftrightarrow> ?R")
proof
  assume ?L
  then have out: "rewrite_lines version False False (split_inclusive contents) = (out, True)"
    by (auto simp: rewrite_manifest_version_def split: prod.splits if_splits)
  from first_entry_or_none [of "split_inclusive contents"] show ?R
  proof
    assume "\<exists>pre line post. split_inclusive contents = pre @ line # post \<and> first_version_entry pre line"
    with out show ?R by (metis rewrite_lines_hit fst_conv)
  qed (use out rewrite_lines_none in auto)
next
  assume ?R
  then show ?L by (auto simp: rewrite_manifest_version_def rewrite_lines_hit)
qed

lemma version_entry_version_line:
  "CHR 10 \<notin> set v \<Longrightarrow> version_entry pre (version_line v) = in_package_after pre"
  by (simp add: version_entry_def version_line_def trim_line_end_def)

text \<open>
  rewriting twice is rewriting once with the second version (for a first version that
  does not contain a newline), so a release job may be repeated.
\<close>

theorem rewrite_manifest_idempotent:
  assumes first: "rewrite_manifest_version contents v1 = Inr out" and "CHR 10 \<notin> set v1"
  shows "rewrite_manifest_version out v2 = rewrite_manifest_version contents v2"
proof -
  from first obtain pre line post where
    split: "split_inclusive contents = pre @ line # post" and
    entry: "first_version_entry pre line" and
    out: "out = concat pre @ version_line v1 @ concat post"
    unfolding rewrite_manifest_correct by blast
  have "line_list (pre @ line # post)"
    using line_list_split_inclusive [of contents] split by simp
  then have "line_list (pre @ version_line v1 # post)"
    using is_line_version_line [OF assms(2)] by (rule line_list_replace)
  then have split': "split_inclusive out = pre @ version_line v1 # post"
    using split_inclusive_concat [of "pre @ version_line v1 # post"] out by simp
  have entry': "first_version_entry pre (version_line v1)"
    using entry version_entry_version_line [OF assms(2), of pre] unfolding first_version_entry_def
    by (simp add: version_entry_def [of pre line])
  show ?thesis
    using rewrite_lines_hit [OF entry] rewrite_lines_hit [OF entry'] split split'
    by (simp add: rewrite_manifest_version_def)
qed

definition sample_manifest :: string where
  "sample_manifest = ''[package]'' @ newline @ ''version = 0'' @ newline @ ''[dependencies]'' @ newline
     @ ''version = 9'' @ newline"

theorem rewrite_manifest_idempotent_witness:
  "rewrite_manifest_version (concat [''[package]'', newline, version_line ''1.2.3'', ''[dependencies]'',
     newline, ''version = 9'', newline]) ''2.0.0'' = rewrite_manifest_version sample_manifest ''2.0.0''"
proof -
  have "rewrite_manifest_version sample_manifest ''1.2.3''
    = Inr (concat [''[package]'', newline, version_line ''1.2.3'', ''[dependencies]'',
        newline, ''version = 9'', newline])"
    by code_simp
  then show ?thesis
    by (rule rewrite_manifest_idempotent) simp
qed

end
