(* ===== verification/Gateway_Error.thy ===== *)
theory Gateway_Error
  imports Rust_Text
begin

text \<open>
  The error type of the gateway (\<^verbatim>\<open>src/src/error.rs\<close>) with its \<^verbatim>\<open>Display\<close> texts.  The
  payloads of foreign errors (\<^verbatim>\<open>std::io\<close>, \<^verbatim>\<open>serde_json\<close>, \<^verbatim>\<open>toml\<close>, \<^verbatim>\<open>argon2\<close>) are their
  printed form; of an I/O error the kind \<^verbatim>\<open>NotFound\<close> is kept because the code tests it.
\<close>

datatype io_error = IoNotFound string | IoOther string

fun display_io :: "io_error \<Rightarrow> string" where
  "display_io (IoNotFound m) = m"
| "display_io (IoOther m) = m"

datatype central_error =
    Io io_error
  | Serde string
  | TomlDe string
  | TomlSer string
  | PasswordHash string
  | InvalidConfig string
  | SecurityPolicy string string
  | AuthenticationFailed
  | AuthorizationDenied
  | RateLimitExceeded
  | TotpInvalid
  | Ssh string

fun display_error :: "central_error \<Rightarrow> string" where
  "display_error (Io e) = ''I/O error: '' @ display_io e"
| "display_error (Serde m) = ''serialization error: '' @ m"
| "display_error (TomlDe m) = ''TOML decode error: '' @ m"
| "display_error (TomlSer m) = ''TOML encode error: '' @ m"
| "display_error (PasswordHash m) = ''password hash error: '' @ m"
| "display_error (InvalidConfig m) = ''invalid configuration: '' @ m"
| "display_error (SecurityPolicy p m) = ''security policy violation for '' @ p @ '': '' @ m"
| "display_error AuthenticationFailed = ''authentication failed''"
| "display_error AuthorizationDenied = ''authorization denied''"
| "display_error RateLimitExceeded = ''rate limit exceeded''"
| "display_error TotpInvalid = ''totp validation failed''"
| "display_error (Ssh m) = ''ssh error: '' @ m"

type_synonym 'a gw_result = "(central_error, 'a) result"

end
