(* ===== verification/Hash_Map.thy ===== *)
theory Hash_Map
  imports Prelude "HOL-Library.AList"
begin

text \<open>
  \<^verbatim>\<open>std::collections::HashMap\<close> as the gateway uses it.  A map is the list of its entries
  in some iteration order, each key once; a theorem over all such lists covers every order
  the hash function can produce.  The locale \<^verbatim>\<open>key_store\<close> is the interface the components
  rely on (rate limiter, abuse tracker, channel tables), interpreted here on the list model.
\<close>

type_synonym ('k, 'v) hash_map = "('k \<times> 'v) list"

definition hm_wf :: "('k, 'v) hash_map \<Rightarrow> bool" where
  "hm_wf m \<longleftrightarrow> distinct (map fst m)"

definition hm_get :: "('k, 'v) hash_map \<Rightarrow> 'k \<Rightarrow> 'v option" where
  "hm_get m k = map_of m k"

definition hm_insert :: "'k \<Rightarrow> 'v \<Rightarrow> ('k, 'v) hash_map \<Rightarrow> ('k, 'v) hash_map" where
  "hm_insert k v m = AList.update k v m"

definition hm_remove :: "'k \<Rightarrow> ('k, 'v) hash_map \<Rightarrow> ('k, 'v) hash_map" where
  "hm_remove k m = AList.delete k m"

definition hm_contains :: "('k, 'v) hash_map \<Rightarrow> 'k \<Rightarrow> bool" where
  "hm_contains m k \<longleftrightarrow> hm_get m k \<noteq> None"

definition hm_retain :: "('k \<Rightarrow> 'v \<Rightarrow> bool) \<Rightarrow> ('k, 'v) hash_map \<Rightarrow> ('k, 'v) hash_map" where
  "hm_retain p m = filter (\<lambda>(k, v). p k v) m"

definition hm_entry_or :: "'k \<Rightarrow> 'v \<Rightarrow> ('k, 'v) hash_map \<Rightarrow> 'v" where
  \<comment> \<open>the value \<^verbatim>\<open>entry(k).or_insert(d)\<close> refers to\<close>
  "hm_entry_or k d m = unwrap_or d (hm_get m k)"

locale key_store =
  fixes empty :: 'm
    and get :: "'m \<Rightarrow> 'k \<Rightarrow> 'v option"
    and put :: "'k \<Rightarrow> 'v \<Rightarrow> 'm \<Rightarrow> 'm"
    and del :: "'k \<Rightarrow> 'm \<Rightarrow> 'm"
    and len :: "'m \<Rightarrow> nat"
    and wf :: "'m \<Rightarrow> bool"
  assumes wf_empty: "wf empty"
    and wf_put: "wf m \<Longrightarrow> wf (put k v m)"
    and wf_del: "wf m \<Longrightarrow> wf (del k m)"
    and get_empty: "get empty k = None"
    and get_put: "get (put k v m) = (get m)(k \<mapsto> v)"
    and get_del: "get (del k m) = (get m)(k := None)"
    and len_dom: "wf m \<Longrightarrow> len m = card (dom (get m))"
    and finite_dom: "finite (dom (get m))"
begin

lemma len_put_known: "wf m \<Longrightarrow> get m k \<noteq> None \<Longrightarrow> len (put k v m) = len m"
  by (simp add: len_dom wf_put get_put domIff insert_absorb)

lemma len_put_fresh: "wf m \<Longrightarrow> get m k = None \<Longrightarrow> len (put k v m) = Suc (len m)"
  by (simp add: len_dom wf_put get_put domIff finite_dom)

lemma len_put_bound:
  \<comment> \<open>admission control: a store that refuses new keys when full never outgrows its bound\<close>
  assumes "wf m" and "len m \<le> cap" and "get m k \<noteq> None \<or> len m < cap"
  shows "len (put k v m) \<le> cap"
  using assms by (cases "get m k") (simp_all add: len_put_known len_put_fresh)

lemma put_other: "k \<noteq> k' \<Longrightarrow> get (put k v m) k' = get m k'"
  by (simp add: get_put)

lemma del_put_fresh: "get m k = None \<Longrightarrow> get (del k (put k v m)) = get m"
  by (auto simp: get_put get_del fun_eq_iff)

end

lemma hm_dom: "dom (hm_get m) = set (map fst m)"
  by (simp add: hm_get_def [abs_def] dom_map_of_conv_image_fst)

interpretation hm: key_store "[]" hm_get hm_insert hm_remove length hm_wf
proof unfold_locales
  show "hm_wf m \<Longrightarrow> length m = card (dom (hm_get m))" for m :: "('a, 'b) hash_map"
    unfolding hm_dom hm_wf_def by (metis distinct_card length_map)
  show "finite (dom (hm_get m))" for m :: "('a, 'b) hash_map"
    by (simp add: hm_dom)
qed (auto simp: hm_wf_def hm_get_def hm_insert_def hm_remove_def fun_eq_iff update_conv'
    delete_conv' distinct_update distinct_delete)

lemma hm_retain_wf [inv_intros]: "hm_wf m \<Longrightarrow> hm_wf (hm_retain p m)"
  by (simp add: hm_wf_def hm_retain_def distinct_map_filter)

lemma hm_retain_len: "length (hm_retain p m) \<le> length m"
  by (simp add: hm_retain_def)

lemma hm_get_retain:
  "hm_wf m \<Longrightarrow> hm_get (hm_retain p m) k =
     (case hm_get m k of None \<Rightarrow> None | Some v \<Rightarrow> if p k v then Some v else None)"
proof (induction m)
  case (Cons x m)
  have "k = fst x \<Longrightarrow> map_of (filter (\<lambda>(k, v). p k v) m) k = None"
    using Cons.prems by (auto simp: hm_wf_def map_of_eq_None_iff)
  with Cons show ?case
    by (cases x) (auto simp: hm_wf_def hm_get_def hm_retain_def split: option.splits)
qed (simp add: hm_get_def hm_retain_def)

lemma hm_get_mem: "hm_wf m \<Longrightarrow> hm_get m k = Some v \<longleftrightarrow> (k, v) \<in> set m"
  by (simp add: hm_wf_def hm_get_def)

lemma hm_get_SomeD: "hm_get m k = Some v \<Longrightarrow> (k, v) \<in> set m"
  by (simp add: hm_get_def map_of_SomeD)

lemma hm_get_map_values:
  "hm_get (map (\<lambda>(k, v). (k, f k v)) m) k = map_option (f k) (hm_get m k)"
  by (induction m) (auto simp: hm_get_def)

lemma hm_wf_map_values: "hm_wf (map (\<lambda>(k, v). (k, f k v)) m) = hm_wf m"
  by (simp add: hm_wf_def comp_def case_prod_beta)

lemma hm_contains_iff: "hm_contains m k \<longleftrightarrow> k \<in> fst ` set m"
  by (simp add: hm_contains_def hm_get_def map_of_eq_None_iff)

end
