(* ===== verification/Float64.thy ===== *)
theory Float64
  imports Prelude "HOL-Library.Log_Nat"
begin

text \<open>
  IEEE-754 binary64 arithmetic as Rust's \<^verbatim>\<open>f64\<close> performs it: an operation on finite values
  is the exact rational result rounded to the nearest representable number, ties to even,
  overflowing to an infinity.  The sign of zero is not kept (no modelled comparison or
  operation can see it).
\<close>

subsection \<open>Rounding\<close>

definition ilog2 :: "rat \<Rightarrow> int" where
  \<comment> \<open>the exponent of a positive number\<close>
  "ilog2 x = (let (p, q) = quotient_of x; d = bitlen p - bitlen q in
     if 2 powi d \<le> x then d else d - 1)"

definition round_even :: "rat \<Rightarrow> int" where
  "round_even x = (let f = \<lfloor>x\<rfloor>; r = x - of_int f in
     if r < 1 / 2 then f else if 1 / 2 < r then f + 1 else if even f then f else f + 1)"

definition ulp_exp :: "rat \<Rightarrow> int" where
  "ulp_exp x = max (ilog2 x - 52) (- 1074)"

definition round_pos :: "rat \<Rightarrow> rat" where
  "round_pos x = (if x \<le> 0 then 0
     else of_int (round_even (x / 2 powi ulp_exp x)) * 2 powi ulp_exp x)"

datatype f64 = Fin rat | PInf | NInf | NaN

definition f64_of_rat :: "rat \<Rightarrow> f64" where
  "f64_of_rat x =
     (let r = (if x < 0 then - round_pos (- x) else round_pos x) in
      if 2 ^ 1024 \<le> r then PInf else if r \<le> - (2 ^ 1024) then NInf else Fin r)"

subsection \<open>Operations\<close>

fun f_neg :: "f64 \<Rightarrow> f64" where
  "f_neg (Fin a) = Fin (- a)"
| "f_neg PInf = NInf"
| "f_neg NInf = PInf"
| "f_neg NaN = NaN"

fun f_add :: "f64 \<Rightarrow> f64 \<Rightarrow> f64" where
  "f_add (Fin a) (Fin b) = f64_of_rat (a + b)"
| "f_add NaN _ = NaN"
| "f_add _ NaN = NaN"
| "f_add PInf NInf = NaN"
| "f_add NInf PInf = NaN"
| "f_add PInf _ = PInf"
| "f_add _ PInf = PInf"
| "f_add NInf _ = NInf"
| "f_add _ NInf = NInf"

definition f_sub :: "f64 \<Rightarrow> f64 \<Rightarrow> f64" where
  "f_sub a b = f_add a (f_neg b)"

definition f_signed_inf :: "bool \<Rightarrow> f64" where
  "f_signed_inf neg = (if neg then NInf else PInf)"

fun f_mul :: "f64 \<Rightarrow> f64 \<Rightarrow> f64" where
  "f_mul (Fin a) (Fin b) = f64_of_rat (a * b)"
| "f_mul NaN _ = NaN"
| "f_mul _ NaN = NaN"
| "f_mul (Fin a) i = (if a = 0 then NaN else f_signed_inf ((a < 0) \<noteq> (i = NInf)))"
| "f_mul i (Fin a) = (if a = 0 then NaN else f_signed_inf ((a < 0) \<noteq> (i = NInf)))"
| "f_mul i j = f_signed_inf ((i = NInf) \<noteq> (j = NInf))"

fun f_div :: "f64 \<Rightarrow> f64 \<Rightarrow> f64" where
  "f_div (Fin a) (Fin b) =
     (if b = 0 then (if a = 0 then NaN else f_signed_inf (a < 0)) else f64_of_rat (a / b))"
| "f_div NaN _ = NaN"
| "f_div _ NaN = NaN"
| "f_div (Fin a) _ = Fin 0"
| "f_div i (Fin a) = f_signed_inf ((a < 0) \<noteq> (i = NInf))"
| "f_div _ _ = NaN"

fun f_lt :: "f64 \<Rightarrow> f64 \<Rightarrow> bool" where
  "f_lt (Fin a) (Fin b) = (a < b)"
| "f_lt NaN _ = False"
| "f_lt _ NaN = False"
| "f_lt PInf _ = False"
| "f_lt _ PInf = True"
| "f_lt _ NInf = False"
| "f_lt NInf _ = True"

fun f_le :: "f64 \<Rightarrow> f64 \<Rightarrow> bool" where
  "f_le NaN _ = False"
| "f_le _ NaN = False"
| "f_le a b = (f_lt a b \<or> a = b)"

definition f_min :: "f64 \<Rightarrow> f64 \<Rightarrow> f64" where
  "f_min a b = (if a = NaN then b else if b = NaN then a else if f_lt b a then b else a)"

text \<open>
  \<^verbatim>\<open>f64::powi\<close>: square and multiply, as the compiler's runtime routine computes it
  (Rust leaves the precision of \<^verbatim>\<open>powi\<close> open; every product below is rounded).
\<close>

fun powi_loop :: "f64 \<Rightarrow> f64 \<Rightarrow> nat \<Rightarrow> f64" where
  "powi_loop r a b =
     (let r' = (if odd b then f_mul r a else r) in
      if b div 2 = 0 then r' else powi_loop r' (f_mul a a) (b div 2))"

declare powi_loop.simps [simp del]

definition f_powi :: "f64 \<Rightarrow> int \<Rightarrow> f64" where
  "f_powi a n = (let r = powi_loop (Fin 1) a (nat \<bar>n\<bar>) in if n < 0 then f_div (Fin 1) r else r)"

subsection \<open>Facts about rounding\<close>

lemma ilog2_bounds:
  assumes "0 < x"
  shows "2 powi ilog2 x \<le> x" "x < 2 powi (ilog2 x + 1)"
proof -
  obtain p q where pq: "quotient_of x = (p, q)" by (cases "quotient_of x")
  then have q: "0 < q" and x: "x = of_int p / of_int q"
    by (auto simp: quotient_of_denom_pos quotient_of_div)
  with assms have p: "0 < p" by (simp add: zero_less_divide_iff)
  define a where "a = nat (bitlen p - 1)"
  define b where "b = nat (bitlen q - 1)"
  have bl: "1 \<le> bitlen p" "1 \<le> bitlen q"
    using p q bitlen_eq_zero_iff [of p] bitlen_eq_zero_iff [of q] bitlen_nonneg [of p]
      bitlen_nonneg [of q] by linarith+
  have d: "bitlen p - bitlen q = int a - int b"
    using bl by (simp add: a_def b_def)
  have pb: "2 ^ a \<le> p" "p < 2 ^ Suc a"
    using bitlen_bounds [OF p] bl(1) by (auto simp: a_def nat_add_distrib [symmetric] Suc_nat_eq_nat_zadd1)
  have qb: "2 ^ b \<le> q" "q < 2 ^ Suc b"
    using bitlen_bounds [OF q] bl(2) by (auto simp: b_def nat_add_distrib [symmetric] Suc_nat_eq_nat_zadd1)
  have pr: "2 ^ a \<le> (of_int p :: rat)" "of_int p < (2 :: rat) ^ Suc a"
    using pb by (metis of_int_le_iff of_int_less_iff of_int_numeral of_int_power)+
  have qr: "2 ^ b \<le> (of_int q :: rat)" "of_int q < (2 :: rat) ^ Suc b"
    using qb by (metis of_int_le_iff of_int_less_iff of_int_numeral of_int_power)+
  have e: "(2 :: rat) powi (int a - int b) = 2 ^ a / 2 ^ b"
    by (simp add: power_int_diff)
  have up: "x < 2 powi (int a - int b + 1)"
  proof -
    have "x \<le> of_int p / 2 ^ b" using x qr(1) pr(1) q p by (simp add: frac_le)
    also have "\<dots> < 2 ^ Suc a / 2 ^ b" using pr(2) by (simp add: divide_strict_right_mono)
    finally show ?thesis using e by (simp add: power_int_add mult.commute)
  qed
  have low: "2 powi (int a - int b - 1) < x"
  proof -
    have "(2 :: rat) ^ a / 2 ^ Suc b < 2 ^ a / of_int q"
      using qr(2) q by (intro divide_strict_left_mono) simp_all
    also have "\<dots> \<le> x" using x pr(1) q by (simp add: divide_right_mono)
    finally show ?thesis using e by (simp add: power_int_diff)
  qed
  show "2 powi ilog2 x \<le> x" "x < 2 powi (ilog2 x + 1)"
    using up low by (auto simp: ilog2_def pq d Let_def)
qed

lemma ilog2_mono: "0 < x \<Longrightarrow> x \<le> y \<Longrightarrow> ilog2 x \<le> ilog2 y"
proof (rule ccontr)
  assume x: "0 < x" "x \<le> y" and "\<not> ilog2 x \<le> ilog2 y"
  then have "(2 :: rat) powi (ilog2 y + 1) \<le> 2 powi ilog2 x"
    by (intro power_int_increasing) simp_all
  with x ilog2_bounds [of x] ilog2_bounds [of y] show False by linarith
qed

lemma round_even_int [simp]: "round_even (of_int n) = n"
  by (simp add: round_even_def)

lemma round_even_mono: "x \<le> y \<Longrightarrow> round_even x \<le> round_even y"
proof -
  assume xy: "x \<le> y"
  then have f: "\<lfloor>x\<rfloor> \<le> \<lfloor>y\<rfloor>" by (rule floor_mono)
  have ub: "round_even x \<le> \<lfloor>x\<rfloor> + 1" by (simp add: round_even_def Let_def)
  have lb: "\<lfloor>y\<rfloor> \<le> round_even y" by (simp add: round_even_def Let_def)
  show ?thesis
  proof (cases "\<lfloor>x\<rfloor> = \<lfloor>y\<rfloor>")
    case True
    with xy show ?thesis by (auto simp: round_even_def Let_def)
  next
    case False
    with f ub lb show ?thesis by linarith
  qed
qed

lemma round_even_nonneg: "0 \<le> x \<Longrightarrow> 0 \<le> round_even x"
  using round_even_mono [of 0 x] round_even_int [of 0] by simp

text \<open>A multiple of the unit in the last place is a bound that rounding does not cross.\<close>

lemma round_pos_le_grid:
  assumes "0 < x" and "x \<le> of_int k * 2 powi ulp_exp x"
  shows "round_pos x \<le> of_int k * 2 powi ulp_exp x"
proof -
  have "x / 2 powi ulp_exp x \<le> of_int k" using assms(2) by (simp add: divide_le_eq)
  then have "round_even (x / 2 powi ulp_exp x) \<le> k" by (metis round_even_mono round_even_int)
  then show ?thesis using assms(1) by (simp add: round_pos_def)
qed

lemma round_pos_ge_grid:
  assumes "0 < x" and "of_int k * 2 powi ulp_exp x \<le> x"
  shows "of_int k * 2 powi ulp_exp x \<le> round_pos x"
proof -
  have "of_int k \<le> x / 2 powi ulp_exp x" using assms(2) by (simp add: le_divide_eq)
  then have "k \<le> round_even (x / 2 powi ulp_exp x)" by (metis round_even_mono round_even_int)
  then show ?thesis using assms(1) by (simp add: round_pos_def)
qed

lemma powi_two_int: "0 \<le> k \<Longrightarrow> (2 :: rat) powi k = of_int (2 ^ nat k)"
  by (simp add: power_int_def)

lemma powi_neg: "(2 :: rat) powi (- int n) = 1 / 2 ^ n"
  by (simp add: power_int_minus divide_inverse)

lemma round_pos_mono:
  assumes "x \<le> y"
  shows "round_pos x \<le> round_pos y"
proof (cases "0 < x")
  case False
  then show ?thesis
    by (auto simp: round_pos_def intro!: mult_nonneg_nonneg round_even_nonneg)
next
  case x: True
  with assms have y: "0 < y" by simp
  have ee: "ulp_exp x \<le> ulp_exp y"
    using ilog2_mono [OF x assms] by (simp add: ulp_exp_def)
  show ?thesis
  proof (cases "ulp_exp x = ulp_exp y")
    case True
    have "x / 2 powi ulp_exp x \<le> y / 2 powi ulp_exp x"
      using assms by (simp add: divide_right_mono)
    then show ?thesis
      using x y True by (simp add: round_pos_def round_even_mono)
  next
    case False
    define L where "L = ilog2 y"
    have uy: "ulp_exp y = L - 52" and lx: "ilog2 x + 1 \<le> L" and ux: "ulp_exp x \<le> L"
      using False ee by (auto simp: ulp_exp_def L_def max_def split: if_splits)
    have "(2 :: rat) powi L = 2 powi (L - ulp_exp x) * 2 powi ulp_exp x"
      by (simp add: power_int_diff)
    also have "\<dots> = of_int (2 ^ nat (L - ulp_exp x)) * 2 powi ulp_exp x"
      using ux by (simp add: powi_two_int)
    finally have gx: "(2 :: rat) powi L = of_int (2 ^ nat (L - ulp_exp x)) * 2 powi ulp_exp x" .
    have "x < 2 powi (ilog2 x + 1)" by (rule ilog2_bounds [OF x])
    also have "(2 :: rat) powi (ilog2 x + 1) \<le> 2 powi L"
      using lx by (intro power_int_increasing) simp_all
    finally have "round_pos x \<le> 2 powi L"
      using gx round_pos_le_grid [OF x, of "2 ^ nat (L - ulp_exp x)"] by simp
    moreover have gy: "(2 :: rat) powi L = of_int (2 ^ 52) * 2 powi ulp_exp y"
      using uy by (simp add: power_int_diff)
    have "2 powi L \<le> round_pos y"
      using gy round_pos_ge_grid [OF y, of "2 ^ 52"] ilog2_bounds(1) [OF y] by (simp add: L_def)
    ultimately show ?thesis by simp
  qed
qed

lemma round_pos_scaled:
  assumes "n < 2 ^ 53"
  shows "round_pos (of_nat n * 2 ^ j) = of_nat n * 2 ^ j"
proof (cases "n = 0")
  case False
  let ?x = "of_nat n * 2 ^ j :: rat"
  have x: "0 < ?x" using False by simp
  have "(2 :: rat) powi ilog2 ?x < 2 powi (53 + int j)"
  proof -
    have "2 powi ilog2 ?x \<le> ?x" by (rule ilog2_bounds [OF x])
    also have "?x < of_nat (2 ^ 53) * 2 ^ j"
      using assms by (intro mult_strict_right_mono) (simp_all only: of_nat_less_iff, simp)
    also have "of_nat (2 ^ 53) * 2 ^ j = (2 :: rat) powi (53 + int j)"
      by (simp add: power_int_add)
    finally show ?thesis .
  qed
  then have "ilog2 ?x < 53 + int j"
    using power_int_increasing [of "53 + int j" "ilog2 ?x" "2 :: rat"] by fastforce
  then have u: "ulp_exp ?x \<le> int j" by (simp add: ulp_exp_def)
  define k where "k = int n * 2 ^ nat (int j - ulp_exp ?x)"
  have "(2 :: rat) ^ j / 2 powi ulp_exp ?x = 2 powi (int j - ulp_exp ?x)"
    by (simp add: power_int_diff)
  moreover have "?x / 2 powi ulp_exp ?x = of_nat n * (2 ^ j / 2 powi ulp_exp ?x)" by simp
  ultimately have "?x / 2 powi ulp_exp ?x = of_int k"
    using u by (simp only: powi_two_int k_def) simp
  moreover from this have "?x = of_int k * 2 powi ulp_exp ?x" by (simp add: field_simps)
  ultimately show ?thesis using x by (simp add: round_pos_def)
qed (simp add: round_pos_def)

lemma round_pos_nat: "n < 2 ^ 53 \<Longrightarrow> round_pos (of_nat n) = of_nat n"
  using round_pos_scaled [of n 0] by simp

subsection \<open>The laws of rounding as an interface\<close>

text \<open>
  What the token buckets and the ban backoff need from floating point: rounding is monotone
  and exact on the natural numbers below \<^verbatim>\<open>2^53\<close>.
\<close>

locale rounding =
  fixes rnd :: "rat \<Rightarrow> rat"
  assumes rnd_mono: "x \<le> y \<Longrightarrow> rnd x \<le> rnd y"
    and rnd_nat: "n < 2 ^ 53 \<Longrightarrow> rnd (of_nat n) = of_nat n"
begin

lemma rnd_le_nat: "x \<le> of_nat n \<Longrightarrow> n < 2 ^ 53 \<Longrightarrow> rnd x \<le> of_nat n"
  by (metis rnd_mono rnd_nat)

lemma rnd_ge_nat: "of_nat n \<le> x \<Longrightarrow> n < 2 ^ 53 \<Longrightarrow> of_nat n \<le> rnd x"
  by (metis rnd_mono rnd_nat)

lemma rnd_nonneg: "0 \<le> x \<Longrightarrow> 0 \<le> rnd x"
  using rnd_ge_nat [of 0 x] by simp

end

interpretation f64_rounding: rounding round_pos
  by unfold_locales (simp_all add: round_pos_mono round_pos_nat)

lemma f64_of_rat_nonneg:
  "0 \<le> x \<Longrightarrow> f64_of_rat x = (if 2 ^ 1024 \<le> round_pos x then PInf else Fin (round_pos x))"
proof -
  assume "0 \<le> x"
  then have "0 \<le> round_pos x" by (rule f64_rounding.rnd_nonneg)
  moreover have "(- (2 ^ 1024) :: rat) < 0" by simp
  ultimately have "\<not> round_pos x \<le> - (2 ^ 1024)" by linarith
  with \<open>0 \<le> x\<close> show ?thesis by (auto simp: f64_of_rat_def Let_def)
qed

lemma f64_of_rat_small:
  assumes "0 \<le> x" and "x \<le> of_nat n" and "n < 2 ^ 53"
  shows "f64_of_rat x = Fin (round_pos x)"
proof -
  have "round_pos x \<le> of_nat n" using assms(2,3) by (rule f64_rounding.rnd_le_nat)
  also have "(of_nat n :: rat) < of_nat (2 ^ 53)" using assms(3) by (simp only: of_nat_less_iff)
  also have "(of_nat (2 ^ 53) :: rat) < of_nat (2 ^ 1024)" by (simp only: of_nat_less_iff) simp
  finally have "\<not> 2 ^ 1024 \<le> round_pos x" by (simp only: of_nat_power of_nat_numeral not_le)
  with assms(1) show ?thesis by (simp add: f64_of_rat_nonneg)
qed

lemma f64_of_rat_ge:
  assumes "of_nat n \<le> x" and "n < 2 ^ 53"
  shows "f64_of_rat x = PInf \<or> (\<exists>q \<ge> of_nat n. f64_of_rat x = Fin q)"
proof -
  have "0 \<le> x" using assms(1) of_nat_0_le_iff order_trans by blast
  then show ?thesis
    using f64_rounding.rnd_ge_nat [OF assms] by (simp add: f64_of_rat_nonneg)
qed

lemma f64_of_nat: "n < 2 ^ 53 \<Longrightarrow> f64_of_rat (of_nat n) = Fin (of_nat n)"
  by (simp add: f64_of_rat_small [of _ n] round_pos_nat)

text \<open>Scaling by a power of two is exact as long as the result is in range.\<close>

lemma f64_of_scaled:
  assumes "n < 2 ^ 53" and "n * 2 ^ j < 2 ^ 1024"
  shows "f64_of_rat (of_nat n * 2 ^ j) = Fin (of_nat n * 2 ^ j)"
proof -
  have "(of_nat (n * 2 ^ j) :: rat) < of_nat (2 ^ 1024)" using assms(2) by (simp only: of_nat_less_iff)
  then have "\<not> 2 ^ 1024 \<le> (of_nat n * 2 ^ j :: rat)"
    by (simp only: of_nat_mult of_nat_power of_nat_numeral not_le)
  then show ?thesis using round_pos_scaled [OF assms(1)] by (simp add: f64_of_rat_nonneg)
qed

lemma powi_loop_two:
  assumes "i + j * b < 1024"
  shows "powi_loop (Fin (2 ^ i)) (Fin (2 ^ j)) b = Fin (2 ^ (i + j * b))"
  using assms
proof (induction b arbitrary: i j rule: less_induct)
  case (less b)
  have mult: "f_mul (Fin (2 ^ a)) (Fin (2 ^ c)) = Fin (2 ^ (a + c))" if "a + c < 1024" for a c
    using f64_of_scaled [of 1 "a + c"] that power_strict_increasing [of "a + c" 1024 "2 :: nat"]
    by (simp add: power_add)
  define r where "r = i + (if odd b then j else 0)"
  have "(if odd b then j else 0) \<le> j * b" by (cases b) simp_all
  then have step: "(if odd b then f_mul (Fin (2 ^ i)) (Fin (2 ^ j)) else Fin (2 ^ i)) = Fin (2 ^ r)"
    using mult [of i j] less.prems by (auto simp: r_def split: if_splits)
  have eq: "r + (j + j) * (b div 2) = i + j * b"
  proof -
    have "j * b = j * (2 * (b div 2) + b mod 2)" by simp
    also have "\<dots> = (j + j) * (b div 2) + j * (b mod 2)" by (simp only: algebra_simps)
    finally show ?thesis by (simp add: r_def odd_iff_mod_2_eq_one even_iff_mod_2_eq_zero)
  qed
  show ?case
  proof (cases "b div 2 = 0")
    case True
    with eq step show ?thesis by (subst powi_loop.simps) simp
  next
    case False
    then have "b div 2 < b" "j + j \<le> (j + j) * (b div 2)" by simp_all
    moreover from this have "j + j < 1024" using eq less.prems by linarith
    ultimately show ?thesis
      using less.IH [of "b div 2" r "j + j"] less.prems eq step mult [of j j] False
      by (subst powi_loop.simps) simp
  qed
qed

lemma f_powi_two: "n < 1024 \<Longrightarrow> f_powi (Fin 2) (int n) = Fin (2 ^ n)"
  using powi_loop_two [of 0 1 n] by (simp add: f_powi_def)

end
