(* ===== verification/Ip_Addr.thy ===== *)
theory Ip_Addr
  imports Rust_Text "HOL-Library.Word"
begin

text \<open>
  \<^verbatim>\<open>std::net::IpAddr\<close>: the two address families, the parser of \<^verbatim>\<open>core::net\<close> (numbers with
  a digit limit, no leading zeros in IPv4, an embedded IPv4 tail and one \<^verbatim>\<open>::\<close> in IPv6) and
  \<^verbatim>\<open>Display\<close> (IPv4-mapped form, longest run of zero groups compressed).  The gateway keys
  its abuse state by printed addresses, so the round trip matters.
\<close>

datatype ip_addr = V4 "8 word list" | V6 "16 word list"

definition ip_wf :: "ip_addr \<Rightarrow> bool" where
  \<comment> \<open>four octets, eight groups: the arrays of the Rust types\<close>
  "ip_wf ip = (case ip of V4 os \<Rightarrow> length os = 4 | V6 gs \<Rightarrow> length gs = 8)"

lemma unat_octet: "unat (w :: 8 word) < 256"
  using unsigned_less [of w] by simp

lemma unat_group: "unat (w :: 16 word) < 65536"
  using unsigned_less [of w] by simp

subsection \<open>Numbers\<close>

definition radix_digit :: "nat \<Rightarrow> char \<Rightarrow> nat option" where
  \<comment> \<open>\<^verbatim>\<open>char::to_digit\<close>\<close>
  "radix_digit r c =
     (let b = byte_val c;
          d = (if 48 \<le> b \<and> b \<le> 57 then b - 48 else if 97 \<le> b \<and> b \<le> 122 then b - 87
               else if 65 \<le> b \<and> b \<le> 90 then b - 55 else r)
      in if d < r then Some d else None)"

definition radix_char :: "nat \<Rightarrow> char" where
  "radix_char d = byte_of (if d < 10 then 48 + d else 87 + d)"

definition digits_value :: "nat \<Rightarrow> string \<Rightarrow> nat" where
  "digits_value r s = foldl (\<lambda>acc c. acc * r + unwrap_or 0 (radix_digit r c)) 0 s"

type_synonym 'a parser = "string \<Rightarrow> ('a \<times> string) option"

definition read_number :: "nat \<Rightarrow> nat \<Rightarrow> bool \<Rightarrow> nat \<Rightarrow> nat parser" where
  "read_number r max_digits allow_zero_prefix limit s =
     (let ds = takeWhile (\<lambda>c. radix_digit r c \<noteq> None) s;
          rest = dropWhile (\<lambda>c. radix_digit r c \<noteq> None) s;
          leading_zero = (s \<noteq> [] \<and> hd s = CHR ''0'')
      in if max_digits < length ds then None
         else if ds = [] then None
         else if \<not> allow_zero_prefix \<and> leading_zero \<and> 1 < length ds then None
         else if limit \<le> digits_value r ds then None
         else Some (digits_value r ds, rest))"

definition read_separator :: "char \<Rightarrow> bool \<Rightarrow> 'a parser \<Rightarrow> 'a parser" where
  \<comment> \<open>no separator before the first element\<close>
  "read_separator sep first p s =
     (if first then p s else (case s of [] \<Rightarrow> None | c # t \<Rightarrow> if c = sep then p t else None))"

subsection \<open>Addresses\<close>

fun read_octets :: "nat \<Rightarrow> bool \<Rightarrow> nat list parser" where
  "read_octets 0 first s = Some ([], s)"
| "read_octets (Suc n) first s =
     (case read_separator CHR ''.'' first (read_number 10 3 False 256) s of
        None \<Rightarrow> None
      | Some (x, t) \<Rightarrow> map_option (\<lambda>(xs, u). (x # xs, u)) (read_octets n False t))"

lemmas read_octets_numeral [simp] =
  read_octets.simps(2) [of "pred_numeral k" for k, folded numeral_eq_Suc]

definition read_ipv4 :: "nat list parser" where
  "read_ipv4 s = read_octets 4 True s"

fun read_groups :: "nat \<Rightarrow> bool \<Rightarrow> string \<Rightarrow> nat list \<times> bool \<times> string" where
  \<comment> \<open>up to \<^verbatim>\<open>n\<close> groups; the flag says that an IPv4 address ended them\<close>
  "read_groups 0 first s = ([], False, s)"
| "read_groups (Suc n) first s =
     (case (if 1 \<le> n then read_separator CHR '':'' first read_ipv4 s else None) of
        Some ([a, b, c, d], t) \<Rightarrow> ([a * 256 + b, c * 256 + d], True, t)
      | _ \<Rightarrow>
        (case read_separator CHR '':'' first (read_number 16 4 True 65536) s of
           None \<Rightarrow> ([], False, s)
         | Some (g, t) \<Rightarrow> (let (gs, v4, u) = read_groups n False t in (g # gs, v4, u))))"

lemmas read_groups_numeral =
  read_groups.simps(2) [of "pred_numeral k" for k, folded numeral_eq_Suc]

definition read_ipv6 :: "nat list parser" where
  "read_ipv6 s =
     (let (hs, head_v4, t) = read_groups 8 True s in
      if length hs = 8 then Some (hs, t)
      else if head_v4 then None
      else (case t of
              c # d # u \<Rightarrow>
                if c = CHR '':'' \<and> d = CHR '':'' then
                  (let (ts, _, rest) = read_groups (8 - (length hs + 1)) True u in
                   Some (hs @ replicate (8 - length hs - length ts) 0 @ ts, rest))
                else None
            | _ \<Rightarrow> None))"

definition parse_ip :: "string \<Rightarrow> ip_addr option" where
  "parse_ip s =
     (case (case read_ipv4 s of
              Some (os, t) \<Rightarrow> Some (V4 (map word_of_nat os), t)
            | None \<Rightarrow> map_option (\<lambda>(gs, t). (V6 (map word_of_nat gs), t)) (read_ipv6 s)) of
        None \<Rightarrow> None
      | Some (ip, t) \<Rightarrow> if t = [] then Some ip else None)"

subsection \<open>Display\<close>

fun show_radix :: "nat \<Rightarrow> nat \<Rightarrow> string" where
  "show_radix r n =
     (if n < r \<or> r < 2 then [radix_char n] else show_radix r (n div r) @ [radix_char (n mod r)])"

declare show_radix.simps [simp del]

definition show_octets :: "nat list \<Rightarrow> string" where
  "show_octets os = join_with ''.'' (map (show_radix 10) os)"

definition show_groups :: "nat list \<Rightarrow> string" where
  "show_groups gs = join_with '':'' (map (show_radix 16) gs)"

fun longest_zeros :: "nat \<Rightarrow> nat \<times> nat \<Rightarrow> nat \<times> nat \<Rightarrow> nat list \<Rightarrow> nat \<times> nat" where
  \<comment> \<open>position, the run being read, the best run so far, each a start and a length\<close>
  "longest_zeros i cur best [] = best"
| "longest_zeros i (cs, cl) (bs, bl) (g # gs) =
     (if g = 0 then
        (let cs' = (if cl = 0 then i else cs); cl' = Suc cl;
             best' = (if bl < cl' then (cs', cl') else (bs, bl))
         in longest_zeros (Suc i) (cs', cl') best' gs)
      else longest_zeros (Suc i) (0, 0) (bs, bl) gs)"

definition display_groups :: "nat list \<Rightarrow> string" where
  "display_groups gs =
     (if take 6 gs = [0, 0, 0, 0, 0, 65535] then
        ''::ffff:'' @ show_octets
          [gs ! 6 div 256, gs ! 6 mod 256, gs ! 7 div 256, gs ! 7 mod 256]
      else
        (let (start, len) = longest_zeros 0 (0, 0) (0, 0) gs in
         if 1 < len then show_groups (take start gs) @ ''::'' @ show_groups (drop (start + len) gs)
         else show_groups gs))"

fun display_ip :: "ip_addr \<Rightarrow> string" where
  "display_ip (V4 os) = show_octets (map unat os)"
| "display_ip (V6 gs) = display_groups (map unat gs)"

subsection \<open>Printed numbers read back\<close>

lemma radix_digit_char: "d < r \<Longrightarrow> r \<le> 16 \<Longrightarrow> radix_digit r (radix_char d) = Some d"
  by (auto simp: radix_digit_def radix_char_def Let_def)

lemma show_radix_digits:
  "1 < r \<Longrightarrow> r \<le> 16 \<Longrightarrow> c \<in> set (show_radix r n) \<Longrightarrow> radix_digit r c \<noteq> None"
proof (induction r n rule: show_radix.induct)
  case (1 r n)
  show ?case
  proof (cases "n < r \<or> c \<notin> set (show_radix r (n div r))")
    case True
    with "1.prems" show ?thesis
      by (subst (asm) show_radix.simps) (auto simp: radix_digit_char split: if_splits)
  next
    case False
    with "1.IH" "1.prems"(1,2) show ?thesis by simp
  qed
qed

lemma show_radix_nonempty [simp]: "show_radix r n \<noteq> []"
  by (subst show_radix.simps) simp

lemma digits_value_snoc:
  "digits_value r (s @ [c]) = digits_value r s * r + unwrap_or 0 (radix_digit r c)"
  by (simp add: digits_value_def)

lemma digits_value_show: "1 < r \<Longrightarrow> r \<le> 16 \<Longrightarrow> digits_value r (show_radix r n) = n"
proof (induction r n rule: show_radix.induct)
  case (1 r n)
  show ?case
  proof (cases "n < r")
    case True
    with "1.prems" show ?thesis
      by (subst show_radix.simps) (simp add: digits_value_def radix_digit_char)
  next
    case False
    with 1 show ?thesis
      by (subst show_radix.simps) (simp add: digits_value_snoc radix_digit_char)
  qed
qed

lemma show_radix_length: "1 < r \<Longrightarrow> 0 < k \<Longrightarrow> n < r ^ k \<Longrightarrow> length (show_radix r n) \<le> k"
proof (induction r n arbitrary: k rule: show_radix.induct)
  case (1 r n)
  show ?case
  proof (cases "n < r")
    case True
    with "1.prems" show ?thesis by (subst show_radix.simps) simp
  next
    case False
    with "1.prems" obtain j where j: "k = Suc j" "0 < j"
      by (cases k; cases "k - 1") auto
    with "1.prems" False have "n div r < r ^ j"
      by (simp add: div_less_iff_less_mult mult.commute)
    with "1.IH" [of j] False "1.prems" j show ?thesis
      by (subst show_radix.simps) simp
  qed
qed

lemma show_radix_hd_zero:
  "1 < r \<Longrightarrow> r \<le> 16 \<Longrightarrow> hd (show_radix r n) = CHR ''0'' \<Longrightarrow> n = 0"
proof (induction r n rule: show_radix.induct)
  case (1 r n)
  have digit: "radix_char d = CHR ''0'' \<Longrightarrow> d < 16 \<Longrightarrow> d = 0" for d
  proof -
    assume "radix_char d = CHR ''0''" "d < 16"
    then have "byte_val (radix_char d) = 48" by (simp add: byte_val_def)
    with \<open>d < 16\<close> show "d = 0" by (auto simp: radix_char_def split: if_splits)
  qed
  show ?case
  proof (cases "n < r")
    case True
    with "1.prems" digit [of n] show ?thesis by (subst (asm) show_radix.simps) simp
  next
    case False
    with "1.prems" have "hd (show_radix r (n div r)) = CHR ''0''"
      by (subst (asm) show_radix.simps) simp
    with "1.IH" False "1.prems" have "n div r = 0" by simp
    with False "1.prems" show ?thesis by (simp add: div_eq_0_iff)
  qed
qed

lemma read_number_show:
  assumes r: "1 < r" "r \<le> 16" and n: "n < limit" "n < r ^ k" "0 < k"
    and rest: "rest = [] \<or> radix_digit r (hd rest) = None"
  shows "read_number r k z limit (show_radix r n @ rest) = Some (n, rest)"
proof -
  let ?d = "\<lambda>c. radix_digit r c \<noteq> None"
  have all: "\<forall>c\<in>set (show_radix r n). ?d c" using show_radix_digits [OF r] by blast
  have "takeWhile ?d (show_radix r n @ rest) = show_radix r n"
    using all rest by (cases rest) (auto simp: takeWhile_append2)
  moreover have "dropWhile ?d (show_radix r n @ rest) = rest"
    using all rest by (cases rest) (auto simp: dropWhile_append2)
  moreover have "hd (show_radix r n) = CHR ''0'' \<Longrightarrow> length (show_radix r n) = 1"
    using show_radix_hd_zero [OF r, of n] r by (auto simp: show_radix.simps [of r 0])
  ultimately show ?thesis
    using n show_radix_length [OF r(1) n(3,2)] digits_value_show [OF r, of n]
    by (auto simp: read_number_def Let_def)
qed

lemma radix_digit_colon [simp]: "radix_digit r CHR '':'' = None"
  by (simp add: radix_digit_def byte_val_def)

lemma radix_digit_dot [simp]: "radix_digit r CHR ''.'' = None"
  by (simp add: radix_digit_def byte_val_def)

subsection \<open>The IPv4 round trip\<close>

lemma read_octets_show:
  assumes "length os = n" and "\<forall>x\<in>set os. x < 256"
    and "rest = [] \<or> radix_digit 10 (hd rest) = None"
  shows "read_octets n False (concat (map (\<lambda>x. CHR ''.'' # show_radix 10 x) os) @ rest) = Some (os, rest)"
  using assms(1,2)
proof (induction os arbitrary: n)
  case (Cons x os)
  let ?tail = "concat (map (\<lambda>x. CHR ''.'' # show_radix 10 x) os) @ rest"
  have tail: "?tail = [] \<or> radix_digit 10 (hd ?tail) = None"
    using assms(3) by (cases os) auto
  have "read_number 10 3 False 256 (show_radix 10 x @ ?tail) = Some (x, ?tail)"
    using Cons.prems tail by (intro read_number_show) auto
  with Cons show ?case by (auto simp: read_separator_def)
qed simp

lemma join_with_Cons: "join_with sep (p # ps) = p @ concat (map (\<lambda>q. sep @ q) ps)"
  by (induction ps arbitrary: p) simp_all

lemma read_octets_four:
  "read_octets 4 first s =
     (case read_separator CHR ''.'' first (read_number 10 3 False 256) s of
        None \<Rightarrow> None
      | Some (x, t) \<Rightarrow> map_option (\<lambda>(xs, u). (x # xs, u)) (read_octets 3 False t))"
  by (simp split: option.split)

lemma read_ipv4_show:
  assumes "length os = 4" and "\<forall>x\<in>set os. x < 256"
    and "rest = [] \<or> radix_digit 10 (hd rest) = None"
  shows "read_ipv4 (show_octets os @ rest) = Some (os, rest)"
proof -
  obtain x xs where os: "os = x # xs" "length xs = 3"
    using assms(1) by (cases os) auto
  let ?tail = "concat (map (\<lambda>x. CHR ''.'' # show_radix 10 x) xs) @ rest"
  have shown: "show_octets os @ rest = show_radix 10 x @ ?tail"
    by (simp add: os show_octets_def join_with_Cons comp_def)
  have "?tail = [] \<or> radix_digit 10 (hd ?tail) = None"
    using os(2) by (cases xs) auto
  then have "read_number 10 3 False 256 (show_radix 10 x @ ?tail) = Some (x, ?tail)"
    using assms(2) os by (intro read_number_show) auto
  moreover have "read_octets 3 False ?tail = Some (xs, rest)"
    using assms os by (intro read_octets_show) auto
  ultimately show ?thesis
    unfolding read_ipv4_def shown by (simp del: read_octets_numeral add: read_octets_four read_separator_def os)
qed

subsection \<open>The IPv6 round trip\<close>

lemma read_number_drops: "read_number r k z lim s = Some (x, t) \<Longrightarrow> set t \<subseteq> set s"
  by (auto simp: read_number_def Let_def split: if_splits dest: set_dropWhileD)

lemma read_ipv4_no_dot:
  assumes "CHR ''.'' \<notin> set s"
  shows "read_ipv4 s = None"
proof (cases "read_number 10 3 False 256 s")
  case (Some xt)
  obtain x t where xt: "xt = (x, t)" by (cases xt)
  with Some assms read_number_drops have "CHR ''.'' \<notin> set t" by blast
  then have "read_octets 3 False t = None"
    by (auto simp: read_separator_def split: list.splits)
  with Some xt show ?thesis
    by (simp add: read_separator_def read_ipv4_def read_octets_four del: read_octets_numeral)
next
  case None
  then show ?thesis by (simp add: read_separator_def read_ipv4_def)
qed

lemma read_ipv4_colon: "read_ipv4 (CHR '':'' # s) = None"
  by (simp add: read_ipv4_def read_separator_def read_number_def)

lemma read_number_colon [simp]: "read_number r k z lim (CHR '':'' # s) = None"
  by (simp add: read_number_def)

lemma read_number_Nil [simp]: "read_number r k z lim [] = None"
  by (simp add: read_number_def)

definition group_text :: "nat list \<Rightarrow> string" where
  "group_text gs = concat (map (\<lambda>g. CHR '':'' # show_radix 16 g) gs)"

lemma group_text_simps [simp]:
  "group_text [] = []"
  "group_text (g # gs) = CHR '':'' # show_radix 16 g @ group_text gs"
  by (simp_all add: group_text_def)

lemma show_groups_Cons: "show_groups (g # gs) = show_radix 16 g @ group_text gs"
  by (simp add: show_groups_def join_with_Cons group_text_def comp_def)

lemma show_radix_no_mark:
  "1 < r \<Longrightarrow> r \<le> 16 \<Longrightarrow> CHR ''.'' \<notin> set (show_radix r n) \<and> CHR '':'' \<notin> set (show_radix r n)"
  using show_radix_digits [of r "CHR ''.''" n] show_radix_digits [of r "CHR '':''" n] by auto

lemma group_text_no_dot: "CHR ''.'' \<notin> set (group_text gs)"
  by (induction gs) (auto simp: show_radix_no_mark)

lemma show_groups_no_dot: "CHR ''.'' \<notin> set (show_groups gs)"
proof (cases gs)
  case Nil
  then show ?thesis by (simp add: show_groups_def)
next
  case (Cons g hs)
  then show ?thesis by (simp add: show_groups_Cons show_radix_no_mark group_text_no_dot)
qed

definition group_stop :: "string \<Rightarrow> bool" where
  "group_stop rest \<longleftrightarrow> rest = [] \<or> (\<exists>u. rest = CHR '':'' # CHR '':'' # u)"

lemma read_groups_stop:
  "group_stop rest \<Longrightarrow> CHR ''.'' \<notin> set rest \<Longrightarrow> read_groups n first rest = ([], False, rest)"
  by (cases n) (auto simp: group_stop_def read_separator_def read_ipv4_no_dot read_ipv4_colon)

lemma read_groups_text:
  assumes "length gs \<le> n" and "\<forall>g\<in>set gs. g < 65536"
    and "group_stop rest" and "CHR ''.'' \<notin> set rest"
  shows "read_groups n False (group_text gs @ rest) = (gs, False, rest)"
  using assms(1,2)
proof (induction gs arbitrary: n)
  case Nil
  then show ?case using read_groups_stop [OF assms(3,4)] by simp
next
  case (Cons g gs)
  then obtain m where n: "n = Suc m" by (cases n) auto
  let ?tail = "group_text gs @ rest"
  have "?tail = [] \<or> radix_digit 16 (hd ?tail) = None"
    using assms(3) by (cases gs) (auto simp: group_stop_def)
  then have num: "read_number 16 4 True 65536 (show_radix 16 g @ ?tail) = Some (g, ?tail)"
    using Cons.prems by (intro read_number_show) auto
  have "read_ipv4 (show_radix 16 g @ ?tail) = None"
    using assms(4) by (intro read_ipv4_no_dot) (simp add: show_radix_no_mark group_text_no_dot)
  with num Cons n show ?case by (simp add: read_separator_def)
qed

lemma read_groups_shown:
  assumes "length gs \<le> n" and "\<forall>g\<in>set gs. g < 65536"
    and "group_stop rest" and "CHR ''.'' \<notin> set rest"
  shows "read_groups n True (show_groups gs @ rest) = (gs, False, rest)"
proof (cases gs)
  case Nil
  then show ?thesis using read_groups_stop [OF assms(3,4)] by (simp add: show_groups_def)
next
  case (Cons g hs)
  with assms(1) obtain m where n: "n = Suc m" by (cases n) auto
  let ?tail = "group_text hs @ rest"
  have "?tail = [] \<or> radix_digit 16 (hd ?tail) = None"
    using assms(3) by (cases hs) (auto simp: group_stop_def)
  then have num: "read_number 16 4 True 65536 (show_radix 16 g @ ?tail) = Some (g, ?tail)"
    using assms Cons by (intro read_number_show) auto
  have "read_ipv4 (show_radix 16 g @ ?tail) = None"
    using assms(4) by (intro read_ipv4_no_dot) (simp add: show_radix_no_mark group_text_no_dot)
  moreover have "read_groups m False ?tail = (hs, False, rest)"
    using assms Cons n by (intro read_groups_text) auto
  ultimately show ?thesis
    using num Cons n by (simp add: read_separator_def show_groups_Cons)
qed

definition zero_run :: "nat list \<Rightarrow> nat \<Rightarrow> nat \<Rightarrow> bool" where
  "zero_run xs s l \<longleftrightarrow> s + l \<le> length xs \<and> take l (drop s xs) = replicate l 0"

lemma zero_run_snoc:
  "zero_run xs s l \<Longrightarrow> zero_run (xs @ ys) s l"
  "zero_run xs s l \<Longrightarrow> s + l = length xs \<Longrightarrow> zero_run (xs @ [0]) s (Suc l)"
  by (auto simp: zero_run_def replicate_append_same [symmetric] take_drop)

lemma longest_zeros_run:
  assumes "zero_run pre bs bl" and "zero_run pre cs cl" and "cl = 0 \<or> cs + cl = length pre"
    and "longest_zeros (length pre) (cs, cl) (bs, bl) gs = (s, l)"
  shows "zero_run (pre @ gs) s l"
  using assms
proof (induction gs arbitrary: pre cs cl bs bl)
  case (Cons g gs)
  show ?case
  proof (cases "g = 0")
    case False
    have "zero_run ((pre @ [g]) @ gs) s l"
    proof (rule Cons.IH)
      show "longest_zeros (length (pre @ [g])) (0, 0) (bs, bl) gs = (s, l)"
        using Cons.prems(4) False by simp
    qed (use Cons.prems(1) zero_run_snoc(1) in \<open>auto simp: zero_run_def\<close>)
    then show ?thesis by simp
  next
    case True
    define cs' where "cs' = (if cl = 0 then length pre else cs)"
    have run: "zero_run (pre @ [0]) cs' (Suc cl)"
    proof (cases "cl = 0")
      case True
      then show ?thesis by (simp add: cs'_def zero_run_def)
    next
      case False
      with Cons.prems(2,3) show ?thesis by (simp add: cs'_def zero_run_snoc(2))
    qed
    define best where "best = (if bl < Suc cl then (cs', Suc cl) else (bs, bl))"
    have "zero_run ((pre @ [0]) @ gs) s l"
    proof (rule Cons.IH)
      show "zero_run (pre @ [0]) (fst best) (snd best)"
        using run Cons.prems(1) by (simp add: best_def zero_run_snoc(1))
      show "zero_run (pre @ [0]) cs' (Suc cl)" by (rule run)
      show "Suc cl = 0 \<or> cs' + Suc cl = length (pre @ [0])"
        using Cons.prems(3) by (auto simp: cs'_def)
      show "longest_zeros (length (pre @ [0])) (cs', Suc cl) (fst best, snd best) gs = (s, l)"
        using Cons.prems(4) True unfolding best_def cs'_def
        by (simp only: longest_zeros.simps Let_def if_True refl prod.collapse length_append_singleton)
    qed
    with True show ?thesis by simp
  qed
qed simp

lemma read_ipv6_plain:
  assumes "length gs = 8" and "\<forall>g\<in>set gs. g < 65536"
  shows "read_ipv6 (show_groups gs) = Some (gs, [])"
  using read_groups_shown [of gs 8 "[]"] assms
  by (simp add: read_ipv6_def group_stop_def)

lemma read_ipv6_compressed:
  assumes "length gs = 8" and "\<forall>g\<in>set gs. g < 65536" and "zero_run gs s l" and "1 < l"
  shows "read_ipv6 (show_groups (take s gs) @ ''::'' @ show_groups (drop (s + l) gs)) = Some (gs, [])"
proof -
  let ?head = "take s gs" and ?tail = "drop (s + l) gs"
  have sl: "s + l \<le> 8" and zeros: "take l (drop s gs) = replicate l 0"
    using assms(1,3) by (simp_all add: zero_run_def)
  have "read_groups 8 True (show_groups ?head @ ''::'' @ show_groups ?tail)
      = (?head, False, ''::'' @ show_groups ?tail)"
    using assms(1,2) show_groups_no_dot
    by (intro read_groups_shown) (auto simp: group_stop_def dest: in_set_takeD)
  moreover have "read_groups (8 - (s + 1)) True (show_groups ?tail @ []) = (?tail, False, [])"
    using assms(1,2,4) by (intro read_groups_shown) (auto simp: group_stop_def dest: in_set_dropD)
  moreover have "?head @ replicate l 0 @ ?tail = gs"
    using zeros by (metis append_take_drop_id drop_drop add.commute)
  moreover have "length ?head = s" "8 - s - length ?tail = l"
    using assms(1) sl by auto
  ultimately show ?thesis
    using sl assms(4) by (simp add: read_ipv6_def)
qed

lemma read_groups_group:
  assumes "read_separator CHR '':'' first read_ipv4 s = None"
    and "read_separator CHR '':'' first (read_number 16 4 True 65536) s = Some (g, t)"
    and "read_groups n False t = (gs, v4, u)"
  shows "read_groups (Suc n) first s = (g # gs, v4, u)"
  using assms by simp

lemma read_groups_embedded:
  assumes "read_separator CHR '':'' first read_ipv4 s = Some ([a, b, c, d], t)" and "1 \<le> n"
  shows "read_groups (Suc n) first s = ([a * 256 + b, c * 256 + d], True, t)"
  using assms by simp

lemma read_ipv6_mapped:
  assumes "\<forall>x\<in>{a, b, c, d}. x < 256"
  shows "read_ipv6 (''::ffff:'' @ show_octets [a, b, c, d])
    = Some ([0, 0, 0, 0, 0, 65535, a * 256 + b, c * 256 + d], [])"
proof -
  have v4: "read_ipv4 (show_octets [a, b, c, d]) = Some ([a, b, c, d], [])"
    using read_ipv4_show [of "[a, b, c, d]" "[]"] assms by simp
  have byte: "byte_of 102 = CHR ''f''" by code_simp
  have f: "show_radix 16 65535 = ''ffff''" by (simp add: show_radix.simps [of 16] radix_char_def byte)
  have num: "read_number 16 4 True 65536 (''ffff'' @ CHR '':'' # s) = Some (65535, CHR '':'' # s)" for s
    using read_number_show [of 16 65535 65536 4 "CHR '':'' # s" True] f by simp
  have nov4: "read_ipv4 (''ffff'' @ s) = None" for s
    by (simp add: read_ipv4_def read_separator_def read_number_def radix_digit_def byte_val_def)
  let ?octets = "show_octets [a, b, c, d]"
  have tail: "read_groups 7 True (''ffff'' @ CHR '':'' # ?octets)
      = ([65535, a * 256 + b, c * 256 + d], True, [])"
  proof -
    have "read_groups (Suc 5) False (CHR '':'' # ?octets)
        = ([a * 256 + b, c * 256 + d], True, [])"
      using v4 by (intro read_groups_embedded) (simp_all add: read_separator_def)
    then have "read_groups (Suc 6) True (''ffff'' @ CHR '':'' # ?octets)
        = ([65535, a * 256 + b, c * 256 + d], True, [])"
      using num [of ?octets] nov4 [of "CHR '':'' # ?octets"]
      by (intro read_groups_group) (simp_all only: read_separator_def if_True Suc_numeral semiring_norm)
    then show ?thesis by (simp only: Suc_numeral semiring_norm)
  qed
  have head: "read_groups 8 True (''::ffff:'' @ ?octets) = ([], False, ''::ffff:'' @ ?octets)"
    by (simp add: read_groups_numeral read_separator_def read_ipv4_colon)
  have zeros: "replicate 5 (0 :: nat) = [0, 0, 0, 0, 0]" by code_simp
  show ?thesis using tail unfolding read_ipv6_def head by (simp add: zeros)
qed

lemma read_ipv6_display:
  assumes "length gs = 8" and "\<forall>g\<in>set gs. g < 65536"
  shows "read_ipv6 (display_groups gs) = Some (gs, [])"
proof (cases "take 6 gs = [0, 0, 0, 0, 0, 65535]")
  case True
  have split: "gs = take 6 gs @ [gs ! 6, gs ! 7]"
    using assms(1) by (intro nth_equalityI) (auto simp: nth_append less_Suc_eq numeral_eq_Suc)
  have "gs ! 6 < 65536" "gs ! 7 < 65536" using assms by auto
  then have "read_ipv6 (display_groups gs) = Some ([0, 0, 0, 0, 0, 65535, gs ! 6, gs ! 7], [])"
    using True read_ipv6_mapped [of "gs ! 6 div 256" "gs ! 6 mod 256" "gs ! 7 div 256" "gs ! 7 mod 256"]
    by (simp add: display_groups_def div_less_iff_less_mult mult.commute)
  with True split show ?thesis by simp
next
  case False
  obtain s l where sl: "longest_zeros 0 (0, 0) (0, 0) gs = (s, l)"
    by (cases "longest_zeros 0 (0, 0) (0, 0) gs")
  then have "zero_run ([] @ gs) s l"
    using longest_zeros_run [of "[]" 0 0 0 0 gs s l] by (simp add: zero_run_def)
  with assms sl False show ?thesis
    by (simp add: display_groups_def read_ipv6_plain read_ipv6_compressed [simplified])
qed

lemma read_ipv4_display_groups: "read_ipv4 (display_groups gs) = None"
  using read_ipv4_colon show_groups_no_dot
  by (auto simp: display_groups_def Let_def split: prod.splits intro!: read_ipv4_no_dot)

theorem parse_display_ip: "ip_wf ip \<Longrightarrow> parse_ip (display_ip ip) = Some ip"
proof (cases ip)
  case (V4 os)
  assume "ip_wf ip"
  with V4 have "read_ipv4 (show_octets (map unat os) @ []) = Some (map unat os, [])"
    by (intro read_ipv4_show) (auto simp: ip_wf_def unat_octet)
  with V4 show ?thesis by (simp add: parse_ip_def comp_def)
next
  case (V6 gs)
  assume "ip_wf ip"
  with V6 have "read_ipv6 (display_groups (map unat gs)) = Some (map unat gs, [])"
    by (intro read_ipv6_display) (auto simp: ip_wf_def unat_group)
  with V6 show ?thesis by (simp add: parse_ip_def read_ipv4_display_groups comp_def)
qed

lemma display_ip_inject: "ip_wf a \<Longrightarrow> ip_wf b \<Longrightarrow> display_ip a = display_ip b \<Longrightarrow> a = b"
  by (metis parse_display_ip option.inject)

end
