(* ===== verification/Config_Types.thy ===== *)
theory Config_Types
  imports Gateway_Error Hash_Map Float64 Ip_Addr
begin

text \<open>
  The configuration data of the gateway: the records of \<^verbatim>\<open>src/src/config/mod.rs\<close> and the
  fail2ban section of \<^verbatim>\<open>src/src/abuse.rs\<close>, field by field, the resolution of paths and
  runtime settings, and the authorization policy with its defaults.  Paths are byte strings,
  durations are nanoseconds, a \<^verbatim>\<open>HashMap\<close> is the list of its entries.
\<close>

type_synonym path_buf = string
type_synonym duration = nat  \<comment> \<open>\<^verbatim>\<open>std::time::Duration\<close>, in nanoseconds\<close>

definition nanos_per_sec :: nat where
  "nanos_per_sec = 1000000000"

definition from_secs :: "nat \<Rightarrow> duration" where
  "from_secs s = s * nanos_per_sec"

definition as_secs_f64 :: "duration \<Rightarrow> f64" where
  "as_secs_f64 d = f_add (f64_of_rat (of_nat (d div nanos_per_sec)))
     (f_div (f64_of_rat (of_nat (d mod nanos_per_sec))) (f64_of_rat (of_nat nanos_per_sec)))"

subsection \<open>The fail2ban section\<close>

record fail2ban_config =
  fc_enabled :: "bool option"
  fc_max_failures :: "nat option"
  fc_find_time :: "string option"
  fc_ban_time :: "string option"
  fc_max_ban_time :: "string option"
  fc_backoff_multiplier :: "f64 option"
  fc_delay_before_ban :: "bool option"
  fc_delay_time :: "string option"
  fc_persist_state :: "bool option"
  fc_state_path :: "path_buf option"
  fc_whitelist_ips :: "string list"

definition default_fail2ban_config :: fail2ban_config where
  "default_fail2ban_config = \<lparr>fc_enabled = None, fc_max_failures = None, fc_find_time = None,
     fc_ban_time = None, fc_max_ban_time = None, fc_backoff_multiplier = None,
     fc_delay_before_ban = None, fc_delay_time = None, fc_persist_state = None,
     fc_state_path = None, fc_whitelist_ips = []\<rparr>"

subsection \<open>Sections of config.toml\<close>

record settings_config =
  sc_user_key_root :: "path_buf option"
  sc_known_hosts_path :: "path_buf option"
  sc_audit_log_path :: "path_buf option"
  sc_whitelist_path :: "path_buf option"
  sc_per_user_per_server :: "bool option"
  sc_drop_to_menu :: "bool option"
  sc_hide_proxy_ip :: "bool option"
  sc_enforce_password_policy :: "bool option"
  sc_min_password_policy :: "nat option"

record kex_policy_config =
  kp_frontend_preferred :: "string list"
  kp_frontend_require_post_quantum :: bool
  kp_backend_preferred :: "string list"
  kp_backend_require_post_quantum :: bool

definition default_frontend_preferred_kex :: "string list" where
  "default_frontend_preferred_kex =
     [''mlkem768x25519-sha256'', ''curve25519-sha256'', ''curve25519-sha256@libssh.org'']"

definition default_backend_preferred_kex :: "string list" where
  "default_backend_preferred_kex = default_frontend_preferred_kex"

definition default_kex_policy :: kex_policy_config where
  "default_kex_policy = \<lparr>kp_frontend_preferred = default_frontend_preferred_kex,
     kp_frontend_require_post_quantum = False,
     kp_backend_preferred = default_backend_preferred_kex,
     kp_backend_require_post_quantum = False\<rparr>"

record authorization_policy_config =
  ap_allow_local_forwarding :: "bool option"
  ap_allow_remote_forwarding :: "bool option"
  ap_allow_sftp :: "bool option"
  ap_allow_scp :: "bool option"

record effective_authorization_policy =
  eff_allow_local_forwarding :: bool
  eff_allow_remote_forwarding :: bool
  eff_allow_sftp :: bool
  eff_allow_scp :: bool

definition default_policy :: authorization_policy_config where
  "default_policy = \<lparr>ap_allow_local_forwarding = None, ap_allow_remote_forwarding = None,
     ap_allow_sftp = None, ap_allow_scp = None\<rparr>"

definition has_explicit_entries :: "authorization_policy_config \<Rightarrow> bool" where
  "has_explicit_entries p \<longleftrightarrow> ap_allow_local_forwarding p \<noteq> None
     \<or> ap_allow_remote_forwarding p \<noteq> None \<or> ap_allow_sftp p \<noteq> None \<or> ap_allow_scp p \<noteq> None"

definition resolve_policy :: "authorization_policy_config \<Rightarrow> effective_authorization_policy" where
  "resolve_policy p = \<lparr>
     eff_allow_local_forwarding = unwrap_or False (ap_allow_local_forwarding p),
     eff_allow_remote_forwarding = unwrap_or False (ap_allow_remote_forwarding p),
     eff_allow_sftp = unwrap_or True (ap_allow_sftp p),
     eff_allow_scp = unwrap_or True (ap_allow_scp p)\<rparr>"

record user_record =
  user_name :: string
  user_password :: string
  user_totp_secret :: "string option"
  user_must_change_password :: bool
  user_allowed_servers :: "string list"
  user_authorization :: authorization_policy_config

record config_file =
  cf_users :: "user_record list"
  cf_settings :: settings_config
  cf_kex_policy :: kex_policy_config
  cf_fail2ban :: "fail2ban_config option"
  cf_server_user_policies ::
    "(string, (string, authorization_policy_config) hash_map) hash_map"

type_synonym servers_file = "(string, string) hash_map"  \<comment> \<open>server name to host\<close>

record effective_paths =
  ep_config_path :: path_buf
  ep_servers_path :: path_buf
  ep_known_hosts_path :: path_buf
  ep_user_key_root :: path_buf
  ep_audit_log_path :: path_buf
  ep_whitelist_path :: "path_buf option"
  ep_per_user_per_server :: bool
  ep_drop_to_menu :: bool
  ep_hide_proxy_ip :: bool

record runtime_state =
  rt_config :: config_file
  rt_servers :: servers_file
  rt_loaded_at :: int

subsection \<open>Paths and runtime settings: flag, then config file, then default\<close>

definition default_config_path :: path_buf where
  "default_config_path = ''/etc/centralssh/config.toml''"
definition default_servers_path :: path_buf where
  "default_servers_path = ''/etc/centralssh/servers.toml''"
definition default_known_hosts_path :: path_buf where
  "default_known_hosts_path = ''/etc/centralssh/known_hosts''"
definition default_user_key_root :: path_buf where
  "default_user_key_root = ''/var/lib/centralssh/keys''"
definition default_audit_log_path :: path_buf where
  "default_audit_log_path = ''/var/log/centralssh/audit.jsonl''"

definition setting :: "settings_config option \<Rightarrow> (settings_config \<Rightarrow> 'a option) \<Rightarrow> 'a option" where
  \<comment> \<open>\<^verbatim>\<open>settings.and_then(|config| config.field)\<close>\<close>
  "setting s f = Option.bind s f"

definition resolve_paths ::
  "path_buf option \<Rightarrow> path_buf option \<Rightarrow> path_buf option \<Rightarrow> path_buf option \<Rightarrow> path_buf option
   \<Rightarrow> path_buf option \<Rightarrow> bool option \<Rightarrow> bool option \<Rightarrow> bool option \<Rightarrow> settings_config option
   \<Rightarrow> effective_paths" where
  "resolve_paths config_path servers_path known_hosts_path key_root audit_path whitelist
     per_user drop_menu hide_ip settings = \<lparr>
     ep_config_path = unwrap_or default_config_path config_path,
     ep_servers_path = unwrap_or default_servers_path servers_path,
     ep_known_hosts_path = unwrap_or default_known_hosts_path
       (or_else known_hosts_path (setting settings sc_known_hosts_path)),
     ep_user_key_root = unwrap_or default_user_key_root
       (or_else key_root (setting settings sc_user_key_root)),
     ep_audit_log_path = unwrap_or default_audit_log_path
       (or_else audit_path (setting settings sc_audit_log_path)),
     ep_whitelist_path = or_else whitelist (setting settings sc_whitelist_path),
     ep_per_user_per_server = unwrap_or True
       (or_else per_user (setting settings sc_per_user_per_server)),
     ep_drop_to_menu = unwrap_or False (or_else drop_menu (setting settings sc_drop_to_menu)),
     ep_hide_proxy_ip = unwrap_or False (or_else hide_ip (setting settings sc_hide_proxy_ip))\<rparr>"

definition apply_runtime_overrides :: "config_file \<Rightarrow> effective_paths \<Rightarrow> config_file" where
  "apply_runtime_overrides config paths = config\<lparr>cf_settings := (cf_settings config)\<lparr>
     sc_whitelist_path := ep_whitelist_path paths,
     sc_per_user_per_server := Some (ep_per_user_per_server paths),
     sc_drop_to_menu := Some (ep_drop_to_menu paths),
     sc_hide_proxy_ip := Some (ep_hide_proxy_ip paths)\<rparr>\<rparr>"

lemma apply_runtime_overrides_frame [frame_simps, simp]:
  "cf_users (apply_runtime_overrides c p) = cf_users c"
  "cf_kex_policy (apply_runtime_overrides c p) = cf_kex_policy c"
  "cf_fail2ban (apply_runtime_overrides c p) = cf_fail2ban c"
  "cf_server_user_policies (apply_runtime_overrides c p) = cf_server_user_policies c"
  "sc_enforce_password_policy (cf_settings (apply_runtime_overrides c p))
     = sc_enforce_password_policy (cf_settings c)"
  "sc_min_password_policy (cf_settings (apply_runtime_overrides c p))
     = sc_min_password_policy (cf_settings c)"
  by (simp_all add: apply_runtime_overrides_def)

subsection \<open>The effective policy of a session\<close>

definition resolve_effective_authorization_policy ::
  "config_file \<Rightarrow> string \<Rightarrow> string \<Rightarrow> bool \<Rightarrow> effective_authorization_policy gw_result" where
  "resolve_effective_authorization_policy config username target_server per_user_per_server =
     bind_res
       (ok_or (InvalidConfig (''authorization policy lookup could not find user '' @ sq username))
         (find (\<lambda>u. user_name u = username) (cf_users config)))
       (\<lambda>user.
         let policy =
           (if per_user_per_server then
              unwrap_or default_policy
                (Option.bind (hm_get (cf_server_user_policies config) target_server)
                  (\<lambda>user_policies. hm_get user_policies username))
            else user_authorization user)
         in Inr (resolve_policy policy))"

end
