(* ===== verification/Fail2ban_Settings.thy ===== *)
theory Fail2ban_Settings
  imports Config_Types
begin

text \<open>
  The effective fail2ban settings (\<^verbatim>\<open>src/src/abuse.rs\<close>, \<^verbatim>\<open>Fail2banSettings\<close> and
  \<^verbatim>\<open>Fail2banConfig::effective\<close>): defaults, durations, the whitelist with its file, and
  validation.  The crates \<^verbatim>\<open>humantime\<close> and \<^verbatim>\<open>ipnet\<close> are the functions of the record
  \<^verbatim>\<open>fail2ban_libs\<close>; files are read through a view of the file system.
\<close>

datatype ip_net = IpNet (net_addr: ip_addr) (net_prefix: nat)

record fail2ban_libs =
  lib_parse_duration :: "string \<Rightarrow> string + duration"    \<comment> \<open>\<^verbatim>\<open>humantime::parse_duration\<close>\<close>
  lib_parse_net :: "string \<Rightarrow> string + ip_net"           \<comment> \<open>\<^verbatim>\<open>IpNet::from_str\<close>\<close>
  lib_net_contains :: "ip_net \<Rightarrow> ip_addr \<Rightarrow> bool"          \<comment> \<open>\<^verbatim>\<open>IpNet::contains\<close>\<close>
  lib_net_from :: "ip_addr \<Rightarrow> ip_net"                      \<comment> \<open>\<^verbatim>\<open>IpNet::from(IpAddr)\<close>\<close>

type_synonym file_view = "path_buf \<Rightarrow> io_error + string"  \<comment> \<open>what \<^verbatim>\<open>fs::read\<close> returns now\<close>

definition read_to_string :: "file_view \<Rightarrow> path_buf \<Rightarrow> io_error + string" where
  "read_to_string fs path = (case fs path of
     Inl e \<Rightarrow> Inl e
   | Inr bytes \<Rightarrow> ok_or (IoOther ''stream did not contain valid UTF-8'') (from_utf8 bytes))"

definition text_lines :: "string \<Rightarrow> string list" where
  \<comment> \<open>\<^verbatim>\<open>str::lines\<close>: split at newlines, drop one carriage return, no empty line at the end\<close>
  "text_lines s =
     (let ps = split_on CHR 10 s;
          ls = (if last ps = [] then butlast ps else ps)
      in map (\<lambda>(i, l). if l \<noteq> [] \<and> last l = CHR 13 \<and> i + 1 < length ps then butlast l else l)
           (enumerate 0 ls))"

record fail2ban_settings =
  fs_enabled :: bool
  fs_max_failures :: nat
  fs_find_time :: duration
  fs_ban_time :: duration
  fs_max_ban_time :: duration
  fs_backoff_multiplier :: f64
  fs_delay_before_ban :: bool
  fs_delay_time :: duration
  fs_persist_state :: bool
  fs_state_path :: path_buf
  fs_whitelist :: "ip_net list"

definition default_whitelist :: "ip_net list" where
  \<comment> \<open>\<^verbatim>\<open>127.0.0.1/32\<close> and \<^verbatim>\<open>::1/128\<close>\<close>
  "default_whitelist = [IpNet (V4 [127, 0, 0, 1]) 32, IpNet (V6 [0, 0, 0, 0, 0, 0, 0, 1]) 128]"

definition default_fail2ban_settings :: fail2ban_settings where
  "default_fail2ban_settings = \<lparr>fs_enabled = True, fs_max_failures = 5,
     fs_find_time = from_secs 60, fs_ban_time = from_secs (10 * 60),
     fs_max_ban_time = from_secs (24 * 60 * 60), fs_backoff_multiplier = Fin 2,
     fs_delay_before_ban = True, fs_delay_time = from_secs 2, fs_persist_state = True,
     fs_state_path = ''/var/lib/centralssh/fail2ban_state.json'',
     fs_whitelist = default_whitelist\<rparr>"

definition is_whitelisted :: "fail2ban_libs \<Rightarrow> fail2ban_settings \<Rightarrow> ip_addr \<Rightarrow> bool" where
  "is_whitelisted L settings ip \<longleftrightarrow> list_ex (\<lambda>cidr. lib_net_contains L cidr ip) (fs_whitelist settings)"

subsection \<open>Parsing\<close>

definition parse_duration_option ::
  "fail2ban_libs \<Rightarrow> string option \<Rightarrow> duration \<Rightarrow> string \<Rightarrow> duration gw_result" where
  "parse_duration_option L value dflt field = (case value of
     None \<Rightarrow> Inr dflt
   | Some raw \<Rightarrow> map_err (\<lambda>error. InvalidConfig (''invalid fail2ban.'' @ field @ '' duration ''
         @ sq raw @ '': '' @ error)) (lib_parse_duration L raw))"

type_synonym net_scan = "ip_net list \<times> ip_net list"  \<comment> \<open>the whitelist and the set of seen nets\<close>

definition push_net :: "net_scan \<Rightarrow> ip_net \<Rightarrow> net_scan" where
  "push_net acc cidr = (let (whitelist, seen) = acc in
     if cidr \<in> set seen then (whitelist, seen) else (whitelist @ [cidr], cidr # seen))"

definition whitelist_line :: "string \<Rightarrow> string" where
  \<comment> \<open>the part before a comment, trimmed\<close>
  "whitelist_line raw_line = trim (unwrap_or raw_line (map_option fst (split_once CHR ''#'' raw_line)))"

definition read_whitelist_file :: "fail2ban_libs \<Rightarrow> file_view \<Rightarrow> path_buf \<Rightarrow> ip_net list gw_result" where
  "read_whitelist_file L fs path =
     bind_res (map_err Io (read_to_string fs path)) (\<lambda>content.
       try_fold (\<lambda>whitelist (line_number, raw_line).
           let line = whitelist_line raw_line in
           if line = [] then Inr whitelist
           else bind_res
             (ok_or (InvalidConfig (''invalid fail2ban whitelist IP '' @ sq line @ '' at '' @ path @ '':''
                 @ show_nat (line_number + 1) @ '': invalid IP address syntax'')) (parse_ip line))
             (\<lambda>ip. Inr (whitelist @ [lib_net_from L ip])))
         [] (enumerate 0 (text_lines content)))"

definition parse_whitelist ::
  "fail2ban_libs \<Rightarrow> file_view \<Rightarrow> string list \<Rightarrow> path_buf option \<Rightarrow> ip_net list gw_result" where
  "parse_whitelist L fs values whitelist_path =
     bind_res (try_fold (\<lambda>acc entry.
           bind_res (map_err (\<lambda>error. InvalidConfig (''invalid fail2ban whitelist entry '' @ sq entry
               @ '': '' @ error)) (lib_parse_net L entry))
             (\<lambda>cidr. Inr (push_net acc cidr)))
         (default_whitelist, default_whitelist) values)
       (\<lambda>acc. case whitelist_path of
          None \<Rightarrow> Inr (fst acc)
        | Some path \<Rightarrow> bind_res (read_whitelist_file L fs path)
            (\<lambda>entries. Inr (fst (foldl push_net acc entries))))"

subsection \<open>Validation\<close>

definition validate_fail2ban_settings :: "fail2ban_settings \<Rightarrow> unit gw_result" where
  "validate_fail2ban_settings settings =
     try_each (\<lambda>(bad, message). guard_res bad (InvalidConfig message))
      [(fs_max_failures settings = 0, ''fail2ban.max_failures must be >= 1''),
       (fs_find_time settings = 0, ''fail2ban.find_time must be > 0''),
       (fs_ban_time settings = 0, ''fail2ban.ban_time must be > 0''),
       (fs_max_ban_time settings < fs_ban_time settings,
         ''fail2ban.max_ban_time must be >= fail2ban.ban_time''),
       (f_lt (fs_backoff_multiplier settings) (Fin 1), ''fail2ban.backoff_multiplier must be >= 1.0''),
       (fs_delay_before_ban settings \<and> fs_delay_time settings = 0,
         ''fail2ban.delay_time must be > 0 when delay_before_ban is enabled'')]"

definition effective ::
  "fail2ban_libs \<Rightarrow> file_view \<Rightarrow> fail2ban_config \<Rightarrow> path_buf option \<Rightarrow> fail2ban_settings gw_result" where
  "effective L fs config whitelist_path =
     (let d = default_fail2ban_settings in
      bind_res (parse_duration_option L (fc_find_time config) (fs_find_time d) ''find_time'') (\<lambda>find_time.
      bind_res (parse_duration_option L (fc_ban_time config) (fs_ban_time d) ''ban_time'') (\<lambda>ban_time.
      bind_res (parse_duration_option L (fc_max_ban_time config) (fs_max_ban_time d) ''max_ban_time'')
        (\<lambda>max_ban_time.
      bind_res (parse_duration_option L (fc_delay_time config) (fs_delay_time d) ''delay_time'')
        (\<lambda>delay_time.
      bind_res (parse_whitelist L fs (fc_whitelist_ips config) whitelist_path) (\<lambda>whitelist.
      let settings = \<lparr>
        fs_enabled = unwrap_or (fs_enabled d) (fc_enabled config),
        fs_max_failures = unwrap_or (fs_max_failures d) (fc_max_failures config),
        fs_find_time = find_time, fs_ban_time = ban_time, fs_max_ban_time = max_ban_time,
        fs_backoff_multiplier = unwrap_or (fs_backoff_multiplier d) (fc_backoff_multiplier config),
        fs_delay_before_ban = unwrap_or (fs_delay_before_ban d) (fc_delay_before_ban config),
        fs_delay_time = delay_time,
        fs_persist_state = unwrap_or (fs_persist_state d) (fc_persist_state config),
        fs_state_path = unwrap_or (fs_state_path d) (fc_state_path config),
        fs_whitelist = whitelist\<rparr>
      in bind_res (validate_fail2ban_settings settings) (\<lambda>_. Inr settings)))))))"

subsection \<open>What passes validation\<close>

definition settings_sane :: "fail2ban_settings \<Rightarrow> bool" where
  "settings_sane s \<longleftrightarrow> 1 \<le> fs_max_failures s \<and> 0 < fs_find_time s \<and> 0 < fs_ban_time s
     \<and> fs_ban_time s \<le> fs_max_ban_time s
     \<and> (fs_backoff_multiplier s = NaN \<or> f_le (Fin 1) (fs_backoff_multiplier s))
     \<and> (fs_delay_before_ban s \<longrightarrow> 0 < fs_delay_time s)"

lemma f_not_lt: "\<not> f_lt a (Fin 1) \<longleftrightarrow> a = NaN \<or> f_le (Fin 1) a"
  by (cases a) auto

lemma validate_fail2ban_settings_iff:
  "validate_fail2ban_settings s = Inr () \<longleftrightarrow> settings_sane s"
  by (auto simp: validate_fail2ban_settings_def settings_sane_def f_not_lt Suc_le_eq)

lemma push_net_fold:
  assumes "set whitelist = set seen" and "distinct whitelist"
    and "foldl push_net (whitelist, seen) nets = (w', s')"
  shows "distinct w' \<and> set w' = set whitelist \<union> set nets \<and> set s' = set w'
    \<and> take (length whitelist) w' = whitelist"
  using assms
proof (induction nets arbitrary: whitelist seen)
  case (Cons n nets)
  show ?case
  proof (cases "n \<in> set seen")
    case True
    with Cons show ?thesis by (simp add: push_net_def insert_absorb)
  next
    case False
    have "distinct w' \<and> set w' = set (whitelist @ [n]) \<union> set nets \<and> set s' = set w'
        \<and> take (length (whitelist @ [n])) w' = whitelist @ [n]"
      by (rule Cons.IH [of "whitelist @ [n]" "n # seen"])
        (use Cons.prems False in \<open>auto simp: push_net_def\<close>)
    then have "take (length whitelist) (take (length (whitelist @ [n])) w') = whitelist" and
      "distinct w' \<and> set w' = set whitelist \<union> set (n # nets) \<and> set s' = set w'"
      by auto
    then show ?thesis by (simp add: min_def)
  qed
qed simp

lemma try_fold_parsed:
  "try_fold (\<lambda>acc x. bind_res (map_err (g x) (p x)) (\<lambda>y. Inr (h acc y))) s xs = Inr t
   \<longleftrightarrow> (\<exists>ys. map p xs = map Inr ys \<and> t = foldl h s ys)"
proof (induction xs arbitrary: s)
  case (Cons x xs)
  show ?case
  proof (cases "p x")
    case (Inr y)
    with Cons show ?thesis by (auto simp: Cons_eq_map_conv intro: exI [of _ "y # _"])
  qed (auto simp: Cons_eq_map_conv)
qed auto

subsection \<open>The whitelist file\<close>

definition whitelist_entries :: "string \<Rightarrow> string list" where
  \<comment> \<open>the lines that carry an address\<close>
  "whitelist_entries content = filter (\<lambda>l. l \<noteq> []) (map whitelist_line (text_lines content))"

lemma whitelist_fold:
  "try_fold (\<lambda>whitelist (i, raw_line).
       let line = whitelist_line raw_line in
       if line = [] then Inr whitelist
       else bind_res (ok_or (msg i line) (parse_ip line)) (\<lambda>ip. Inr (whitelist @ [lib_net_from L ip])))
     acc lines = Inr nets
   \<longleftrightarrow> (\<exists>ips. map parse_ip (filter (\<lambda>l. l \<noteq> []) (map (whitelist_line \<circ> snd) lines)) = map Some ips
        \<and> nets = acc @ map (lib_net_from L) ips)"
proof (induction lines arbitrary: acc)
  case (Cons x lines)
  obtain i raw where x: "x = (i, raw)" by (cases x)
  show ?case
  proof (cases "whitelist_line raw = [] \<or> parse_ip (whitelist_line raw) = None")
    case True
    with Cons x show ?thesis by (auto simp: Cons_eq_map_conv)
  next
    case False
    then obtain ip where "parse_ip (whitelist_line raw) = Some ip" by auto
    with Cons x False show ?thesis
      by (auto simp: Cons_eq_map_conv intro: exI [of _ "ip # _"])
  qed
qed auto

text \<open>
  Reading the whitelist file succeeds exactly when the file is readable UTF-8 and every
  line that is not blank after removing its comment is an IP address; the result is then one
  single-host network per such line, in file order.
\<close>
theorem read_whitelist_file_correct:
  "read_whitelist_file L fs path = Inr nets \<longleftrightarrow>
     (\<exists>content ips. read_to_string fs path = Inr content
        \<and> map parse_ip (whitelist_entries content) = map Some ips
        \<and> nets = map (lib_net_from L) ips)"
proof -
  have "map (whitelist_line \<circ> snd) (enumerate 0 ls) = map whitelist_line ls" for ls
    by (metis map_map map_snd_enumerate)
  then show ?thesis
    by (auto simp: read_whitelist_file_def whitelist_fold [where msg = "\<lambda>i line. InvalidConfig (''invalid fail2ban whitelist IP '' @ sq line @ '' at '' @ path @ '':''
        @ show_nat (i + 1) @ '': invalid IP address syntax'')"] whitelist_entries_def)
qed

text \<open>
  Settings that were accepted are usable: at least one failure is needed for a ban, the
  window and the ban time are positive, a ban can last at least the base time, the multiplier
  is not below one, a configured delay is positive; and the whitelist starts with the two
  loopback networks, names no network twice and holds exactly the loopback networks, the
  configured entries and the addresses of the whitelist file.
\<close>
theorem effective_settings_sound:
  assumes "effective L fs config whitelist_path = Inr s"
  shows "settings_sane s \<and> distinct (fs_whitelist s)
    \<and> take 2 (fs_whitelist s) = default_whitelist
    \<and> (\<exists>entries file_nets. map (lib_parse_net L) (fc_whitelist_ips config) = map Inr entries
         \<and> (case whitelist_path of None \<Rightarrow> file_nets = []
              | Some path \<Rightarrow> read_whitelist_file L fs path = Inr file_nets)
         \<and> set (fs_whitelist s) = set default_whitelist \<union> set entries \<union> set file_nets)"
proof -
  from assms obtain whitelist where
    wl: "parse_whitelist L fs (fc_whitelist_ips config) whitelist_path = Inr whitelist"
    and s: "fs_whitelist s = whitelist" "settings_sane s"
    by (auto simp: effective_def Let_def validate_fail2ban_settings_iff)
  from wl obtain acc file_nets where
    acc: "try_fold (\<lambda>acc entry.
           bind_res (map_err (\<lambda>error. InvalidConfig (''invalid fail2ban whitelist entry '' @ sq entry
               @ '': '' @ error)) (lib_parse_net L entry))
             (\<lambda>cidr. Inr (push_net acc cidr)))
         (default_whitelist, default_whitelist) (fc_whitelist_ips config) = Inr acc"
    and filed: "case whitelist_path of None \<Rightarrow> file_nets = []
              | Some path \<Rightarrow> read_whitelist_file L fs path = Inr file_nets"
    and out: "whitelist = fst (foldl push_net acc file_nets)"
    unfolding parse_whitelist_def by (cases whitelist_path) (fastforce simp: bind_res_eq_Inr)+
  obtain entries where entries: "map (lib_parse_net L) (fc_whitelist_ips config) = map Inr entries"
    and acc': "acc = foldl push_net (default_whitelist, default_whitelist) entries"
    using acc by (auto simp: try_fold_parsed [where h = push_net and p = "lib_parse_net L"])
  have "whitelist = fst (foldl push_net (default_whitelist, default_whitelist) (entries @ file_nets))"
    by (simp add: out acc')
  moreover obtain w' s' where fold:
    "foldl push_net (default_whitelist, default_whitelist) (entries @ file_nets) = (w', s')"
    by (cases "foldl push_net (default_whitelist, default_whitelist) (entries @ file_nets)")
  moreover have "distinct default_whitelist" "length default_whitelist = 2"
    by (simp_all add: default_whitelist_def)
  ultimately have "distinct whitelist \<and> take 2 whitelist = default_whitelist
      \<and> set whitelist = set default_whitelist \<union> set entries \<union> set file_nets"
    using push_net_fold [OF refl _ fold] by auto
  with s entries filed show ?thesis by auto
qed

definition sample_libs :: fail2ban_libs where
  \<comment> \<open>an instance of the parameters, for the witnesses\<close>
  "sample_libs = \<lparr>lib_parse_duration = (\<lambda>s. if s = ''90s'' then Inr (from_secs 90) else Inl ''bad''),
     lib_parse_net = (\<lambda>s. if s = ''10.0.0.7/32'' then Inr (IpNet (V4 [10, 0, 0, 7]) 32) else Inl ''bad''),
     lib_net_contains = (\<lambda>n ip. net_addr n = ip),
     lib_net_from = (\<lambda>ip. IpNet ip (case ip of V4 _ \<Rightarrow> 32 | V6 _ \<Rightarrow> 128))\<rparr>"

definition sample_fail2ban :: fail2ban_config where
  "sample_fail2ban = default_fail2ban_config\<lparr>fc_find_time := Some ''90s'',
     fc_whitelist_ips := [''10.0.0.7/32'']\<rparr>"

lemma effective_settings_sound_witness:
  "\<exists>s. effective sample_libs (\<lambda>_. Inl (IoNotFound ''none'')) sample_fail2ban None = Inr s
     \<and> settings_sane s \<and> length (fs_whitelist s) = 3"
proof -
  have "\<exists>s. effective sample_libs (\<lambda>_. Inl (IoNotFound ''none'')) sample_fail2ban None = Inr s
      \<and> length (fs_whitelist s) = 3"
    by (simp add: effective_def sample_fail2ban_def default_fail2ban_config_def sample_libs_def
        parse_duration_option_def parse_whitelist_def push_net_def default_whitelist_def
        default_fail2ban_settings_def validate_fail2ban_settings_def from_secs_def
        nanos_per_sec_def)
  then show ?thesis using effective_settings_sound by blast
qed

end
