(* ===== verification/Abuse_Core.thy ===== *)
theory Abuse_Core
  imports Fail2ban_Settings Machine
begin

text \<open>
  The abuse tracker's core (\<^verbatim>\<open>src/src/abuse.rs\<close>, \<^verbatim>\<open>AbuseTrackerCore\<close>): failures per address
  in a sliding window, bans with exponential backoff, and their expiry.  Times are
  nanoseconds; the conversions of \<^verbatim>\<open>chrono\<close> are parameters.  Operations return the state and
  an outcome; the outcome is \<^term>\<open>None\<close> where the Rust code panics (time overflow,
  \<^verbatim>\<open>Duration::mul_f64\<close>), with the state as mutated up to that point.
\<close>

record chrono_lib =
  ch_from_std :: "duration \<Rightarrow> int option"     \<comment> \<open>\<^verbatim>\<open>TimeDelta::from_std\<close>\<close>
  ch_add :: "int \<Rightarrow> int \<Rightarrow> int option"          \<comment> \<open>\<^verbatim>\<open>DateTime + TimeDelta\<close>, None on overflow\<close>

definition chrono_exact :: "chrono_lib \<Rightarrow> bool" where
  \<comment> \<open>where the conversions succeed they are exact\<close>
  "chrono_exact C \<longleftrightarrow> (\<forall>d x. ch_from_std C d = Some x \<longrightarrow> x = int d)
     \<and> (\<forall>t d x. ch_add C t d = Some x \<longrightarrow> x = t + d)"

definition chrono_fits :: "chrono_lib \<Rightarrow> duration \<Rightarrow> bool" where
  \<comment> \<open>a duration of ordinary size: it converts, and adding it never overflows\<close>
  "chrono_fits C d \<longleftrightarrow> ch_from_std C d = Some (int d) \<and> (\<forall>t. ch_add C t (int d) = Some (t + int d))"

record abuse_entry =
  ae_recent_failures :: "int list"
  ae_total_failures :: "64 word"
  ae_ban_until :: "int option"
  ae_ban_count :: "32 word"
  ae_last_failure :: "int option"
  ae_last_success :: "int option"
  ae_recent_usernames :: "string list"
  ae_recent_target_servers :: "string list"

definition default_entry :: abuse_entry where
  "default_entry = \<lparr>ae_recent_failures = [], ae_total_failures = 0, ae_ban_until = None,
     ae_ban_count = 0, ae_last_failure = None, ae_last_success = None,
     ae_recent_usernames = [], ae_recent_target_servers = []\<rparr>"

type_synonym abuse_core = "(ip_addr, abuse_entry) hash_map"
type_synonym persisted_state = "(string, abuse_entry) hash_map"

datatype ban_event_kind = BanCreated | BanExtended

record ban_event =
  be_kind :: ban_event_kind
  be_ban_until :: int
  be_ban_duration :: duration

record pre_auth_check =
  pc_whitelisted :: bool
  pc_had_state :: bool
  pc_expired_ban :: bool
  pc_banned :: bool
  pc_ban_until :: "int option"
  pc_ban_duration :: "duration option"

record failure_outcome =
  fo_whitelisted :: bool
  fo_delay :: "duration option"
  fo_ban_event :: "ban_event option"

subsection \<open>Helpers\<close>

definition saturating_succ :: "'a::len word \<Rightarrow> 'a word" where
  "saturating_succ x = (if x = - 1 then x else x + 1)"

definition push_recent_value :: "string list \<Rightarrow> string option \<Rightarrow> string list" where
  "push_recent_value values value_opt = (case value_opt of
     None \<Rightarrow> values
   | Some value \<Rightarrow>
       if value = [] then values
       else if value \<in> set values then values
       else (if 5 \<le> length values then tl values else values) @ [value])"

fun prune_front :: "chrono_lib \<Rightarrow> int \<Rightarrow> int \<Rightarrow> int list \<Rightarrow> int list \<times> bool" where
  \<comment> \<open>the loop of \<^verbatim>\<open>prune_failures\<close>; the flag is false when the addition panicked\<close>
  "prune_front C now window [] = ([], True)"
| "prune_front C now window (t # ts) = (case ch_add C t window of
     None \<Rightarrow> (t # ts, False)
   | Some x \<Rightarrow> if x < now then prune_front C now window ts else (t # ts, True))"

definition prune_failures :: "chrono_lib \<Rightarrow> abuse_entry \<Rightarrow> int \<Rightarrow> duration \<Rightarrow> abuse_entry \<times> bool" where
  "prune_failures C entry now window = (case ch_from_std C window of
     None \<Rightarrow> (entry, True)
   | Some w \<Rightarrow> (let (fs, ok) = prune_front C now w (ae_recent_failures entry) in
       (entry\<lparr>ae_recent_failures := fs\<rparr>, ok)))"

definition from_secs_f64 :: "f64 \<Rightarrow> duration option" where
  \<comment> \<open>rounds to the nearest nanosecond; None is the panic on negative, too big or not finite\<close>
  "from_secs_f64 x = (case x of
     Fin q \<Rightarrow>
       if q < 0 then None
       else (let n = nat (round_even (q * of_nat nanos_per_sec)) in
             if n div nanos_per_sec < 2 ^ 64 then Some n else None)
   | _ \<Rightarrow> None)"

definition mul_f64 :: "duration \<Rightarrow> f64 \<Rightarrow> duration option" where
  "mul_f64 d rhs = from_secs_f64 (f_mul rhs (as_secs_f64 d))"

definition compute_ban_duration :: "fail2ban_settings \<Rightarrow> 32 word \<Rightarrow> duration option" where
  "compute_ban_duration settings previous_ban_count =
     (let scale = f_powi (fs_backoff_multiplier settings) (sint previous_ban_count) in
      map_option (\<lambda>scaled. min scaled (fs_max_ban_time settings))
        (mul_f64 (fs_ban_time settings) scale))"

subsection \<open>Operations\<close>

definition idle_check :: pre_auth_check where
  "idle_check = \<lparr>pc_whitelisted = False, pc_had_state = False, pc_expired_ban = False,
     pc_banned = False, pc_ban_until = None, pc_ban_duration = None\<rparr>"

definition check_ip ::
  "chrono_lib \<Rightarrow> fail2ban_libs \<Rightarrow> abuse_core \<Rightarrow> ip_addr \<Rightarrow> int \<Rightarrow> fail2ban_settings
   \<Rightarrow> abuse_core \<times> pre_auth_check option" where
  "check_ip C L core ip now settings =
     (if \<not> fs_enabled settings then (core, Some idle_check)
      else if is_whitelisted L settings ip then
        (core, Some (idle_check\<lparr>pc_whitelisted := True, pc_had_state := hm_contains core ip\<rparr>))
      else (case hm_get core ip of
        None \<Rightarrow> (core, Some idle_check)
      | Some entry \<Rightarrow>
        (let (entry, ok) = prune_failures C entry now (fs_find_time settings) in
         if \<not> ok then (hm_insert ip entry core, None)
         else
           (let expired_ban = (case ae_ban_until entry of None \<Rightarrow> False | Some u \<Rightarrow> u \<le> now);
                entry = (if expired_ban then entry\<lparr>ae_ban_until := None\<rparr> else entry);
                core = hm_insert ip entry core
            in (case ae_ban_until entry of
                  Some u \<Rightarrow>
                    if now < u then
                      (core, Some \<lparr>pc_whitelisted = False, pc_had_state = True,
                        pc_expired_ban = expired_ban, pc_banned = True, pc_ban_until = Some u,
                        pc_ban_duration = Some (nat (u - now))\<rparr>)
                    else (core, Some (idle_check\<lparr>pc_had_state := True, pc_expired_ban := expired_ban\<rparr>))
                | None \<Rightarrow> (core, Some (idle_check\<lparr>pc_had_state := True,
                    pc_expired_ban := expired_ban\<rparr>)))))))"

definition quiet_outcome :: "bool \<Rightarrow> failure_outcome" where
  "quiet_outcome whitelisted =
     \<lparr>fo_whitelisted = whitelisted, fo_delay = None, fo_ban_event = None\<rparr>"

definition note_failure :: "abuse_entry \<Rightarrow> string option \<Rightarrow> string option \<Rightarrow> int \<Rightarrow> abuse_entry" where
  \<comment> \<open>the bookkeeping before the threshold is tested\<close>
  "note_failure entry username target_server now = entry\<lparr>
     ae_last_failure := Some now,
     ae_total_failures := saturating_succ (ae_total_failures entry),
     ae_recent_failures := ae_recent_failures entry @ [now],
     ae_recent_usernames := push_recent_value (ae_recent_usernames entry) username,
     ae_recent_target_servers := push_recent_value (ae_recent_target_servers entry) target_server\<rparr>"

definition failure_delay :: "fail2ban_settings \<Rightarrow> 32 word \<Rightarrow> duration option" where
  "failure_delay settings failure_count =
     (if fs_delay_before_ban settings \<and> 1 < fs_max_failures settings
         \<and> fs_max_failures settings - 1 \<le> unat failure_count
      then Some (fs_delay_time settings) else None)"

definition record_failure ::
  "chrono_lib \<Rightarrow> fail2ban_libs \<Rightarrow> abuse_core \<Rightarrow> ip_addr \<Rightarrow> string option \<Rightarrow> string option \<Rightarrow> int
   \<Rightarrow> fail2ban_settings \<Rightarrow> abuse_core \<times> failure_outcome option" where
  "record_failure C L core ip username target_server now settings =
     (if \<not> fs_enabled settings then (core, Some (quiet_outcome False))
      else if is_whitelisted L settings ip then (core, Some (quiet_outcome True))
      else
        (let (entry, ok) = prune_failures C (hm_entry_or ip default_entry core) now
               (fs_find_time settings) in
         if \<not> ok then (hm_insert ip entry core, None)
         else
           (let entry = note_failure entry username target_server now;
                failure_count = word_of_nat (length (ae_recent_failures entry)) :: 32 word
            in if fs_max_failures settings \<le> unat failure_count then
                 (let previous_bans = ae_ban_count entry in
                  case Option.bind (compute_ban_duration settings previous_bans) (\<lambda>ban_duration.
                      map_option (\<lambda>ban_until. (ban_duration, ban_until))
                        (ch_add C now (unwrap_or 0 (ch_from_std C ban_duration)))) of
                    None \<Rightarrow> (hm_insert ip entry core, None)
                  | Some (ban_duration, ban_until) \<Rightarrow>
                      (hm_insert ip (entry\<lparr>ae_ban_until := Some ban_until,
                           ae_ban_count := saturating_succ (ae_ban_count entry)\<rparr>) core,
                       Some \<lparr>fo_whitelisted = False, fo_delay = None,
                         fo_ban_event = Some \<lparr>
                           be_kind = (if previous_bans = 0 then BanCreated else BanExtended),
                           be_ban_until = ban_until, be_ban_duration = ban_duration\<rparr>\<rparr>))
               else
                 (hm_insert ip entry core,
                  Some \<lparr>fo_whitelisted = False, fo_delay = failure_delay settings failure_count,
                    fo_ban_event = None\<rparr>))))"

definition record_success ::
  "fail2ban_libs \<Rightarrow> abuse_core \<Rightarrow> ip_addr \<Rightarrow> int \<Rightarrow> fail2ban_settings \<Rightarrow> abuse_core" where
  "record_success L core ip now settings =
     (if \<not> fs_enabled settings then core
      else if is_whitelisted L settings ip then core
      else (case hm_get core ip of
        None \<Rightarrow> core
      | Some entry \<Rightarrow>
          if (case ae_ban_until entry of None \<Rightarrow> False | Some u \<Rightarrow> now < u) then
            hm_insert ip (entry\<lparr>ae_last_success := Some now\<rparr>) core
          else
            hm_insert ip (entry\<lparr>ae_last_success := Some now, ae_recent_failures := [],
              ae_recent_usernames := [], ae_recent_target_servers := []\<rparr>) core))"

definition worth_persisting :: "abuse_entry \<Rightarrow> int \<Rightarrow> bool" where
  "worth_persisting entry now \<longleftrightarrow> ae_recent_failures entry \<noteq> []
     \<or> (case ae_ban_until entry of None \<Rightarrow> False | Some u \<Rightarrow> now < u)
     \<or> 0 < ae_ban_count entry \<or> ae_last_failure entry \<noteq> None \<or> ae_last_success entry \<noteq> None"

fun retain_active ::
  "chrono_lib \<Rightarrow> int \<Rightarrow> fail2ban_settings \<Rightarrow> abuse_core \<Rightarrow> abuse_core \<times> bool" where
  \<comment> \<open>\<^verbatim>\<open>entries.retain\<close>: prunes each entry and keeps the active ones; a panic stops it\<close>
  "retain_active C now settings [] = ([], True)"
| "retain_active C now settings ((ip, entry) # rest) =
     (let (entry, ok) = prune_failures C entry now (fs_find_time settings) in
      if \<not> ok then ((ip, entry) # rest, False)
      else
        (let (kept, ok) = retain_active C now settings rest in
         (if worth_persisting entry now then (ip, entry) # kept else kept, ok)))"

definition snapshot_for_persistence ::
  "chrono_lib \<Rightarrow> abuse_core \<Rightarrow> int \<Rightarrow> fail2ban_settings \<Rightarrow> abuse_core \<times> persisted_state option" where
  "snapshot_for_persistence C core now settings =
     (let (core, ok) = retain_active C now settings core in
      (core, if ok then Some (foldl (\<lambda>m (ip, entry). hm_insert (display_ip ip) entry m) [] core)
             else None))"

subsection \<open>Windows\<close>

lemma prune_failures_frame [frame_simps, simp]:
  assumes "prune_failures C entry now window = (entry', ok)"
  shows "ae_ban_until entry' = ae_ban_until entry" "ae_ban_count entry' = ae_ban_count entry"
    "ae_last_failure entry' = ae_last_failure entry" "ae_last_success entry' = ae_last_success entry"
    "ae_total_failures entry' = ae_total_failures entry"
    "ae_recent_usernames entry' = ae_recent_usernames entry"
    "ae_recent_target_servers entry' = ae_recent_target_servers entry"
  using assms by (auto simp: prune_failures_def split: option.splits prod.splits)

lemma prune_front_suffix: "prune_front C now w ts = (ts', ok) \<Longrightarrow> \<exists>pre. ts = pre @ ts'"
  by (induction ts) (auto split: option.splits if_splits)

lemma prune_front_fits:
  "(\<forall>t. ch_add C t w = Some (t + w)) \<Longrightarrow> prune_front C now w ts = (dropWhile (\<lambda>t. t + w < now) ts, True)"
  by (induction ts) auto

lemma prune_failures_fits:
  "chrono_fits C window \<Longrightarrow> prune_failures C entry now window
     = (entry\<lparr>ae_recent_failures := dropWhile (\<lambda>t. t + int window < now) (ae_recent_failures entry)\<rparr>, True)"
  by (simp add: prune_failures_def chrono_fits_def prune_front_fits)

lemma dropWhile_sorted_filter:
  fixes now w :: int
  shows "sorted ts \<Longrightarrow> dropWhile (\<lambda>t. t + w < now) ts = filter (\<lambda>t. now \<le> t + w) ts"
proof (induction ts)
  case (Cons a ts)
  show ?case
  proof (cases "a + w < now")
    case False
    with Cons.prems have "\<forall>t\<in>set ts. now \<le> t + w" by fastforce
    with False show ?thesis by simp
  qed (use Cons in simp)
qed simp

definition recents :: "abuse_core \<Rightarrow> ip_addr \<Rightarrow> int list" where
  "recents core ip = ae_recent_failures (hm_entry_or ip default_entry core)"

declare hm.get_put [simp]

lemma hm_entry_or_insert [simp]: "hm_entry_or ip d (hm_insert ip e core) = e"
  by (simp add: hm_entry_or_def)

lemma note_failure_simps [simp]:
  "ae_recent_failures (note_failure e u v now) = ae_recent_failures e @ [now]"
  "ae_ban_until (note_failure e u v now) = ae_ban_until e"
  "ae_ban_count (note_failure e u v now) = ae_ban_count e"
  "ae_last_failure (note_failure e u v now) = Some now"
  by (simp_all add: note_failure_def)

subsection \<open>Checking an address\<close>

lemma check_ip_other:
  "check_ip C L core ip now s = (core', r) \<Longrightarrow> ip' \<noteq> ip \<Longrightarrow> hm_get core' ip' = hm_get core ip'"
  by (auto simp: check_ip_def Let_def split: if_splits option.splits prod.splits)

lemma record_failure_other:
  "record_failure C L core ip u v now s = (core', r) \<Longrightarrow> ip' \<noteq> ip \<Longrightarrow> hm_get core' ip' = hm_get core ip'"
  by (auto simp: record_failure_def Let_def split: if_splits option.splits prod.splits)

lemma record_success_other:
  "ip' \<noteq> ip \<Longrightarrow> hm_get (record_success L core ip now s) ip' = hm_get core ip'"
  by (auto simp: record_success_def split: option.splits)

definition active_ban :: "abuse_core \<Rightarrow> ip_addr \<Rightarrow> int \<Rightarrow> int option" where
  \<comment> \<open>the end of the ban in force at a time\<close>
  "active_ban core ip now = (case Option.bind (hm_get core ip) ae_ban_until of
     Some u \<Rightarrow> if now < u then Some u else None | None \<Rightarrow> None)"

lemma check_ip_guarded:
  assumes "fs_enabled s" and "\<not> is_whitelisted L s ip" and "check_ip C L core ip now s = (core', Some r)"
  shows "pc_ban_until r = active_ban core ip now"
    and "pc_banned r = (active_ban core ip now \<noteq> None)"
    and "pc_ban_duration r = map_option (\<lambda>u. nat (u - now)) (active_ban core ip now)"
    and "\<not> pc_whitelisted r"
    and "pc_had_state r = hm_contains core ip"
    and "pc_expired_ban r = (\<exists>u. Option.bind (hm_get core ip) ae_ban_until = Some u \<and> u \<le> now)"
    and "Option.bind (hm_get core' ip) ae_ban_until = active_ban core ip now"
proof -
  consider (none) "hm_get core ip = None" | (entry) e where "hm_get core ip = Some e" by auto
  then have "pc_ban_until r = active_ban core ip now \<and> pc_banned r = (active_ban core ip now \<noteq> None)
    \<and> pc_ban_duration r = map_option (\<lambda>u. nat (u - now)) (active_ban core ip now)
    \<and> \<not> pc_whitelisted r \<and> pc_had_state r = hm_contains core ip
    \<and> pc_expired_ban r = (\<exists>u. Option.bind (hm_get core ip) ae_ban_until = Some u \<and> u \<le> now)
    \<and> Option.bind (hm_get core' ip) ae_ban_until = active_ban core ip now"
  proof cases
    case none
    with assms show ?thesis by (auto simp: check_ip_def active_ban_def idle_check_def hm_contains_def)
  next
    case (entry e)
    obtain e' ok where p: "prune_failures C e now (fs_find_time s) = (e', ok)" by fastforce
    with assms entry have ok by (auto simp: check_ip_def split: if_splits)
    with assms entry p prune_failures_frame [OF p] show ?thesis
      by (cases "ae_ban_until e")
        (auto simp: check_ip_def active_ban_def idle_check_def hm_contains_def Let_def split: if_splits)
  qed
  then show "pc_ban_until r = active_ban core ip now"
    and "pc_banned r = (active_ban core ip now \<noteq> None)"
    and "pc_ban_duration r = map_option (\<lambda>u. nat (u - now)) (active_ban core ip now)"
    and "\<not> pc_whitelisted r"
    and "pc_had_state r = hm_contains core ip"
    and "pc_expired_ban r = (\<exists>u. Option.bind (hm_get core ip) ae_ban_until = Some u \<and> u \<le> now)"
    and "Option.bind (hm_get core' ip) ae_ban_until = active_ban core ip now"
    by blast+
qed

lemma check_ip_unguarded:
  "\<not> fs_enabled s \<or> is_whitelisted L s ip \<Longrightarrow> check_ip C L core ip now s
     = (core, Some (idle_check\<lparr>pc_whitelisted := fs_enabled s,
          pc_had_state := fs_enabled s \<and> hm_contains core ip\<rparr>))"
  by (auto simp: check_ip_def idle_check_def)


subsection \<open>Recording a failure\<close>

lemma record_failure_guarded:
  \<comment> \<open>the whole step for a guarded address, once pruning is known not to panic\<close>
  assumes "fs_enabled s" and "\<not> is_whitelisted L s ip" and "chrono_fits C (fs_find_time s)"
    and "window = dropWhile (\<lambda>t. t + int (fs_find_time s) < now) (recents core ip)"
    and "record_failure C L core ip u v now s = (core', r)"
  shows "recents core' ip = window @ [now]"
    and "r = Some out \<Longrightarrow> (fo_ban_event out \<noteq> None)
      = (fs_max_failures s \<le> unat (word_of_nat (Suc (length window)) :: 32 word))"
proof -
  let ?e = "hm_entry_or ip default_entry core"
  let ?e' = "note_failure (?e\<lparr>ae_recent_failures := window\<rparr>) u v now"
  have p: "prune_failures C ?e now (fs_find_time s) = (?e\<lparr>ae_recent_failures := window\<rparr>, True)"
    using assms(3,4) by (simp add: prune_failures_fits recents_def)
  show "recents core' ip = window @ [now]"
    using assms(1,2,5) p
    by (auto simp: record_failure_def Let_def recents_def split: if_splits option.splits)
  show "(fo_ban_event out \<noteq> None)
      = (fs_max_failures s \<le> unat (word_of_nat (Suc (length window)) :: 32 word))" if "r = Some out"
    using assms(1,2,5) p that
    by (auto simp: record_failure_def Let_def split: if_splits option.splits)
qed

lemma recents_other:
  "record_failure C L core ip u v now s = (core', r) \<Longrightarrow> ip' \<noteq> ip \<Longrightarrow> recents core' ip' = recents core ip'"
  using record_failure_other by (simp add: recents_def hm_entry_or_def)

type_synonym failure = "ip_addr \<times> string option \<times> string option \<times> int"

definition failures_of :: "ip_addr \<Rightarrow> failure list \<Rightarrow> int list" where
  \<comment> \<open>the times of one address's failures\<close>
  "failures_of ip fs = map (\<lambda>(_, _, _, t). t) (filter (\<lambda>(a, _). a = ip) fs)"

definition record_all ::
  "chrono_lib \<Rightarrow> fail2ban_libs \<Rightarrow> fail2ban_settings \<Rightarrow> abuse_core \<Rightarrow> failure list \<Rightarrow> abuse_core" where
  "record_all C L s core fs =
     foldl (\<lambda>core (ip, u, v, t). fst (record_failure C L core ip u v t s)) core fs"

lemma failures_of_simps [simp]:
  "failures_of ip [] = []"
  "failures_of ip (fs @ [(a, u, v, t)]) = failures_of ip fs @ (if a = ip then [t] else [])"
  by (simp_all add: failures_of_def)

lemma record_all_simps [simp]:
  "record_all C L s core [] = core"
  "record_all C L s core (fs @ [(a, u, v, t)])
     = fst (record_failure C L (record_all C L s core fs) a u v t s)"
  by (simp_all add: record_all_def)

lemma unat_u32: "n < 2 ^ 32 \<Longrightarrow> unat (word_of_nat n :: 32 word) = n"
  by (simp add: unsigned_of_nat take_bit_nat_eq_self)

lemma filter_window_narrow:
  fixes w :: int
  assumes "sorted ts" and "earlier \<le> now"
  shows "dropWhile (\<lambda>t. t + w < now) (filter (\<lambda>t. earlier \<le> t + w) ts) = filter (\<lambda>t. now \<le> t + w) ts"
proof -
  have "sorted (filter (\<lambda>t. earlier \<le> t + w) ts)" using assms(1) by (simp add: sorted_filter [where f = id, simplified])
  then have "dropWhile (\<lambda>t. t + w < now) (filter (\<lambda>t. earlier \<le> t + w) ts)
      = filter (\<lambda>t. now \<le> t + w) (filter (\<lambda>t. earlier \<le> t + w) ts)"
    by (rule dropWhile_sorted_filter)
  also have "\<dots> = filter (\<lambda>t. now \<le> t + w) ts"
    using assms(2) by (auto intro: filter_cong)
  finally show ?thesis .
qed

lemma window_after_failures:
  \<comment> \<open>the stored deque is the history seen through a window that only moves forward\<close>
  assumes "fs_enabled s" and "\<not> is_whitelisted L s ip" and "chrono_fits C (fs_find_time s)"
    and "recents core ip = []" and "sorted (map (\<lambda>(_, _, _, t). t) fs)"
  shows "\<exists>earlier. (fs = [] \<or> earlier \<le> (case last fs of (_, _, _, t) \<Rightarrow> t))
    \<and> recents (record_all C L s core fs) ip
       = filter (\<lambda>t. earlier \<le> t + int (fs_find_time s)) (failures_of ip fs)"
  using assms(5)
proof (induction fs rule: rev_induct)
  case Nil
  then show ?case using assms(4) by simp
next
  case (snoc f fs)
  obtain a u v t where f: "f = (a, u, v, t)" by (cases f)
  let ?core = "record_all C L s core fs" and ?w = "int (fs_find_time s)"
  from snoc f have sorted: "sorted (map (\<lambda>(_, _, _, t). t) fs)"
    and before: "\<forall>x\<in>set fs. (case x of (_, _, _, x) \<Rightarrow> x \<le> t)"
    by (auto simp: sorted_append)
  with snoc.IH obtain earlier where
    earlier: "fs = [] \<or> earlier \<le> (case last fs of (_, _, _, t) \<Rightarrow> t)"
      "recents ?core ip = filter (\<lambda>t. earlier \<le> t + ?w) (failures_of ip fs)" by blast
  define e where "e = (if fs = [] then t else earlier)"
  have e: "e \<le> t" "recents ?core ip = filter (\<lambda>t. e \<le> t + ?w) (failures_of ip fs)"
    using earlier before last_in_set [of fs] by (fastforce simp: e_def)+
  obtain core' r where step: "record_failure C L ?core a u v t s = (core', r)" by fastforce
  show ?case
  proof (cases "a = ip")
    case False
    with f step e recents_other [OF step, of ip] show ?thesis by (auto intro!: exI [of _ e])
  next
    case True
    have "sorted (failures_of ip fs)"
      using sorted by (auto simp: failures_of_def intro: sorted_filter)
    then have "recents core' ip = filter (\<lambda>x. t \<le> x + ?w) (failures_of ip fs) @ [t]"
      using record_failure_guarded(1) [OF assms(1,2,3) refl step [unfolded True]] e
      by (simp add: filter_window_narrow)
    with f True step show ?thesis by (auto intro!: exI [of _ t])
  qed
qed

text \<open>
  C30: The ban threshold counts a true sliding window.  After any sequence of failures of any
  addresses in time order, the next failure of a guarded address brings a ban exactly when
  the number of that address's failures not older than the window, this one included, has
  reached the limit: failures of other addresses never count, old ones never do, and none in
  the window is lost.
\<close>
theorem sliding_window_threshold:
  assumes "fs_enabled s" and "\<not> is_whitelisted L s ip" and "chrono_fits C (fs_find_time s)"
    and "recents core ip = []"
    and "sorted (map (\<lambda>(_, _, _, t). t) (fs @ [(ip, u, v, now)]))"
    and "length fs < 2 ^ 32 - 1"
    and "record_failure C L (record_all C L s core fs) ip u v now s = (core', Some out)"
  shows "fo_ban_event out \<noteq> None \<longleftrightarrow> fs_max_failures s
    \<le> length (filter (\<lambda>t. now \<le> t + int (fs_find_time s)) (failures_of ip fs @ [now]))"
proof -
  let ?core = "record_all C L s core fs" and ?w = "int (fs_find_time s)"
  have sorted: "sorted (map (\<lambda>(_, _, _, t). t) fs)"
    and before: "\<forall>x\<in>set fs. (case x of (_, _, _, x) \<Rightarrow> x \<le> now)"
    using assms(5) by (auto simp: sorted_append)
  obtain earlier where
    earlier: "fs = [] \<or> earlier \<le> (case last fs of (_, _, _, t) \<Rightarrow> t)"
      "recents ?core ip = filter (\<lambda>t. earlier \<le> t + ?w) (failures_of ip fs)"
    using window_after_failures [OF assms(1-4) sorted] by blast
  define e where "e = (if fs = [] then now else earlier)"
  have e: "e \<le> now" "recents ?core ip = filter (\<lambda>t. e \<le> t + ?w) (failures_of ip fs)"
    using earlier before last_in_set [of fs] by (fastforce simp: e_def)+
  have "sorted (failures_of ip fs)"
    using sorted by (auto simp: failures_of_def intro: sorted_filter)
  then have window: "dropWhile (\<lambda>t. t + ?w < now) (recents ?core ip)
      = filter (\<lambda>t. now \<le> t + ?w) (failures_of ip fs)"
    using e by (simp add: filter_window_narrow)
  have "length (filter (\<lambda>t. now \<le> t + ?w) (failures_of ip fs)) \<le> length fs"
    by (metis failures_of_def length_filter_le length_map le_trans)
  then have "unat (word_of_nat (Suc (length (filter (\<lambda>t. now \<le> t + ?w) (failures_of ip fs)))) :: 32 word)
      = Suc (length (filter (\<lambda>t. now \<le> t + ?w) (failures_of ip fs)))"
    using assms(6) by (intro unat_u32) simp
  then show ?thesis
    using record_failure_guarded(2) [OF assms(1-3) refl assms(7) refl] window by simp
qed

subsection \<open>Backoff\<close>

definition ge_one :: "f64 \<Rightarrow> bool" where
  "ge_one x \<longleftrightarrow> x = PInf \<or> (\<exists>q \<ge> 1. x = Fin q)"

lemma f_mul_ge_one:
  assumes "ge_one a" and "ge_one b"
  shows "ge_one (f_mul a b)"
proof (cases "a = PInf \<or> b = PInf")
  case True
  with assms show ?thesis by (auto simp: ge_one_def f_signed_inf_def)
next
  case False
  then obtain p q where pq: "a = Fin p" "1 \<le> p" "b = Fin q" "1 \<le> q"
    using assms by (auto simp: ge_one_def)
  then have "of_nat 1 \<le> p * q" using mult_mono [of 1 p 1 q] by simp
  from f64_of_rat_ge [OF this] pq show ?thesis by (auto simp: ge_one_def)
qed

lemma powi_loop_ge_one: "ge_one r \<Longrightarrow> ge_one a \<Longrightarrow> ge_one (powi_loop r a b)"
proof (induction r a b rule: powi_loop.induct)
  case (1 r a b)
  show ?case
    by (subst powi_loop.simps) (use 1 f_mul_ge_one in \<open>auto simp: Let_def\<close>)
qed

lemma f_powi_ge_one: "ge_one a \<Longrightarrow> 0 \<le> n \<Longrightarrow> ge_one (f_powi a n)"
  using powi_loop_ge_one [of "Fin 1" a "nat n"] by (simp add: f_powi_def Let_def ge_one_def)

lemma as_secs_f64_whole: "k < 2 ^ 53 \<Longrightarrow> as_secs_f64 (from_secs k) = Fin (of_nat k)"
  using f64_of_nat [of k] f64_of_nat [of 0] f64_of_nat [of nanos_per_sec]
  by (simp add: as_secs_f64_def from_secs_def nanos_per_sec_def)

lemma from_secs_f64_ge:
  "from_secs_f64 (Fin q) = Some d \<Longrightarrow> of_nat k \<le> q \<Longrightarrow> from_secs k \<le> d"
proof -
  assume a: "from_secs_f64 (Fin q) = Some d" "of_nat k \<le> q"
  have "of_int (int (k * nanos_per_sec)) \<le> q * of_nat nanos_per_sec"
    using a(2) by (simp add: nanos_per_sec_def)
  then have "int (k * nanos_per_sec) \<le> round_even (q * of_nat nanos_per_sec)"
    by (metis round_even_int round_even_mono)
  then have "k * nanos_per_sec \<le> nat (round_even (q * of_nat nanos_per_sec))" by linarith
  with a show ?thesis
    by (simp add: from_secs_f64_def from_secs_def Let_def split: if_splits)
qed

lemma mul_f64_ge:
  assumes "ge_one scale" and "k < 2 ^ 53" and "mul_f64 (from_secs k) scale = Some d"
  shows "from_secs k \<le> d"
proof (cases "k = 0")
  case False
  show ?thesis
  proof (cases "scale = PInf")
    case True
    with assms False show ?thesis
      by (simp add: mul_f64_def as_secs_f64_whole from_secs_f64_def f_signed_inf_def)
  next
    case False
    with assms(1) obtain q where q: "scale = Fin q" "1 \<le> q" by (auto simp: ge_one_def)
    then have "of_nat k \<le> q * of_nat k" by (simp add: mult_le_cancel_right1)
    from f64_of_rat_ge [OF this assms(2)] q assms show ?thesis
      by (auto simp: mul_f64_def as_secs_f64_whole from_secs_f64_ge)
        (simp add: from_secs_f64_def)
  qed
qed (simp add: from_secs_def)

text \<open>
  A ban never outlasts the configured maximum; and as long as the address has fewer than
  2^31 bans, a base time of whole seconds and a multiplier of at least one never give a ban
  shorter than the base time, whatever rounding the floating-point backoff suffers.
\<close>
theorem ban_duration_bounds:
  assumes "compute_ban_duration s n = Some d" and "settings_sane s"
    and "fs_backoff_multiplier s \<noteq> NaN" and "fs_ban_time s = from_secs k" and "k < 2 ^ 53"
    and "0 \<le> sint n"
  shows "fs_ban_time s \<le> d \<and> d \<le> fs_max_ban_time s"
proof -
  have "ge_one (fs_backoff_multiplier s)"
    using assms(2,3) by (cases "fs_backoff_multiplier s") (auto simp: settings_sane_def ge_one_def)
  then have "ge_one (f_powi (fs_backoff_multiplier s) (sint n))"
    using assms(6) by (rule f_powi_ge_one)
  then have "from_secs k \<le> x" if "mul_f64 (fs_ban_time s) (f_powi (fs_backoff_multiplier s) (sint n)) = Some x" for x
    using mul_f64_ge assms(4,5) that by simp
  then show ?thesis
    using assms(1,2,4) by (auto simp: compute_ban_duration_def settings_sane_def)
qed

lemma sint_u32: "n < 2 ^ 31 \<Longrightarrow> sint (word_of_nat n :: 32 word) = int n"
  by (simp add: signed_of_nat signed_take_bit_int_eq_self)

lemma default_backoff_exact:
  assumes "n \<le> 1000"
  shows "compute_ban_duration default_fail2ban_settings (word_of_nat n)
    = (if n < 55 then Some (from_secs (min (600 * 2 ^ n) 86400)) else None)"
proof -
  have "(600 :: nat) * 2 ^ n \<le> 2 ^ 10 * 2 ^ n" by simp
  also have "\<dots> = 2 ^ (10 + n)" by (simp add: power_add)
  also have "\<dots> < 2 ^ 1024" using assms by (intro power_strict_increasing) simp_all
  finally have "f64_of_rat (of_nat 600 * 2 ^ n) = Fin (of_nat 600 * 2 ^ n)"
    by (intro f64_of_scaled) simp_all
  then have mul: "mul_f64 (from_secs 600) (Fin (2 ^ n)) = from_secs_f64 (Fin (600 * 2 ^ n))"
    by (simp add: mul_f64_def as_secs_f64_whole mult.commute)
  have "600 * 2 ^ n * of_nat nanos_per_sec = (of_int (int (from_secs (600 * 2 ^ n))) :: rat)"
    by (simp add: from_secs_def)
  then have from_f: "from_secs_f64 (Fin (600 * 2 ^ n)) =
      (if 600 * 2 ^ n < (2 :: nat) ^ 64 then Some (from_secs (600 * 2 ^ n)) else None)"
    by (simp add: from_secs_f64_def Let_def round_even_int del: of_int_of_nat_eq)
      (simp add: from_secs_def nanos_per_sec_def)
  have "(600 :: nat) * 2 ^ n < 2 ^ 64 \<longleftrightarrow> n < 55"
  proof
    show "(600 :: nat) * 2 ^ n < 2 ^ 64" if "n < 55"
    proof -
      have "(2 :: nat) ^ n \<le> 2 ^ 54" using that by (intro power_increasing) simp_all
      then show ?thesis by simp
    qed
    show "n < 55" if "(600 :: nat) * 2 ^ n < 2 ^ 64"
    proof (rule ccontr)
      assume "\<not> n < 55"
      then have "(2 :: nat) ^ 55 \<le> 2 ^ n" by (intro power_increasing) simp_all
      with that show False by simp
    qed
  qed
  moreover have "min (from_secs a) (from_secs b) = from_secs (min a b)" for a b
    by (simp add: from_secs_def min_def)
  ultimately show ?thesis
    using assms mul from_f
    by (simp add: compute_ban_duration_def default_fail2ban_settings_def sint_u32 f_powi_two)
qed

text \<open>
  With the default settings the backoff is exactly doubling: the ban after n earlier
  bans is min(600 * 2^n, 86400) seconds for n below 55.  From the 56th ban on the
  multiplication overflows before the cap is applied and the code panics.
\<close>
theorem default_backoff:
  assumes "n \<le> 1000"
  shows "compute_ban_duration default_fail2ban_settings (word_of_nat n)
    = (if n < 55 then Some (from_secs (min (600 * 2 ^ n) 86400)) else None)"
  using assms by (rule default_backoff_exact)

lemma default_backoff_witness:
  "compute_ban_duration default_fail2ban_settings (word_of_nat 55) = None
   \<and> compute_ban_duration default_fail2ban_settings (word_of_nat 3) = Some (from_secs 4800)"
  using default_backoff [of 55] default_backoff [of 3] by simp

lemma ban_duration_bounds_witness:
  "fs_ban_time default_fail2ban_settings \<le> from_secs 4800
   \<and> from_secs 4800 \<le> fs_max_ban_time default_fail2ban_settings"
proof (rule ban_duration_bounds [where n = 3 and k = 600])
  show "compute_ban_duration default_fail2ban_settings 3 = Some (from_secs 4800)"
  proof -
    have "mul_f64 (from_secs 600) (Fin 8) = from_secs_f64 (Fin 4800)"
      using f64_of_nat [of 4800] by (simp add: mul_f64_def as_secs_f64_whole)
    also have "\<dots> = Some (from_secs 4800)"
      using round_even_int [of 4800000000000]
      by (simp add: from_secs_f64_def from_secs_def nanos_per_sec_def)
    finally show ?thesis
      using f_powi_two [of 3]
      by (simp add: compute_ban_duration_def default_fail2ban_settings_def)
        (simp add: from_secs_def nanos_per_sec_def)
  qed
  show "fs_ban_time default_fail2ban_settings = from_secs 600"
    by (simp add: default_fail2ban_settings_def)
qed (simp_all add: settings_sane_def default_fail2ban_settings_def from_secs_def nanos_per_sec_def)

subsection \<open>Sequences of operations\<close>

datatype abuse_op =
    CheckIp ip_addr int
  | RecordFailure ip_addr "string option" "string option" int
  | RecordSuccess ip_addr int
  | Snapshot int

fun apply_op :: "chrono_lib \<Rightarrow> fail2ban_libs \<Rightarrow> fail2ban_settings \<Rightarrow> abuse_core \<Rightarrow> abuse_op \<Rightarrow> abuse_core" where
  "apply_op C L s core (CheckIp ip now) = fst (check_ip C L core ip now s)"
| "apply_op C L s core (RecordFailure ip u v now) = fst (record_failure C L core ip u v now s)"
| "apply_op C L s core (RecordSuccess ip now) = record_success L core ip now s"
| "apply_op C L s core (Snapshot now) = fst (snapshot_for_persistence C core now s)"

fun op_time :: "abuse_op \<Rightarrow> int" where
  "op_time (CheckIp ip now) = now"
| "op_time (RecordFailure ip u v now) = now"
| "op_time (RecordSuccess ip now) = now"
| "op_time (Snapshot now) = now"

fun fails :: "ip_addr \<Rightarrow> abuse_op \<Rightarrow> bool" where
  "fails ip (RecordFailure a u v now) = (a = ip)"
| "fails ip _ = False"

fun op_wf :: "abuse_op \<Rightarrow> bool" where
  "op_wf (CheckIp ip now) = ip_wf ip"
| "op_wf (RecordFailure ip u v now) = ip_wf ip"
| "op_wf (RecordSuccess ip now) = ip_wf ip"
| "op_wf (Snapshot now) = True"

definition same_but_window :: "abuse_entry \<Rightarrow> abuse_entry \<Rightarrow> bool" where
  "same_but_window e e' \<longleftrightarrow> (\<exists>fs. e' = e\<lparr>ae_recent_failures := fs\<rparr>)"

lemma same_but_window_refl [simp]: "same_but_window e e"
  unfolding same_but_window_def by (rule exI [of _ "ae_recent_failures e"]) simp

lemma prune_failures_same:
  assumes "prune_failures C e now w = (e', ok)"
  shows "same_but_window e e'"
proof (cases "ch_from_std C w")
  case (Some d)
  obtain fs b where "prune_front C now d (ae_recent_failures e) = (fs, b)" by fastforce
  with assms Some have "e' = e\<lparr>ae_recent_failures := fs\<rparr>" by (simp add: prune_failures_def)
  then show ?thesis unfolding same_but_window_def by (rule exI)
qed (use assms in \<open>simp add: prune_failures_def\<close>)

lemma retain_active_keys: "retain_active C now s core = (core', ok) \<Longrightarrow> fst ` set core' \<subseteq> fst ` set core"
proof (induction C now s core arbitrary: core' ok rule: retain_active.induct)
  case (2 C now s ip entry rest)
  obtain e' b where p: "prune_failures C entry now (fs_find_time s) = (e', b)" by fastforce
  obtain kept b' where r: "retain_active C now s rest = (kept, b')" by fastforce
  have "b \<Longrightarrow> fst ` set kept \<subseteq> fst ` set rest" using "2.IH" p r by simp
  then have "b \<Longrightarrow> insert ip (fst ` set kept) \<subseteq> fst ` set ((ip, entry) # rest)" by auto
  moreover have "core' = (if \<not> b then (ip, e') # rest
      else if worth_persisting e' now then (ip, e') # kept else kept)"
    using "2.prems" p r by (simp split: if_splits)
  ultimately show ?case by simp
qed simp

lemma retain_active_wf:
  "retain_active C now s core = (core', ok) \<Longrightarrow> hm_wf core \<Longrightarrow> hm_wf core'"
proof (induction C now s core arbitrary: core' ok rule: retain_active.induct)
  case (2 C now s ip entry rest)
  obtain e' b where p: "prune_failures C entry now (fs_find_time s) = (e', b)" by fastforce
  obtain kept b' where r: "retain_active C now s rest = (kept, b')" by fastforce
  show ?case
  proof (cases b)
    case True
    have "hm_wf kept" using 2 p r True by (simp add: hm_wf_def)
    moreover have "ip \<notin> fst ` set kept"
      using retain_active_keys [OF r] "2.prems"(2) by (auto simp: hm_wf_def)
    ultimately show ?thesis using "2.prems" p r True by (auto simp: hm_wf_def split: if_splits)
  qed (use 2 p in \<open>auto simp: hm_wf_def\<close>)
qed simp

lemma retain_active_get:
  "retain_active C now s core = (core', ok) \<Longrightarrow> hm_wf core \<Longrightarrow>
   (case hm_get core ip of
      None \<Rightarrow> hm_get core' ip = None
    | Some e \<Rightarrow> (\<exists>e'. same_but_window e e' \<and>
        (hm_get core' ip = Some e' \<or> hm_get core' ip = None \<and> \<not> worth_persisting e' now)))"
proof (induction C now s core arbitrary: core' ok rule: retain_active.induct)
  case (2 C now s a entry rest)
  obtain e' b where p: "prune_failures C entry now (fs_find_time s) = (e', b)" by fastforce
  obtain kept b' where r: "retain_active C now s rest = (kept, b')" by fastforce
  note same = prune_failures_same [OF p]
  have wf: "hm_wf rest" using "2.prems"(2) by (simp add: hm_wf_def)
  show ?case
  proof (cases b)
    case False
    with "2.prems" p same show ?thesis by (auto simp: hm_get_def split: option.splits)
  next
    case True
    have "hm_get kept a = None"
      using retain_active_keys [OF r] "2.prems"(2) by (auto simp: hm_wf_def hm_get_def map_of_eq_None_iff)
    with "2.IH" [OF p [symmetric] refl _ r wf] "2.prems"(1) p r True same show ?thesis
      by (cases "a = ip") (auto simp: hm_get_def split: option.splits if_splits)
  qed
qed (simp add: hm_get_def)

lemma snapshot_core: "fst (snapshot_for_persistence C core now s) = fst (retain_active C now s core)"
  by (simp add: snapshot_for_persistence_def split: prod.split)

lemma same_but_window_simps:
  assumes "same_but_window e e'"
  shows "ae_ban_until e' = ae_ban_until e" "ae_ban_count e' = ae_ban_count e"
    "ae_last_failure e' = ae_last_failure e" "ae_last_success e' = ae_last_success e"
    "ae_recent_usernames e' = ae_recent_usernames e"
    "ae_recent_target_servers e' = ae_recent_target_servers e"
  using assms by (auto simp: same_but_window_def)

lemma snapshot_wf: "hm_wf core \<Longrightarrow> hm_wf (fst (snapshot_for_persistence C core now s))"
  using retain_active_wf [OF prod.collapse [symmetric]] by (simp add: snapshot_core)

lemma snapshot_get:
  assumes "hm_wf core"
  shows "case hm_get core ip of
      None \<Rightarrow> hm_get (fst (snapshot_for_persistence C core now s)) ip = None
    | Some e \<Rightarrow> (\<exists>e'. same_but_window e e' \<and>
        (hm_get (fst (snapshot_for_persistence C core now s)) ip = Some e'
         \<or> hm_get (fst (snapshot_for_persistence C core now s)) ip = None \<and> \<not> worth_persisting e' now))"
  using retain_active_get [OF prod.collapse [symmetric] assms] by (simp only: snapshot_core)

subsection \<open>What every sequence of operations keeps\<close>

definition recent_ok :: "string list \<Rightarrow> bool" where
  "recent_ok vs \<longleftrightarrow> length vs \<le> 5 \<and> distinct vs \<and> [] \<notin> set vs"

definition entry_ok :: "abuse_entry \<Rightarrow> bool" where
  "entry_ok e \<longleftrightarrow> recent_ok (ae_recent_usernames e) \<and> recent_ok (ae_recent_target_servers e)
     \<and> ae_last_failure e \<noteq> None \<and> (ae_ban_until e \<noteq> None \<longrightarrow> 0 < ae_ban_count e)"

definition core_ok :: "abuse_core \<Rightarrow> bool" where
  "core_ok core \<longleftrightarrow> hm_wf core
     \<and> (\<forall>ip e. hm_get core ip = Some e \<longrightarrow> ip_wf ip \<and> entry_ok e)"

lemma push_recent_value_ok: "recent_ok vs \<Longrightarrow> recent_ok (push_recent_value vs v)"
  by (cases vs) (auto simp: recent_ok_def push_recent_value_def split: option.split)

lemma saturating_succ_pos: "0 < saturating_succ (x :: 'a::len word)"
proof -
  have "x + 1 \<noteq> 0" if "x \<noteq> - 1" using that by (simp add: eq_neg_iff_add_eq_0)
  then show ?thesis by (simp add: saturating_succ_def word_neq_0_conv [symmetric])
qed

lemma core_ok_insert: "core_ok core \<Longrightarrow> ip_wf ip \<Longrightarrow> entry_ok e \<Longrightarrow> core_ok (hm_insert ip e core)"
  by (auto simp: core_ok_def hm.wf_put split: if_splits)

lemma entry_ok_window: "same_but_window e e' \<Longrightarrow> entry_ok e' = entry_ok e"
  by (simp add: entry_ok_def same_but_window_simps)

lemma check_ip_ok:
  assumes "core_ok core" and "ip_wf ip"
  shows "core_ok (fst (check_ip C L core ip now s))"
proof (cases "hm_get core ip")
  case None
  with assms show ?thesis by (simp add: check_ip_def)
next
  case (Some e)
  obtain e' ok where p: "prune_failures C e now (fs_find_time s) = (e', ok)" by fastforce
  have e: "entry_ok e'"
    using assms(1) Some entry_ok_window [OF prune_failures_same [OF p]] by (simp add: core_ok_def)
  then have "entry_ok (e'\<lparr>ae_ban_until := None\<rparr>)" by (simp add: entry_ok_def)
  with assms Some p e show ?thesis
    by (simp add: check_ip_def Let_def core_ok_insert split: option.split)
qed

lemma record_failure_ok:
  assumes "core_ok core" and "ip_wf ip"
  shows "core_ok (fst (record_failure C L core ip u v now s))"
proof -
  let ?e = "hm_entry_or ip default_entry core"
  obtain e' ok where p: "prune_failures C ?e now (fs_find_time s) = (e', ok)" by fastforce
  note same = same_but_window_simps [OF prune_failures_same [OF p]]
  have known: "entry_ok ?e" if "hm_get core ip \<noteq> None"
    using assms(1) that by (auto simp: core_ok_def hm_entry_or_def)
  have fresh: "ok" if "hm_get core ip = None"
    using p that by (auto simp: hm_entry_or_def prune_failures_def default_entry_def split: option.splits)
  have "recent_ok (ae_recent_usernames ?e) \<and> recent_ok (ae_recent_target_servers ?e)
      \<and> (ae_ban_until ?e \<noteq> None \<longrightarrow> 0 < ae_ban_count ?e)"
    using known by (cases "hm_get core ip") (auto simp: entry_ok_def hm_entry_or_def default_entry_def recent_ok_def)
  then have noted: "entry_ok (note_failure e' u v now)"
    by (simp add: entry_ok_def note_failure_def push_recent_value_ok same)
  then have banned: "entry_ok (note_failure e' u v now\<lparr>ae_ban_until := b, ae_ban_count := saturating_succ n\<rparr>)" for b n
    by (simp add: entry_ok_def saturating_succ_pos)
  have "entry_ok e'" if "\<not> ok"
    using that known fresh entry_ok_window [OF prune_failures_same [OF p]] by blast
  with assms p noted banned show ?thesis
    by (simp add: record_failure_def Let_def core_ok_insert split: option.split)
qed

lemma record_success_ok:
  "core_ok core \<Longrightarrow> core_ok (record_success L core ip now s)"
  by (cases "hm_get core ip")
    (auto simp: record_success_def core_ok_def hm.wf_put entry_ok_def recent_ok_def split: option.split)

lemma snapshot_ok:
  assumes "core_ok core"
  shows "core_ok (fst (snapshot_for_persistence C core now s))"
proof -
  let ?core = "fst (snapshot_for_persistence C core now s)"
  have "ip_wf ip \<and> entry_ok e" if "hm_get ?core ip = Some e" for ip e
    using snapshot_get [where ip = ip and C = C and now = now and s = s and core = core] assms that entry_ok_window
    by (auto simp: core_ok_def split: option.splits)
  with assms show ?thesis by (simp add: core_ok_def snapshot_wf)
qed

lemma apply_op_ok [inv_intros]: "core_ok core \<Longrightarrow> op_wf op \<Longrightarrow> core_ok (apply_op C L s core op)"
  by (cases op) (simp_all add: check_ip_ok record_failure_ok record_success_ok snapshot_ok)

lemma core_ok_Nil: "core_ok []"
  by (simp add: core_ok_def hm_get_def hm_wf_def)

definition core_init :: "abuse_core \<Rightarrow> bool" where
  "core_init core \<longleftrightarrow> core = []"

definition core_step ::
  "chrono_lib \<Rightarrow> fail2ban_libs \<Rightarrow> abuse_core \<Rightarrow> fail2ban_settings \<times> abuse_op \<Rightarrow> abuse_core \<Rightarrow> bool" where
  \<comment> \<open>any operation at any moment, with whatever settings a reload has put in force\<close>
  "core_step C L core ev core' \<longleftrightarrow> op_wf (snd ev) \<and> core' = apply_op C L (fst ev) core (snd ev)"

interpretation abuse: machine_invariant core_init "core_step C L" core_ok for C L
  by unfold_locales (auto simp: core_init_def core_step_def core_ok_Nil apply_op_ok)


text \<open>
  An address that has failed once is never forgotten: in every reachable state, saving
  the state drops no entry, so the table only grows.
\<close>
theorem never_forgotten:
  assumes "reach core_init (core_step C L) core" and "hm_get core ip \<noteq> None"
  shows "hm_get (fst (snapshot_for_persistence C core now s)) ip \<noteq> None"
proof -
  obtain e where e: "hm_get core ip = Some e" using assms(2) by auto
  have ok: "core_ok core" by (rule abuse.reach_inv [OF assms(1)])
  then have "hm_wf core" "ae_last_failure e \<noteq> None" using e by (auto simp: core_ok_def entry_ok_def)
  with e snapshot_get [where ip = ip and C = C and now = now and s = s and core = core] show ?thesis
    by (auto simp: worth_persisting_def same_but_window_simps)
qed

subsection \<open>A ban stands until it expires\<close>

lemma active_ban_insert:
  "active_ban (hm_insert a e core) ip t = (if ip = a
     then (case ae_ban_until e of Some u \<Rightarrow> if t < u then Some u else None | None \<Rightarrow> None)
     else active_ban core ip t)"
  by (simp add: active_ban_def)

lemma fst_other:
  "ip' \<noteq> ip \<Longrightarrow> hm_get (fst (check_ip C L core ip now s)) ip' = hm_get core ip'"
  "ip' \<noteq> ip \<Longrightarrow> hm_get (fst (record_failure C L core ip u v now s)) ip' = hm_get core ip'"
  by (rule check_ip_other [OF prod.collapse [symmetric]], assumption,
      rule record_failure_other [OF prod.collapse [symmetric]], assumption)

lemma active_ban_check:
  assumes "now \<le> t"
  shows "active_ban (fst (check_ip C L core a now s)) ip t = active_ban core ip t"
proof (cases "hm_get core a")
  case (Some e)
  obtain e' ok where p: "prune_failures C e now (fs_find_time s) = (e', ok)" by fastforce
  note same = same_but_window_simps [OF prune_failures_same [OF p]]
  show ?thesis
  proof (cases "ip = a")
    case True
    show ?thesis
    proof (cases "ae_ban_until e")
      case None
      with True Some p same show ?thesis
        by (simp add: check_ip_def active_ban_insert) (simp add: active_ban_def)
    next
      case u: (Some u)
      with True Some p same assms show ?thesis
        by (auto simp: check_ip_def Let_def active_ban_def split: if_splits)
    qed
  next
    case False
    then show ?thesis by (simp add: active_ban_def fst_other)
  qed
qed (simp add: check_ip_def)

lemma active_ban_success: "active_ban (record_success L core a now s) ip t = active_ban core ip t"
  by (cases "hm_get core a")
    (auto simp: record_success_def active_ban_def split: option.split)

lemma active_ban_snapshot:
  assumes "hm_wf core" and "now \<le> t"
  shows "active_ban (fst (snapshot_for_persistence C core now s)) ip t = active_ban core ip t"
proof -
  let ?core = "fst (snapshot_for_persistence C core now s)"
  note get = snapshot_get [OF assms(1), where ip = ip and C = C and now = now and s = s]
  show ?thesis
  proof (cases "hm_get core ip")
    case (Some e)
    with get obtain e' where e': "same_but_window e e'"
      "hm_get ?core ip = Some e' \<or> hm_get ?core ip = None \<and> \<not> worth_persisting e' now" by auto
    then have "\<not> t < u" if "hm_get ?core ip = None" "ae_ban_until e = Some u" for u
      using that assms(2) same_but_window_simps(1) [OF e'(1)] by (auto simp: worth_persisting_def)
    with Some e' same_but_window_simps(1) [OF e'(1)] show ?thesis
      by (auto simp: active_ban_def split: option.splits)
  qed (use get in \<open>simp add: active_ban_def\<close>)
qed


text \<open>
  A failure that reports a ban puts it in force: the entry holds the reported end, which
  lies the reported duration after the failure, the event is a creation exactly for the
  address's first ban, the ban counter moves on, and a check of that address reports the ban
  at every moment before the end and at none from it on.
\<close>
theorem reported_ban_in_force:
  assumes "chrono_exact C"
    and "record_failure C L core ip u v now s = (core', Some out)"
    and "fo_ban_event out = Some b"
    and "check_ip C L core' ip t s = (core'', Some r)"
  shows "active_ban core' ip t = (if t < be_ban_until b then Some (be_ban_until b) else None)
    \<and> be_ban_until b = now + (case ch_from_std C (be_ban_duration b) of None \<Rightarrow> 0 | Some _ \<Rightarrow> int (be_ban_duration b))
    \<and> be_ban_duration b \<le> fs_max_ban_time s
    \<and> (be_kind b = BanCreated) = (ae_ban_count (hm_entry_or ip default_entry core) = 0)
    \<and> ae_ban_count (hm_entry_or ip default_entry core')
        = saturating_succ (ae_ban_count (hm_entry_or ip default_entry core))
    \<and> pc_banned r = (t < be_ban_until b)"
proof -
  have en: "fs_enabled s" "\<not> is_whitelisted L s ip"
    using assms(2,3) by (auto simp: record_failure_def quiet_outcome_def split: if_splits)
  let ?e = "hm_entry_or ip default_entry core"
  obtain e' where p: "prune_failures C ?e now (fs_find_time s) = (e', True)"
    using assms(2) en by (auto simp: record_failure_def Let_def split: prod.splits if_splits)
  define n where "n = note_failure e' u v now"
  note same = same_but_window_simps [OF prune_failures_same [OF p]]
  obtain d where d: "compute_ban_duration s (ae_ban_count ?e) = Some d" "be_ban_duration b = d"
    and u: "ch_add C now (unwrap_or 0 (ch_from_std C d)) = Some (be_ban_until b)"
    and core': "core' = hm_insert ip (n\<lparr>ae_ban_until := Some (be_ban_until b),
          ae_ban_count := saturating_succ (ae_ban_count ?e)\<rparr>) core"
    and k: "be_kind b = (if ae_ban_count ?e = 0 then BanCreated else BanExtended)"
    using assms(2,3) en p same
    by (auto simp: record_failure_def Let_def n_def bind_eq_Some_conv split: if_splits option.splits)
  have "be_ban_until b = now + unwrap_or 0 (ch_from_std C d)"
    using assms(1) u by (simp add: chrono_exact_def)
  also have "unwrap_or 0 (ch_from_std C d) = (case ch_from_std C d of None \<Rightarrow> 0 | Some _ \<Rightarrow> int d)"
    using assms(1) by (cases "ch_from_std C d") (auto simp: chrono_exact_def)
  finally have until: "be_ban_until b = now + (case ch_from_std C d of None \<Rightarrow> 0 | Some _ \<Rightarrow> int d)" .
  have ban: "active_ban core' ip t = (if t < be_ban_until b then Some (be_ban_until b) else None)"
    by (simp add: core' active_ban_insert)
  have banned: "pc_banned r = (t < be_ban_until b)"
    using check_ip_guarded(2) [OF en assms(4)] ban by simp
  have max: "d \<le> fs_max_ban_time s" using d(1) by (auto simp: compute_ban_duration_def)
  have count: "ae_ban_count (hm_entry_or ip default_entry core') = saturating_succ (ae_ban_count ?e)"
    by (simp add: core')
  show ?thesis
    using ban until [folded d(2)] banned max [folded d(2)] k count
    by (intro conjI) (assumption | simp)+
qed

text \<open>
  A success wipes the slate of an address without a ban in force, so that its next
  failure counts as the first, and leaves the failures of a banned address in place; every
  other address, and every whitelisted one, is untouched.
\<close>
theorem success_clears_failures:
  "recents (record_success L core ip now s) a =
     (if a = ip \<and> fs_enabled s \<and> \<not> is_whitelisted L s ip \<and> active_ban core ip now = None
      then [] else recents core a)"
  by (cases "hm_get core ip")
    (auto simp: record_success_def recents_def hm_entry_or_def active_ban_def default_entry_def
      split: option.splits if_splits)

subsection \<open>Instances\<close>

definition sample_chrono :: chrono_lib where
  \<comment> \<open>an instance of the parameters, for the witnesses\<close>
  "sample_chrono = \<lparr>ch_from_std = (\<lambda>d. Some (int d)), ch_add = (\<lambda>t d. Some (t + d))\<rparr>"

lemma sample_chrono_ok: "chrono_exact sample_chrono" "chrono_fits sample_chrono d"
  by (simp_all add: chrono_exact_def chrono_fits_def sample_chrono_def)

definition strict_settings :: fail2ban_settings where
  \<comment> \<open>the first failure bans\<close>
  "strict_settings = default_fail2ban_settings\<lparr>fs_max_failures := 1\<rparr>"

definition sample_ip :: ip_addr where
  "sample_ip = V4 [203, 0, 113, 9]"

lemma strict_settings_facts:
  "fs_enabled strict_settings" "\<not> is_whitelisted sample_libs strict_settings sample_ip"
  "ip_wf sample_ip"
  by (simp_all add: strict_settings_def default_fail2ban_settings_def is_whitelisted_def
      default_whitelist_def sample_libs_def sample_ip_def ip_wf_def)

definition banned_entry :: abuse_entry where
  "banned_entry = \<lparr>ae_recent_failures = [7], ae_total_failures = 1,
     ae_ban_until = Some (7 + int (from_secs 600)), ae_ban_count = 1, ae_last_failure = Some 7,
     ae_last_success = None, ae_recent_usernames = [''bob''], ae_recent_target_servers = []\<rparr>"

lemma strict_failure:
  "record_failure sample_chrono sample_libs [] sample_ip (Some ''bob'') None 7 strict_settings
   = ([(sample_ip, banned_entry)], Some \<lparr>fo_whitelisted = False, fo_delay = None,
        fo_ban_event = Some \<lparr>be_kind = BanCreated, be_ban_until = 7 + int (from_secs 600),
          be_ban_duration = from_secs 600\<rparr>\<rparr>)"
proof -
  have "compute_ban_duration strict_settings 0 = Some (from_secs 600)"
    using default_backoff_exact [of 0] by (simp add: compute_ban_duration_def strict_settings_def)
  then show ?thesis
    using strict_settings_facts
    by (simp add: record_failure_def Let_def prune_failures_fits sample_chrono_ok note_failure_def
        hm_entry_or_def hm_get_def default_entry_def push_recent_value_def saturating_succ_def
        hm_insert_def banned_entry_def)
      (simp add: strict_settings_def sample_chrono_def hm_insert_def saturating_succ_def)
qed

lemma strict_check:
  "check_ip sample_chrono sample_libs [(sample_ip, banned_entry)] sample_ip 8 strict_settings
   = ([(sample_ip, banned_entry)], Some \<lparr>pc_whitelisted = False, pc_had_state = True,
        pc_expired_ban = False, pc_banned = True, pc_ban_until = Some (7 + int (from_secs 600)),
        pc_ban_duration = Some (from_secs 600 - 1)\<rparr>)"
  using strict_settings_facts
  by (simp add: check_ip_def Let_def prune_failures_fits sample_chrono_ok hm_get_def
      hm_insert_def banned_entry_def strict_settings_def default_fail2ban_settings_def
      from_secs_def nanos_per_sec_def)

lemma strict_reachable: "reach core_init (core_step sample_chrono sample_libs) [(sample_ip, banned_entry)]"
proof (rule reach_step)
  show "core_step sample_chrono sample_libs []
      (strict_settings, RecordFailure sample_ip (Some ''bob'') None 7) [(sample_ip, banned_entry)]"
    by (simp add: core_step_def strict_failure strict_settings_facts)
qed (simp add: reach_init core_init_def)


lemma sliding_window_threshold_witness:
  "1 \<le> length (filter (\<lambda>t. 7 \<le> t + int (fs_find_time strict_settings)) (failures_of sample_ip [] @ [7]))"
proof -
  have "recents [] sample_ip = []" by (simp add: recents_def hm_entry_or_def hm_get_def default_entry_def)
  from sliding_window_threshold [OF strict_settings_facts(1,2) sample_chrono_ok(2) this,
      where fs = "[]" and u = "Some ''bob''" and v = None and now = 7] strict_failure
  show ?thesis by (simp add: strict_settings_def)
qed


lemma never_forgotten_witness:
  "hm_get (fst (snapshot_for_persistence sample_chrono [(sample_ip, banned_entry)] (10 ^ 20)
     strict_settings)) sample_ip \<noteq> None"
  by (rule never_forgotten [OF strict_reachable]) (simp add: hm_get_def)


lemma reported_ban_in_force_witness:
  "active_ban [(sample_ip, banned_entry)] sample_ip 8 = Some (7 + int (from_secs 600))"
  using reported_ban_in_force [OF sample_chrono_ok(1) strict_failure _ strict_check]
  by (simp add: from_secs_def nanos_per_sec_def)

end
