(* ===== verification/Os_Files.thy ===== *)
theory Os_Files
  imports Config_Types
begin

text \<open>
  The file-system side of the gateway: path handling as in \<^verbatim>\<open>std::path\<close> on Unix, the security
  checks of \<^verbatim>\<open>src/src/config/mod.rs\<close> (no symbolic links, mode, owner) and the replacement of
  a file through a temporary one, which \<^verbatim>\<open>config/mod.rs\<close> and \<^verbatim>\<open>abuse.rs\<close> share.  The operating
  system is the record \<^verbatim>\<open>os_ops\<close> of its calls; a call returns its result and the disk after
  it, also when it fails.
\<close>

subsection \<open>Paths\<close>

datatype path_component = RootDir | CurDir | ParentDir | Normal string

definition path_components :: "path_buf \<Rightarrow> path_component list" where
  \<comment> \<open>\<^verbatim>\<open>Path::components\<close>: empty parts and inner \<^verbatim>\<open>.\<close> are dropped\<close>
  "path_components p =
     (let parts = split_on CHR ''/'' p;
          lead = (if starts_with p ''/'' then [RootDir]
                  else if hd parts = ''.'' then [CurDir] else [])
      in lead @ map (\<lambda>s. if s = ''..'' then ParentDir else Normal s)
           (filter (\<lambda>s. s \<noteq> [] \<and> s \<noteq> ''.'') parts))"

definition path_push :: "path_buf \<Rightarrow> string \<Rightarrow> path_buf" where
  "path_push current part =
     (if starts_with part ''/'' then part
      else if current = [] then part
      else if last current = CHR ''/'' then current @ part
      else current @ ''/'' @ part)"

fun component_text :: "path_component \<Rightarrow> string" where
  "component_text RootDir = ''/''"
| "component_text CurDir = ''.''"
| "component_text ParentDir = ''..''"
| "component_text (Normal s) = s"

definition path_of :: "path_component list \<Rightarrow> path_buf" where
  "path_of cs = foldl (\<lambda>p c. path_push p (component_text c)) [] cs"

definition path_parent :: "path_buf \<Rightarrow> path_buf option" where
  "path_parent p = (case rev (path_components p) of
     [] \<Rightarrow> None | RootDir # _ \<Rightarrow> None | _ # cs \<Rightarrow> Some (path_of (rev cs)))"

definition path_file_name :: "path_buf \<Rightarrow> string option" where
  "path_file_name p = (case rev (path_components p) of Normal s # _ \<Rightarrow> Some s | _ \<Rightarrow> None)"

subsection \<open>The operating system\<close>

datatype node_kind = RegularFile | Directory | SymbolicLink | OtherNode

record file_node =
  node_kind :: node_kind
  node_mode :: nat
  node_uid :: nat
  node_gid :: nat
  node_content :: string

type_synonym disk = "path_buf \<Rightarrow> file_node option"
type_synonym 'a os_call = "disk \<Rightarrow> disk \<times> (io_error + 'a)"

record os_ops =
  os_read :: "disk \<Rightarrow> path_buf \<Rightarrow> io_error + string"             \<comment> \<open>\<^verbatim>\<open>fs::read\<close>\<close>
  os_symlink_metadata :: "disk \<Rightarrow> path_buf \<Rightarrow> io_error + file_node"
  os_metadata :: "disk \<Rightarrow> path_buf \<Rightarrow> io_error + file_node"      \<comment> \<open>follows links\<close>
  os_create_dir_all :: "path_buf \<Rightarrow> unit os_call"
  os_create_new :: "path_buf \<Rightarrow> nat \<Rightarrow> unit os_call"             \<comment> \<open>\<^verbatim>\<open>create_new(true).mode(m).open\<close>\<close>
  os_open_append :: "path_buf \<Rightarrow> nat \<Rightarrow> unit os_call"            \<comment> \<open>\<^verbatim>\<open>create(true).append(true).mode(m).open\<close>\<close>
  os_set_permissions :: "path_buf \<Rightarrow> nat \<Rightarrow> unit os_call"
  os_write_all :: "path_buf \<Rightarrow> string \<Rightarrow> unit os_call"           \<comment> \<open>to the file just opened\<close>
  os_sync_all :: "path_buf \<Rightarrow> unit os_call"
  os_chown :: "path_buf \<Rightarrow> nat \<Rightarrow> nat \<Rightarrow> unit os_call"
  os_rename :: "path_buf \<Rightarrow> path_buf \<Rightarrow> unit os_call"
  os_open_dir :: "path_buf \<Rightarrow> unit os_call"
  os_geteuid :: nat
  os_getegid :: nat
  os_process_id :: nat

definition mode_bits :: "nat \<Rightarrow> nat" where
  \<comment> \<open>\<^verbatim>\<open>mode & 0o777\<close>\<close>
  "mode_bits m = m mod 512"

definition mode_600 :: nat where "mode_600 = 384"
definition mode_700 :: nat where "mode_700 = 448"

subsection \<open>Security checks\<close>

definition symlink_step ::
  "os_ops \<Rightarrow> disk \<Rightarrow> path_buf \<Rightarrow> path_buf \<Rightarrow> path_component \<Rightarrow> path_buf gw_result" where
  \<comment> \<open>one round of the loop over the components\<close>
  "symlink_step os d path current component =
     (if component = ParentDir then
        Inl (SecurityPolicy path ''parent directory traversal is not allowed'')
      else
        (let current = (if component = CurDir then current
                        else path_push current (component_text component)) in
         case os_symlink_metadata os d current of
           Inr node \<Rightarrow>
             if node_kind node = SymbolicLink then
               Inl (SecurityPolicy current ''symlink path components are not allowed'')
             else Inr current
         | Inl (IoNotFound m) \<Rightarrow> Inr current
         | Inl error \<Rightarrow> Inl (Io error)))"

definition validate_path_has_no_symlinks :: "os_ops \<Rightarrow> disk \<Rightarrow> path_buf \<Rightarrow> unit gw_result" where
  "validate_path_has_no_symlinks os d path =
     bind_res (try_fold (symlink_step os d path) [] (path_components path)) (\<lambda>_. Inr ())"

definition validate_mode_and_owner :: "path_buf \<Rightarrow> file_node \<Rightarrow> nat \<Rightarrow> bool \<Rightarrow> unit gw_result" where
  "validate_mode_and_owner path metadata expected_mode require_root_owner =
     (let mode = mode_bits (node_mode metadata) in
      if mode \<noteq> expected_mode then
        Inl (SecurityPolicy path (''mode must be '' @ show_radix 8 expected_mode @ '', found ''
          @ show_radix 8 mode))
      else if require_root_owner \<and> node_uid metadata \<noteq> 0 then
        Inl (SecurityPolicy path (''owner uid must be 0, found '' @ show_nat (node_uid metadata)))
      else Inr ())"

definition validate_file_security ::
  "os_ops \<Rightarrow> disk \<Rightarrow> path_buf \<Rightarrow> nat \<Rightarrow> bool \<Rightarrow> unit gw_result" where
  "validate_file_security os d path expected_mode require_root_owner =
     bind_res (validate_path_has_no_symlinks os d path) (\<lambda>_.
     bind_res (map_err Io (os_symlink_metadata os d path)) (\<lambda>metadata.
       if node_kind metadata = SymbolicLink then
         Inl (SecurityPolicy path ''must not be a symlink'')
       else if node_kind metadata \<noteq> RegularFile then
         Inl (SecurityPolicy path ''not a regular file'')
       else validate_mode_and_owner path metadata expected_mode require_root_owner))"

definition validate_directory_security ::
  "os_ops \<Rightarrow> disk \<Rightarrow> path_buf \<Rightarrow> nat \<Rightarrow> bool \<Rightarrow> unit gw_result" where
  "validate_directory_security os d path expected_mode require_root_owner =
     bind_res (validate_path_has_no_symlinks os d path) (\<lambda>_.
     bind_res (map_err Io (os_symlink_metadata os d path)) (\<lambda>metadata.
       if node_kind metadata = SymbolicLink then
         Inl (SecurityPolicy path ''must not be a symlink'')
       else if node_kind metadata \<noteq> Directory then
         Inl (SecurityPolicy path ''not a directory'')
       else validate_mode_and_owner path metadata expected_mode require_root_owner))"

definition validate_optional_file_security ::
  "os_ops \<Rightarrow> disk \<Rightarrow> path_buf option \<Rightarrow> nat \<Rightarrow> unit gw_result" where
  "validate_optional_file_security os d path mode = (case path of
     None \<Rightarrow> Inr () | Some p \<Rightarrow> validate_file_security os d p mode True)"

definition validate_optional_path_has_no_symlinks ::
  "os_ops \<Rightarrow> disk \<Rightarrow> path_buf option \<Rightarrow> unit gw_result" where
  "validate_optional_path_has_no_symlinks os d path = (case path of
     None \<Rightarrow> Inr () | Some p \<Rightarrow> validate_path_has_no_symlinks os d p)"

subsection \<open>Programs that change the disk\<close>

type_synonym 'a disk_prog = "disk \<Rightarrow> disk \<times> 'a gw_result"

definition prog_return :: "'a gw_result \<Rightarrow> 'a disk_prog" where
  "prog_return r d = (d, r)"

definition prog_bind :: "'a disk_prog \<Rightarrow> ('a \<Rightarrow> 'b disk_prog) \<Rightarrow> 'b disk_prog" where
  \<comment> \<open>the \<^verbatim>\<open>?\<close> operator: an error stops the program and leaves the disk as it is\<close>
  "prog_bind m f d = (case m d of (d', Inl e) \<Rightarrow> (d', Inl e) | (d', Inr x) \<Rightarrow> f x d')"

definition prog_call :: "'a os_call \<Rightarrow> 'a disk_prog" where
  "prog_call c d = (case c d of (d', r) \<Rightarrow> (d', map_err Io r))"

definition prog_seq :: "unit disk_prog list \<Rightarrow> unit disk_prog" where
  "prog_seq ps = foldr (\<lambda>p q. prog_bind p (\<lambda>_. q)) ps (prog_return (Inr ()))"

definition fsync_parent :: "os_ops \<Rightarrow> path_buf \<Rightarrow> unit disk_prog" where
  "fsync_parent os parent = prog_seq [prog_call (os_open_dir os parent), prog_call (os_sync_all os parent)]"

definition show_int :: "int \<Rightarrow> string" where
  "show_int n = (if n < 0 then ''-'' @ show_nat (nat (- n)) else show_nat (nat n))"

definition timestamp_nanos :: "int \<Rightarrow> int" where
  \<comment> \<open>\<^verbatim>\<open>timestamp_nanos_opt().unwrap_or_default()\<close>: nothing outside 64 bits\<close>
  "timestamp_nanos now = (if - (2 ^ 63) \<le> now \<and> now < 2 ^ 63 then now else 0)"

definition temp_path_of :: "os_ops \<Rightarrow> int \<Rightarrow> string \<Rightarrow> path_buf \<Rightarrow> path_buf \<Rightarrow> path_buf" where
  "temp_path_of os now fallback parent path =
     path_push parent (''.'' @ unwrap_or fallback (path_file_name path) @ ''.tmp.''
       @ show_nat (os_process_id os) @ ''.'' @ show_int (timestamp_nanos now))"

definition keep_owner :: "os_ops \<Rightarrow> path_buf \<Rightarrow> path_buf \<Rightarrow> file_node option \<Rightarrow> unit disk_prog" where
  "keep_owner os path temp_path metadata = (case metadata of
     None \<Rightarrow> prog_return (Inr ())
   | Some existing \<Rightarrow>
       if os_geteuid os = 0 then
         (if CHR 0x00 \<in> set (from_utf8_lossy temp_path)
          then prog_return (Inl (InvalidConfig ''invalid temp path''))
          else prog_call (os_chown os temp_path (node_uid existing) (node_gid existing)))
       else if node_uid existing \<noteq> os_geteuid os \<or> node_gid existing \<noteq> os_getegid os then
         prog_return (Inl (SecurityPolicy path (''cannot preserve owner ''
           @ show_nat (node_uid existing) @ '':'' @ show_nat (node_gid existing)
           @ '' as unprivileged uid '' @ show_nat (os_geteuid os) @ '':'' @ show_nat (os_getegid os))))
       else prog_return (Inr ()))"

definition install_file ::
  "os_ops \<Rightarrow> path_buf \<Rightarrow> path_buf \<Rightarrow> path_buf \<Rightarrow> file_node option \<Rightarrow> string \<Rightarrow> unit disk_prog" where
  \<comment> \<open>write the temporary file and move it over the target\<close>
  "install_file os parent path temp_path metadata bytes = prog_seq [
     prog_call (os_create_new os temp_path mode_600),
     (case metadata of
        None \<Rightarrow> prog_return (Inr ())
      | Some existing \<Rightarrow> prog_call (os_set_permissions os temp_path
          (mode_bits (node_mode existing)))),
     prog_call (os_write_all os temp_path bytes),
     prog_call (os_sync_all os temp_path),
     keep_owner os path temp_path metadata,
     prog_call (os_rename os temp_path path),
     fsync_parent os parent]"

definition replace_file ::
  "os_ops \<Rightarrow> int \<Rightarrow> string \<Rightarrow> string \<Rightarrow> string \<Rightarrow> path_buf \<Rightarrow> string gw_result \<Rightarrow> unit disk_prog" where
  \<comment> \<open>the common body of \<^verbatim>\<open>atomic_write_bytes\<close> and \<^verbatim>\<open>write_state_file\<close>\<close>
  "replace_file os now no_parent link_message fallback path encoded d =
     (case path_parent path of
        None \<Rightarrow> (d, Inl (InvalidConfig (no_parent @ path)))
      | Some parent \<Rightarrow>
        (case validate_path_has_no_symlinks os d parent of
           Inl e \<Rightarrow> (d, Inl e)
         | Inr _ \<Rightarrow>
           if (case os_symlink_metadata os d path of
                 Inr node \<Rightarrow> node_kind node = SymbolicLink | Inl _ \<Rightarrow> False)
           then (d, Inl (SecurityPolicy path link_message))
           else prog_bind (prog_call (os_create_dir_all os parent)) (\<lambda>_ d.
             let temp_path = temp_path_of os now fallback parent path;
                 metadata = res_ok (os_metadata os d path)
             in prog_bind (prog_return encoded) (install_file os parent path temp_path metadata) d) d))"

definition atomic_write_bytes :: "os_ops \<Rightarrow> int \<Rightarrow> path_buf \<Rightarrow> string \<Rightarrow> unit disk_prog" where
  "atomic_write_bytes os now path encoded =
     replace_file os now ''path has no parent: '' ''target file must not be a symlink''
       ''centralssh'' path (Inr encoded)"

definition with_final_newline :: "string \<Rightarrow> string" where
  "with_final_newline s = (if ends_with s newline then s else s @ newline)"

subsection \<open>What the calls are documented to do\<close>

definition only_at :: "path_buf \<Rightarrow> disk \<Rightarrow> disk \<Rightarrow> bool" where
  "only_at p d d' \<longleftrightarrow> (\<forall>q. q \<noteq> p \<longrightarrow> d' q = d q)"

definition law_create_dir_all :: "os_ops \<Rightarrow> bool" where
  \<comment> \<open>makes the directory and its missing ancestors, nothing else\<close>
  "law_create_dir_all os \<longleftrightarrow>
     (\<forall>p d q. fst (os_create_dir_all os p d) q \<noteq> d q \<longrightarrow> starts_with p q)"

definition law_create_new :: "os_ops \<Rightarrow> bool" where
  "law_create_new os \<longleftrightarrow> (\<forall>p m d d' r. os_create_new os p m d = (d', r) \<longrightarrow> only_at p d d'
     \<and> (r = Inr () \<longrightarrow> (\<exists>n. d' p = Some n \<and> node_kind n = RegularFile \<and> node_mode n = m
          \<and> node_content n = [])))"

definition law_set_permissions :: "os_ops \<Rightarrow> bool" where
  "law_set_permissions os \<longleftrightarrow> (\<forall>p m d d' r. os_set_permissions os p m d = (d', r) \<longrightarrow> only_at p d d'
     \<and> (r = Inr () \<longrightarrow> d' p = map_option (\<lambda>n. n\<lparr>node_mode := m\<rparr>) (d p)))"

definition law_write_all :: "os_ops \<Rightarrow> bool" where
  \<comment> \<open>after a failed write the file may hold anything\<close>
  "law_write_all os \<longleftrightarrow> (\<forall>p s d d' r. os_write_all os p s d = (d', r) \<longrightarrow> only_at p d d'
     \<and> (r = Inr () \<longrightarrow> d' p = map_option (\<lambda>n. n\<lparr>node_content := node_content n @ s\<rparr>) (d p)))"

definition law_sync :: "os_ops \<Rightarrow> bool" where
  "law_sync os \<longleftrightarrow> (\<forall>p d. fst (os_sync_all os p d) = d) \<and> (\<forall>p d. fst (os_open_dir os p d) = d)"

definition law_chown :: "os_ops \<Rightarrow> bool" where
  "law_chown os \<longleftrightarrow> (\<forall>p u g d d' r. os_chown os p u g d = (d', r) \<longrightarrow> only_at p d d'
     \<and> (r = Inr () \<longrightarrow> d' p = map_option (\<lambda>n. n\<lparr>node_uid := u, node_gid := g\<rparr>) (d p)))"

definition law_rename :: "os_ops \<Rightarrow> bool" where
  \<comment> \<open>all or nothing\<close>
  "law_rename os \<longleftrightarrow> (\<forall>p q d d' r. p \<noteq> q \<longrightarrow> os_rename os p q d = (d', r) \<longrightarrow>
     (case r of Inr _ \<Rightarrow> d' = d(q := d p, p := None) | Inl _ \<Rightarrow> d' = d))"

definition os_laws :: "os_ops \<Rightarrow> bool" where
  "os_laws os \<longleftrightarrow> law_create_dir_all os \<and> law_create_new os \<and> law_set_permissions os
     \<and> law_write_all os \<and> law_sync os \<and> law_chown os \<and> law_rename os"

definition replaced_by :: "disk \<Rightarrow> path_buf \<Rightarrow> file_node option \<Rightarrow> string \<Rightarrow> bool" where
  \<comment> \<open>a regular file with the new content and the old file's permissions\<close>
  "replaced_by d path old bytes \<longleftrightarrow> (\<exists>n. d path = Some n \<and> node_kind n = RegularFile
     \<and> node_content n = bytes
     \<and> node_mode n = (case old of None \<Rightarrow> mode_600 | Some o' \<Rightarrow> mode_bits (node_mode o')))"

subsection \<open>Lengths of paths\<close>

lemma path_push_length:
  "\<not> starts_with part ''/'' \<Longrightarrow> length (path_push current part)
     = length current + length part
       + (if current = [] \<or> last current = CHR ''/'' then 0 else 1)"
  by (simp add: path_push_def)

lemma path_of_snoc: "path_of (cs @ [c]) = path_push (path_of cs) (component_text c)"
  by (simp add: path_of_def)

lemma component_text_plain:
  assumes "c \<in> set (path_components p)" and "c \<noteq> RootDir"
  shows "component_text c \<noteq> []" "\<not> starts_with (component_text c) ''/''"
proof -
  have no: "\<not> starts_with q ''/''" if "q \<in> set (split_on CHR ''/'' p)" for q
    using split_on_pieces [OF that] by (cases q) auto
  from assms no show "component_text c \<noteq> []" "\<not> starts_with (component_text c) ''/''"
    by (auto simp: path_components_def Let_def split: if_splits)
qed

lemma path_parent_split:
  assumes "path_parent path = Some parent" and "path_of (path_components path) = path"
  shows "\<exists>c. path = path_push parent (component_text c) \<and> component_text c \<noteq> []
    \<and> \<not> starts_with (component_text c) ''/''
    \<and> length (component_text c) \<le> length (unwrap_or fallback (path_file_name path)) + 2"
proof -
  obtain c cs where cs: "path_components path = cs @ [c]" "c \<noteq> RootDir" "parent = path_of cs"
    using assms(1) by (cases "path_components path" rule: rev_cases)
      (auto simp: path_parent_def split: path_component.splits)
  then have "path = path_push parent (component_text c)"
    using assms(2) by (simp add: path_of_snoc)
  moreover have "length (component_text c) \<le> length (unwrap_or fallback (path_file_name path)) + 2"
    using cs(1) by (cases c) (simp_all add: path_file_name_def cs(2))
  moreover have "component_text c \<noteq> []" "\<not> starts_with (component_text c) ''/''"
    using cs component_text_plain [of c path] by simp_all
  ultimately show ?thesis by blast
qed

lemma parent_shorter:
  assumes "path_parent path = Some parent" and "path_of (path_components path) = path"
  shows "length parent < length path"
proof -
  obtain c where c: "path = path_push parent (component_text c)" "component_text c \<noteq> []"
    "\<not> starts_with (component_text c) ''/''"
    using path_parent_split [OF assms] by blast
  then have "0 < length (component_text c)" by simp
  then have "length parent < length (path_push parent (component_text c))"
    using path_push_length [OF c(3), of parent] by linarith
  then show ?thesis using c(1) by simp
qed

lemma temp_path_differs:
  assumes "path_parent path = Some parent" and "path_of (path_components path) = path"
  shows "temp_path_of os now fallback parent path \<noteq> path"
proof -
  let ?name = "unwrap_or fallback (path_file_name path)"
  obtain c where c: "path = path_push parent (component_text c)"
    "\<not> starts_with (component_text c) ''/''" "length (component_text c) \<le> length ?name + 2"
    using path_parent_split [OF assms] by blast
  have "length path < length (temp_path_of os now fallback parent path)"
    using c(3) path_push_length [OF c(2), of parent] c(1)
    by (simp add: temp_path_of_def path_push_length)
  then show ?thesis by auto
qed

subsection \<open>Replacing a file\<close>

lemma prog_bind_cases:
  assumes "prog_bind m f d = (d', r)"
  obtains (stop) e where "m d = (d', Inl e)" "r = Inl e"
  | (go) x d1 where "m d = (d1, Inr x)" "f x d1 = (d', r)"
  using assms by (auto simp: prog_bind_def split: prod.splits sum.splits)

lemma prog_seq_simps [simp]:
  "prog_seq [] = prog_return (Inr ())"
  "prog_seq (p # ps) = prog_bind p (\<lambda>_. prog_seq ps)"
  by (simp_all add: prog_seq_def)

lemma prog_call_result: "prog_call c d = (d', r) \<Longrightarrow> \<exists>r0. c d = (d', r0) \<and> r = map_err Io r0"
  by (auto simp: prog_call_def split: prod.splits)

definition step_ok :: "(disk \<Rightarrow> bool) \<Rightarrow> unit disk_prog \<Rightarrow> (disk \<Rightarrow> bool) \<Rightarrow> (disk \<Rightarrow> bool) \<Rightarrow> bool" where
  \<comment> \<open>from P the program succeeds in Q or stops in E\<close>
  "step_ok P m Q E \<longleftrightarrow> (\<forall>d d' r. P d \<longrightarrow> m d = (d', r) \<longrightarrow>
     (case r of Inr _ \<Rightarrow> Q d' | Inl _ \<Rightarrow> E d'))"

lemma step_ok_bind:
  assumes "step_ok P m Q E" and "step_ok Q (prog_seq ms) R E"
  shows "step_ok P (prog_seq (m # ms)) R E"
  unfolding step_ok_def
proof (intro allI impI)
  fix d d' and r :: "unit gw_result"
  assume "P d" "prog_seq (m # ms) d = (d', r)"
  then show "case r of Inr _ \<Rightarrow> R d' | Inl _ \<Rightarrow> E d'"
    using assms by (auto simp: step_ok_def elim!: prog_bind_cases)
qed

lemma step_ok_Nil: "(\<And>d. P d \<Longrightarrow> Q d) \<Longrightarrow> step_ok P (prog_seq []) Q E"
  by (simp add: step_ok_def prog_return_def)

lemma step_ok_call:
  assumes "\<And>d d' r. P d \<Longrightarrow> c d = (d', r) \<Longrightarrow> (case r of Inr _ \<Rightarrow> Q d' | Inl _ \<Rightarrow> E d')"
  shows "step_ok P (prog_call c) Q E"
  unfolding step_ok_def
proof (intro allI impI)
  fix d d' and r :: "unit gw_result"
  assume "P d" and "prog_call c d = (d', r)"
  then show "case r of Inr _ \<Rightarrow> Q d' | Inl _ \<Rightarrow> E d'"
    using assms by (fastforce dest: prog_call_result split: sum.splits)
qed

text \<open>
  The phases of a replacement, seen from the disk \<^verbatim>\<open>b\<close> before it: nothing but the temporary
  file \<^verbatim>\<open>t\<close> changed; \<^verbatim>\<open>t\<close> holds a content; \<^verbatim>\<open>t\<close> has become the target \<^verbatim>\<open>p\<close>.
\<close>

definition untouched :: "disk \<Rightarrow> path_buf \<Rightarrow> disk \<Rightarrow> bool" where
  "untouched b t d \<longleftrightarrow> (\<forall>q. q \<noteq> t \<longrightarrow> d q = b q)"

definition staged :: "disk \<Rightarrow> path_buf \<Rightarrow> nat \<Rightarrow> string \<Rightarrow> disk \<Rightarrow> bool" where
  "staged b t m content d \<longleftrightarrow> untouched b t d \<and> (\<exists>n. d t = Some n \<and> node_kind n = RegularFile
     \<and> node_mode n = m \<and> node_content n = content)"

definition final_mode :: "file_node option \<Rightarrow> nat" where
  "final_mode old = (case old of None \<Rightarrow> mode_600 | Some o' \<Rightarrow> mode_bits (node_mode o'))"

definition swapped :: "disk \<Rightarrow> path_buf \<Rightarrow> path_buf \<Rightarrow> file_node option \<Rightarrow> string \<Rightarrow> disk \<Rightarrow> bool" where
  "swapped b t p old bytes d \<longleftrightarrow> replaced_by d p old bytes \<and> d t = None
     \<and> (\<forall>q. q \<noteq> t \<longrightarrow> q \<noteq> p \<longrightarrow> d q = b q)"

definition settled :: "disk \<Rightarrow> path_buf \<Rightarrow> path_buf \<Rightarrow> file_node option \<Rightarrow> string \<Rightarrow> disk \<Rightarrow> bool" where
  "settled b t p old bytes d \<longleftrightarrow> untouched b t d \<or> swapped b t p old bytes d"

lemmas phase_defs = staged_def settled_def untouched_def only_at_def

lemma step_create:
  assumes "os_laws os"
  shows "step_ok (untouched b t) (prog_call (os_create_new os t mode_600)) (staged b t mode_600 [])
    (settled b t p old bytes)"
proof (rule step_ok_call)
  fix d d' r assume P: "untouched b t d" and c: "os_create_new os t mode_600 d = (d', r)"
  from assms c have "only_at t d d'" and "r = Inr () \<longrightarrow> (\<exists>n. d' t = Some n
      \<and> node_kind n = RegularFile \<and> node_mode n = mode_600 \<and> node_content n = [])"
    unfolding os_laws_def law_create_new_def by blast+
  with P show "case r of Inr _ \<Rightarrow> staged b t mode_600 [] d' | Inl _ \<Rightarrow> settled b t p old bytes d'"
    by (auto simp: phase_defs split: sum.splits)
qed

lemma step_permissions:
  assumes "os_laws os"
  shows "step_ok (staged b t m0 []) (prog_call (os_set_permissions os t m)) (staged b t m [])
    (settled b t p old bytes)"
proof (rule step_ok_call)
  fix d d' r assume P: "staged b t m0 [] d" and c: "os_set_permissions os t m d = (d', r)"
  from assms c have "only_at t d d'" and
    "r = Inr () \<longrightarrow> d' t = map_option (\<lambda>n. n\<lparr>node_mode := m\<rparr>) (d t)"
    unfolding os_laws_def law_set_permissions_def by blast+
  with P show "case r of Inr _ \<Rightarrow> staged b t m [] d' | Inl _ \<Rightarrow> settled b t p old bytes d'"
    by (auto simp: phase_defs split: sum.splits)
qed

lemma step_write:
  assumes "os_laws os"
  shows "step_ok (staged b t m []) (prog_call (os_write_all os t bytes)) (staged b t m bytes)
    (settled b t p old bytes)"
proof (rule step_ok_call)
  fix d d' r assume P: "staged b t m [] d" and c: "os_write_all os t bytes d = (d', r)"
  from assms c have "only_at t d d'" and
    "r = Inr () \<longrightarrow> d' t = map_option (\<lambda>n. n\<lparr>node_content := node_content n @ bytes\<rparr>) (d t)"
    unfolding os_laws_def law_write_all_def by blast+
  with P show "case r of Inr _ \<Rightarrow> staged b t m bytes d' | Inl _ \<Rightarrow> settled b t p old bytes d'"
    by (auto simp: phase_defs split: sum.splits)
qed

lemma step_chown:
  assumes "os_laws os"
  shows "step_ok (staged b t m bytes) (prog_call (os_chown os t u g)) (staged b t m bytes)
    (settled b t p old bytes)"
proof (rule step_ok_call)
  fix d d' r assume P: "staged b t m bytes d" and c: "os_chown os t u g d = (d', r)"
  from assms c have "only_at t d d'" and
    "r = Inr () \<longrightarrow> d' t = map_option (\<lambda>n. n\<lparr>node_uid := u, node_gid := g\<rparr>) (d t)"
    unfolding os_laws_def law_chown_def by blast+
  with P show "case r of Inr _ \<Rightarrow> staged b t m bytes d' | Inl _ \<Rightarrow> settled b t p old bytes d'"
    by (auto simp: phase_defs split: sum.splits)
qed

lemma step_quiet:
  \<comment> \<open>a call that leaves the disk alone\<close>
  assumes "\<And>d. fst (c d) = d" and "\<And>d. P d \<Longrightarrow> E d"
  shows "step_ok P (prog_call c) P E"
proof (rule step_ok_call)
  fix d d' r assume "P d" "c d = (d', r)"
  with assms(1) [of d] assms(2) [of d] show "case r of Inr _ \<Rightarrow> P d' | Inl _ \<Rightarrow> E d'"
    by (simp split: sum.split)
qed

lemma step_stay: "(\<And>d. P d \<Longrightarrow> E d) \<Longrightarrow> step_ok P (prog_return r) P E"
  by (auto simp: step_ok_def prog_return_def split: sum.splits)

lemma staged_settled: "staged b t m c d \<Longrightarrow> settled b t p old bytes d"
  and swapped_settled: "swapped b t p old bytes d \<Longrightarrow> settled b t p old bytes d"
  by (simp_all add: staged_def settled_def)

lemma step_owner:
  "os_laws os \<Longrightarrow> step_ok (staged b t m bytes) (keep_owner os q t md) (staged b t m bytes)
     (settled b t p old bytes)"
  by (auto simp: keep_owner_def intro!: step_chown step_stay staged_settled split: option.split)

lemma step_rename:
  assumes "os_laws os" and "t \<noteq> p"
  shows "step_ok (staged b t (final_mode old) bytes) (prog_call (os_rename os t p))
    (swapped b t p old bytes) (settled b t p old bytes)"
proof (rule step_ok_call)
  fix d d' r assume P: "staged b t (final_mode old) bytes d" and c: "os_rename os t p d = (d', r)"
  from assms c have "case r of Inr _ \<Rightarrow> d' = d(p := d t, t := None) | Inl _ \<Rightarrow> d' = d"
    unfolding os_laws_def law_rename_def by blast
  with P assms(2) show "case r of Inr _ \<Rightarrow> swapped b t p old bytes d'
      | Inl _ \<Rightarrow> settled b t p old bytes d'"
    by (auto simp: phase_defs swapped_def replaced_by_def final_mode_def split: sum.splits)
qed

lemma step_replacement:
  assumes "os_laws os" and "t \<noteq> p"
  shows "step_ok (untouched b t) (install_file os parent p t old bytes) (swapped b t p old bytes)
    (settled b t p old bytes)" (is "step_ok _ _ _ ?E")
proof -
  have quiet: "fst (os_sync_all os q d) = d" "fst (os_open_dir os q d) = d" for q d
    using assms(1) by (simp_all add: os_laws_def law_sync_def)
  have mode: "step_ok (staged b t mode_600 []) (case old of
       None \<Rightarrow> prog_return (Inr ())
     | Some existing \<Rightarrow> prog_call (os_set_permissions os t (mode_bits (node_mode existing)))) (staged b t (final_mode old) []) ?E"
    using step_permissions [OF assms(1)] step_stay [OF staged_settled]
    by (auto simp: final_mode_def split: option.split)
  have sync: "step_ok (staged b t m bytes) (prog_call (os_sync_all os q)) (staged b t m bytes) ?E" for m q
    by (rule step_quiet) (simp_all add: quiet staged_settled)
  have fsync: "step_ok (swapped b t p old bytes) (fsync_parent os parent) (swapped b t p old bytes) ?E"
    unfolding fsync_parent_def
    by (intro step_ok_bind [where Q = "swapped b t p old bytes"] step_ok_Nil step_quiet)
      (simp_all add: quiet swapped_settled)
  show ?thesis
    unfolding install_file_def
    by (rule step_ok_bind [OF step_create [OF assms(1)] step_ok_bind [OF mode
        step_ok_bind [OF step_write [OF assms(1)] step_ok_bind [OF sync
        step_ok_bind [OF step_owner [OF assms(1)] step_ok_bind [OF step_rename [OF assms]
        step_ok_bind [OF fsync step_ok_Nil]]]]]]]) assumption
qed

definition canonical :: "path_buf \<Rightarrow> bool" where
  \<comment> \<open>a path in the normal form of its components, as the configuration gives them\<close>
  "canonical path \<longleftrightarrow> path_of (path_components path) = path"

lemma replace_file_atomic:
  assumes laws: "os_laws os" and path: "canonical path" "path_parent path = Some parent"
    and run: "replace_file os now no_parent link_message fallback path encoded d = (d', r)"
    and old: "old = res_ok (os_metadata os (fst (os_create_dir_all os parent d)) path)"
    and t: "t = temp_path_of os now fallback parent path"
  shows "(r = Inr () \<longrightarrow> (\<exists>bytes. encoded = Inr bytes \<and> replaced_by d' path old bytes \<and> d' t = None))
    \<and> (d' path = d path \<or> (\<exists>bytes. encoded = Inr bytes \<and> replaced_by d' path old bytes))
    \<and> (\<forall>q. q \<noteq> path \<longrightarrow> q \<noteq> t \<longrightarrow> d' q \<noteq> d q \<longrightarrow> starts_with parent q)"
proof -
  let ?d1 = "fst (os_create_dir_all os parent d)"
  have made: "?d1 q \<noteq> d q \<Longrightarrow> starts_with parent q" for q
    using laws by (simp add: os_laws_def law_create_dir_all_def)
  have "length parent < length path"
    using parent_shorter path by (simp add: canonical_def)
  then have "\<not> starts_with parent path" by (auto simp: starts_with_iff)
  then have path1: "?d1 path = d path" using made by blast
  have t_path: "t \<noteq> path" using temp_path_differs path t by (simp add: canonical_def)
  show ?thesis
  proof (cases "d' = d \<and> r \<noteq> Inr () \<or> d' = ?d1 \<and> r \<noteq> Inr ()")
    case True
    with path1 made show ?thesis by auto
  next
    case False
    obtain d1 r1 where mk: "os_create_dir_all os parent d = (d1, r1)" by fastforce
    from run False mk path(2) have ok: "is_ok r1" "is_ok encoded"
      by (auto simp: replace_file_def prog_bind_def prog_call_def prog_return_def Let_def
          split: sum.splits if_splits prod.splits)
    then obtain u bytes where u: "r1 = Inr u" "encoded = Inr bytes" by (auto simp: is_ok_iff)
    have "install_file os parent path t old bytes d1 = (d', r)"
      using run False mk path(2) u
      by (simp add: replace_file_def prog_bind_def prog_call_def prog_return_def Let_def old t
          split: sum.splits if_splits)
    moreover have "untouched ?d1 t d1" using mk by (simp add: untouched_def)
    ultimately have "case r of Inr _ \<Rightarrow> swapped ?d1 t path old bytes d'
        | Inl _ \<Rightarrow> settled ?d1 t path old bytes d'"
      using step_replacement [OF laws t_path, where b = ?d1 and old = old and bytes = bytes and parent = parent]
      unfolding step_ok_def by blast
    then have "r = Inr () \<longrightarrow> swapped ?d1 t path old bytes d'" "settled ?d1 t path old bytes d'"
      by (auto simp: swapped_settled split: sum.splits)
    then show ?thesis
      using made path1 t_path u
      by (auto simp: settled_def untouched_def swapped_def)
  qed
qed

text \<open>
  C34: Writing the configuration file is all or nothing.  Whatever call of the operating
  system fails, and with whatever partial effect on the temporary file, the file at the path
  afterwards is the old one or a regular file with exactly the new bytes and the old
  permissions (0600 for a new file); after a reported success it is the new one and the
  temporary file is gone; and nothing else on the disk changed except missing parent
  directories.
\<close>
theorem atomic_write_all_or_nothing:
  assumes "os_laws os" and "canonical path" and "path_parent path = Some parent"
    and "atomic_write_bytes os now path bytes d = (d', r)"
    and "old = res_ok (os_metadata os (fst (os_create_dir_all os parent d)) path)"
    and "t = temp_path_of os now ''centralssh'' parent path"
  shows "(r = Inr () \<longrightarrow> replaced_by d' path old bytes \<and> d' t = None)
    \<and> (d' path = d path \<or> replaced_by d' path old bytes)
    \<and> (\<forall>q. q \<noteq> path \<longrightarrow> q \<noteq> t \<longrightarrow> d' q \<noteq> d q \<longrightarrow> starts_with parent q)"
  using replace_file_atomic [OF assms(1-3) assms(4) [unfolded atomic_write_bytes_def] assms(5,6)]
  by auto

definition node_or_missing :: "disk \<Rightarrow> path_buf \<Rightarrow> io_error + file_node" where
  "node_or_missing d p = (case d p of None \<Rightarrow> Inl (IoNotFound ''not found'') | Some n \<Rightarrow> Inr n)"

definition change_node :: "path_buf \<Rightarrow> (file_node \<Rightarrow> file_node) \<Rightarrow> unit os_call" where
  "change_node p f d = (case d p of None \<Rightarrow> (d, Inl (IoNotFound ''not found''))
     | Some n \<Rightarrow> (d(p := Some (f n)), Inr ()))"

definition sample_os :: os_ops where
  \<comment> \<open>an instance of the parameters, for the witnesses: a flat disk, all by root\<close>
  "sample_os = \<lparr>
     os_read = (\<lambda>d p. map_sum id node_content (node_or_missing d p)),
     os_symlink_metadata = node_or_missing, os_metadata = node_or_missing,
     os_create_dir_all = (\<lambda>p d. (d, Inr ())),
     os_create_new = (\<lambda>p m d. if d p = None
        then (d(p := Some \<lparr>node_kind = RegularFile, node_mode = m, node_uid = 0, node_gid = 0,
               node_content = []\<rparr>), Inr ())
        else (d, Inl (IoOther ''exists''))),
     os_open_append = (\<lambda>p m d. if d p = None
        then (d(p := Some \<lparr>node_kind = RegularFile, node_mode = m, node_uid = 0, node_gid = 0,
               node_content = []\<rparr>), Inr ())
        else (d, Inr ())),
     os_set_permissions = (\<lambda>p m. change_node p (\<lambda>n. n\<lparr>node_mode := m\<rparr>)),
     os_write_all = (\<lambda>p s. change_node p (\<lambda>n. n\<lparr>node_content := node_content n @ s\<rparr>)),
     os_sync_all = (\<lambda>p d. (d, Inr ())),
     os_chown = (\<lambda>p u g. change_node p (\<lambda>n. n\<lparr>node_uid := u, node_gid := g\<rparr>)),
     os_rename = (\<lambda>p q d. case d p of None \<Rightarrow> (d, Inl (IoNotFound ''not found''))
        | Some n \<Rightarrow> (d(q := Some n, p := None), Inr ())),
     os_open_dir = (\<lambda>p d. (d, Inr ())),
     os_geteuid = 0, os_getegid = 0, os_process_id = 42\<rparr>"

lemma sample_os_laws: "os_laws sample_os"
  by (auto simp: os_laws_def law_create_dir_all_def law_create_new_def law_set_permissions_def
      law_write_all_def law_sync_def law_chown_def law_rename_def sample_os_def change_node_def
      only_at_def split: option.splits if_splits)

lemma atomic_write_all_or_nothing_witness:
  "\<exists>d' r. atomic_write_bytes sample_os 5 ''/etc/c'' ''new'' (\<lambda>_. None) = (d', r)
     \<and> (d' ''/etc/c'' = None \<or> replaced_by d' ''/etc/c'' None ''new'')"
proof -
  have parts: "path_components ''/etc/c'' = [RootDir, Normal ''etc'', Normal ''c'']" by code_simp
  then have "canonical ''/etc/c''" "path_parent ''/etc/c'' = Some ''/etc''"
    by (simp_all add: canonical_def path_of_def path_push_def path_parent_def)
  moreover obtain d' r where
    "atomic_write_bytes sample_os 5 ''/etc/c'' ''new'' (\<lambda>_. None) = (d', r)" by fastforce
  moreover have "res_ok (os_metadata sample_os (fst (os_create_dir_all sample_os p (\<lambda>_. None))) q) = None" for p q
    by (simp add: sample_os_def node_or_missing_def)
  ultimately show ?thesis
    using atomic_write_all_or_nothing [OF sample_os_laws, of "''/etc/c''" "''/etc''" 5 "''new''" "\<lambda>_. None" d' r]
    by auto
qed

subsection \<open>What the security checks guarantee\<close>

definition prefix_path :: "path_component list \<Rightarrow> path_buf" where
  "prefix_path cs = path_of (filter (\<lambda>c. c \<noteq> CurDir) cs)"

definition not_a_link :: "os_ops \<Rightarrow> disk \<Rightarrow> path_buf \<Rightarrow> bool" where
  "not_a_link os d p \<longleftrightarrow> (case os_symlink_metadata os d p of
     Inr node \<Rightarrow> node_kind node \<noteq> SymbolicLink | Inl (IoNotFound m) \<Rightarrow> True | Inl _ \<Rightarrow> False)"

lemma symlink_step_ok:
  "symlink_step os d path cur c = Inr cur' \<longleftrightarrow> c \<noteq> ParentDir
     \<and> cur' = (if c = CurDir then cur else path_push cur (component_text c)) \<and> not_a_link os d cur'"
  by (auto simp: symlink_step_def not_a_link_def Let_def split: sum.splits io_error.splits)

lemma prefix_path_snoc:
  "prefix_path (cs @ [c]) = (if c = CurDir then prefix_path cs
     else path_push (prefix_path cs) (component_text c))"
  by (simp add: prefix_path_def path_of_snoc)

lemma symlink_scan:
  "try_fold (symlink_step os d path) [] cs = Inr cur \<longleftrightarrow> cur = prefix_path cs
     \<and> ParentDir \<notin> set cs \<and> (\<forall>k < length cs. not_a_link os d (prefix_path (take (Suc k) cs)))"
proof (induction cs arbitrary: cur rule: rev_induct)
  case Nil
  then show ?case by (auto simp: prefix_path_def path_of_def)
next
  case (snoc c cs)
  then show ?case
    by (auto simp: try_fold_append symlink_step_ok prefix_path_snoc All_less_Suc)
qed

lemma no_symlinks_iff:
  "validate_path_has_no_symlinks os d path = Inr () \<longleftrightarrow> ParentDir \<notin> set (path_components path)
     \<and> (\<forall>k < length (path_components path).
          not_a_link os d (prefix_path (take (Suc k) (path_components path))))"
  by (simp add: validate_path_has_no_symlinks_def symlink_scan)

text \<open>
  C35: A file passes the strict check exactly when its path has no parent-directory component,
  no prefix of it is a symbolic link (or unreadable), and the file itself is a regular file
  with exactly the expected permission bits, owned by root where that is required.
\<close>
theorem file_security_exact:
  "validate_file_security os d path mode by_root = Inr () \<longleftrightarrow>
     ParentDir \<notin> set (path_components path)
     \<and> (\<forall>k < length (path_components path).
          not_a_link os d (prefix_path (take (Suc k) (path_components path))))
     \<and> (\<exists>node. os_symlink_metadata os d path = Inr node \<and> node_kind node = RegularFile
          \<and> mode_bits (node_mode node) = mode \<and> (by_root \<longrightarrow> node_uid node = 0))"
  using no_symlinks_iff [of os d path]
  by (auto simp: validate_file_security_def validate_mode_and_owner_def Let_def split: if_splits)

lemma file_security_exact_witness:
  "validate_file_security sample_os ((\<lambda>_. None)(''/k'' \<mapsto> \<lparr>node_kind = RegularFile,
     node_mode = 33152, node_uid = 0, node_gid = 0, node_content = []\<rparr>)) ''/k'' mode_600 True = Inr ()"
proof -
  have "path_components ''/k'' = [RootDir, Normal ''k'']" by code_simp
  then show ?thesis
    unfolding file_security_exact
    by (auto simp: less_Suc_eq prefix_path_def path_of_def path_push_def not_a_link_def sample_os_def
        node_or_missing_def mode_bits_def mode_600_def)
qed

end
