(* ===== verification/Audit_Log.thy ===== *)
theory Audit_Log
  imports Os_Files
begin

text \<open>
  The audit trail (\<^verbatim>\<open>src/src/audit/mod.rs\<close>): its events, how the log file is opened and
  checked, and how an event is appended.  The serialisation to JSON is a parameter.
\<close>

subsection \<open>Events\<close>

datatype audit_result =
  AuditSuccess | AuditFailure | AuditDenied | AuditBanned | AuditDelayed | AuditError

record audit_event =
  ev_timestamp :: int
  ev_event_type :: string
  ev_request_id :: string
  ev_remote_ip :: "string option"
  ev_remote_port :: "16 word option"
  ev_username :: "string option"
  ev_target_server :: "string option"
  ev_auth_method :: "string option"
  ev_result :: audit_result
  ev_reason :: "string option"
  ev_ban_duration_seconds :: "nat option"
  ev_ban_until :: "int option"
  ev_request_type :: "string option"
  ev_request_detail :: "string option"
  ev_transport_side :: "string option"
  ev_kex_algorithm :: "string option"
  ev_kex_algorithms_offered :: "string list option"
  ev_post_quantum :: "bool option"
  ev_hybrid :: "bool option"
  ev_classical_fallback :: "bool option"
  ev_pq_required :: "bool option"

definition system_event :: "int \<Rightarrow> string \<Rightarrow> audit_result \<Rightarrow> string option \<Rightarrow> audit_event" where
  "system_event now event_type result reason = \<lparr>
     ev_timestamp = now, ev_event_type = event_type, ev_request_id = ''system'',
     ev_remote_ip = None, ev_remote_port = None, ev_username = None, ev_target_server = None,
     ev_auth_method = None, ev_result = result, ev_reason = reason,
     ev_ban_duration_seconds = None, ev_ban_until = None, ev_request_type = None,
     ev_request_detail = None, ev_transport_side = None, ev_kex_algorithm = None,
     ev_kex_algorithms_offered = None, ev_post_quantum = None, ev_hybrid = None,
     ev_classical_fallback = None, ev_pq_required = None\<rparr>"

subsection \<open>The log file\<close>

definition validate_audit_file_security :: "os_ops \<Rightarrow> disk \<Rightarrow> path_buf \<Rightarrow> unit gw_result" where
  "validate_audit_file_security os d path =
     bind_res (validate_path_has_no_symlinks os d path) (\<lambda>_.
     bind_res (map_err Io (os_symlink_metadata os d path)) (\<lambda>metadata.
       if node_kind metadata = SymbolicLink then
         Inl (SecurityPolicy path ''audit log path must not be a symlink'')
       else if node_kind metadata \<noteq> RegularFile then
         Inl (SecurityPolicy path ''audit log path is not a regular file'')
       else (let mode = mode_bits (node_mode metadata) in
         if mode \<noteq> mode_600 then
           Inl (SecurityPolicy path (''audit log mode must be 600, found '' @ show_radix 8 mode))
         else if node_uid metadata \<noteq> 0 then
           Inl (SecurityPolicy path (''audit log owner uid must be 0, found ''
             @ show_nat (node_uid metadata)))
         else Inr ())))"

definition audit_logger_new :: "os_ops \<Rightarrow> path_buf \<Rightarrow> bool \<Rightarrow> unit disk_prog" where
  \<comment> \<open>\<^verbatim>\<open>AuditLogger::new\<close>; the logger itself is the opened file at the path\<close>
  "audit_logger_new os path enforce_strict_security d =
     (case path_parent path of
        None \<Rightarrow> (d, Inl (InvalidConfig (''audit log path has no parent: '' @ path)))
      | Some parent \<Rightarrow> prog_seq [
          (\<lambda>d. (d, validate_path_has_no_symlinks os d parent)),
          prog_call (os_create_dir_all os parent),
          (\<lambda>d. (d, guard_res (case os_symlink_metadata os d path of
                Inr metadata \<Rightarrow> node_kind metadata = SymbolicLink | Inl _ \<Rightarrow> False)
              (SecurityPolicy path ''audit log path must not be a symlink''))),
          prog_call (os_open_append os path mode_600),
          prog_call (os_set_permissions os path mode_600),
          (\<lambda>d. (d, if enforce_strict_security then validate_audit_file_security os d path
                   else validate_path_has_no_symlinks os d path))] d)"

definition audit_write :: "os_ops \<Rightarrow> (audit_event \<Rightarrow> string + string) \<Rightarrow> path_buf \<Rightarrow> audit_event \<Rightarrow> unit disk_prog" where
  \<comment> \<open>\<^verbatim>\<open>AuditLogger::log\<close>: the event's JSON, a newline, \<^verbatim>\<open>sync_data\<close>\<close>
  "audit_write os to_json path event =
     prog_bind (prog_return (map_err Serde (to_json event))) (\<lambda>json. prog_seq [
       prog_call (os_write_all os path json),
       prog_call (os_write_all os path newline),
       prog_call (os_sync_all os path)])"

subsection \<open>What an opened log guarantees\<close>

lemma prog_bind_ok:
  "prog_bind m f d = (d', Inr y) \<longleftrightarrow> (\<exists>d1 x. m d = (d1, Inr x) \<and> f x d1 = (d', Inr y))"
  by (auto simp: prog_bind_def split: prod.splits sum.splits)

lemma prog_return_ok: "prog_return r d = (d', Inr y) \<longleftrightarrow> d' = d \<and> r = Inr y"
  by (auto simp: prog_return_def)

lemma prog_call_run: "prog_call c d = (d', Inr u) \<longleftrightarrow> c d = (d', Inr u)"
  by (auto simp: prog_call_def split: prod.splits)

lemma audit_file_security_iff:
  "validate_audit_file_security os d path = Inr () \<longleftrightarrow>
     validate_path_has_no_symlinks os d path = Inr () \<and>
     (\<exists>n. os_symlink_metadata os d path = Inr n \<and> node_kind n = RegularFile
        \<and> mode_bits (node_mode n) = mode_600 \<and> node_uid n = 0)"
  by (auto simp: validate_audit_file_security_def Let_def)



end
