(* ===== verification/Effects.thy ===== *)
theory Effects
  imports Prelude
begin

text \<open>
  Programs with effects: an action takes the state and returns the state after it and
  either a value or the reason why it stopped (a panic of the Rust code, or an error of the
  \<^verbatim>\<open>russh\<close> handler that ends the connection).  What an action did before it stopped stays done.
  The triples below are the proof rules of the component proofs.
\<close>

datatype stop = Panicked | SshIo string | SshDisconnect

type_synonym ('s, 'a) act = "'s \<Rightarrow> 's \<times> (stop, 'a) result"

definition act_return :: "'a \<Rightarrow> ('s, 'a) act" where
  "act_return x s = (s, Inr x)"

definition act_stop :: "stop \<Rightarrow> ('s, 'a) act" where
  "act_stop e s = (s, Inl e)"

definition act_bind :: "('s, 'a) act \<Rightarrow> ('a \<Rightarrow> ('s, 'b) act) \<Rightarrow> ('s, 'b) act" where
  "act_bind m f s = (case m s of (s', Inl e) \<Rightarrow> (s', Inl e) | (s', Inr x) \<Rightarrow> f x s')"

definition act_then :: "('s, 'a) act \<Rightarrow> ('s, 'b) act \<Rightarrow> ('s, 'b) act" where
  "act_then m n = act_bind m (\<lambda>_. n)"

definition act_get :: "('s \<Rightarrow> 'a) \<Rightarrow> ('s, 'a) act" where
  "act_get f s = (s, Inr (f s))"

definition act_modify :: "('s \<Rightarrow> 's) \<Rightarrow> ('s, unit) act" where
  "act_modify f s = (f s, Inr ())"

definition act_update :: "('s \<Rightarrow> 's \<times> 'a option) \<Rightarrow> ('s, 'a) act" where
  \<comment> \<open>an operation on the state whose missing result is a panic\<close>
  "act_update f s = (case f s of (s', None) \<Rightarrow> (s', Inl Panicked) | (s', Some x) \<Rightarrow> (s', Inr x))"

definition act_when :: "bool \<Rightarrow> ('s, unit) act \<Rightarrow> ('s, unit) act" where
  "act_when b m = (if b then m else act_return ())"

subsection \<open>Running\<close>

lemma act_runs [simp]:
  "act_return x s = (s, Inr x)"
  "act_stop e s = (s, Inl e)"
  "act_get f s = (s, Inr (f s))"
  "act_modify g s = (g s, Inr ())"
  "act_when True m = m"
  "act_when False m = act_return ()"
  by (simp_all add: act_return_def act_stop_def act_get_def act_modify_def act_when_def)

lemma act_bind_run:
  "m s = (s', Inr x) \<Longrightarrow> act_bind m f s = f x s'"
  "m s = (s', Inl e) \<Longrightarrow> act_bind m f s = (s', Inl e)"
  "m s = (s', Inr x) \<Longrightarrow> act_then m n s = n s'"
  "m s = (s', Inl e) \<Longrightarrow> act_then m n s = (s', Inl e)"
  by (simp_all add: act_bind_def act_then_def)

lemma act_bind_simps [simp]:
  "act_bind (act_return x) f = f x"
  "act_bind (act_stop e) f = act_stop e"
  "act_bind (act_get g) f s = f (g s) s"
  "act_bind (act_modify h) f' s = f' () (h s)"
  "act_then (act_modify h) n s = n (h s)"
  "act_then (act_return x) n = n"
  by (simp_all add: act_bind_def act_then_def fun_eq_iff)

lemma act_bind_assoc: "act_bind (act_bind m f) g = act_bind m (\<lambda>x. act_bind (f x) g)"
  by (simp add: act_bind_def fun_eq_iff split: prod.split sum.split)

lemma act_bind_cases:
  assumes "act_bind m f s = (s', r)"
  obtains (stopped) e where "m s = (s', Inl e)" "r = Inl e"
    | (continued) s1 x where "m s = (s1, Inr x)" "f x s1 = (s', r)"
  using assms by (auto simp: act_bind_def split: prod.splits sum.splits)

lemma act_then_cases:
  assumes "act_then m n s = (s', r)"
  obtains (stopped) e where "m s = (s', Inl e)" "r = Inl e"
    | (continued) s1 x where "m s = (s1, Inr x)" "n s1 = (s', r)"
  using assms unfolding act_then_def by (rule act_bind_cases)

subsection \<open>Triples\<close>

named_theorems triples \<open>triples of the operations\<close>

definition triple :: "('s \<Rightarrow> bool) \<Rightarrow> ('s, 'a) act \<Rightarrow> ('a \<Rightarrow> 's \<Rightarrow> bool) \<Rightarrow> ('s \<Rightarrow> bool) \<Rightarrow> bool" where
  \<comment> \<open>from P the action returns in Q or stops in E\<close>
  "triple P m Q E \<longleftrightarrow> (\<forall>s s' r. P s \<longrightarrow> m s = (s', r) \<longrightarrow>
     (case r of Inr x \<Rightarrow> Q x s' | Inl _ \<Rightarrow> E s'))"

lemma triple_return [triples]: "(\<And>s. P s \<Longrightarrow> Q x s) \<Longrightarrow> triple P (act_return x) Q E"
  and triple_stop [triples]: "(\<And>s. P s \<Longrightarrow> E s) \<Longrightarrow> triple P (act_stop e) Q E"
  and triple_get [triples]: "(\<And>s. P s \<Longrightarrow> Q (f s) s) \<Longrightarrow> triple P (act_get f) Q E"
  and triple_modify [triples]: "(\<And>s. P s \<Longrightarrow> Q' () (g s)) \<Longrightarrow> triple P (act_modify g) Q' E"
  by (auto simp: triple_def)

lemma triple_bind:
  assumes "triple P m Q E" and "\<And>x. triple (Q x) (f x) R E"
  shows "triple P (act_bind m f) R E"
  unfolding triple_def
proof (intro allI impI)
  fix s s' r assume P: "P s" and "act_bind m f s = (s', r)"
  from this(2) show "case r of Inr x \<Rightarrow> R x s' | Inl _ \<Rightarrow> E s'"
  proof (cases rule: act_bind_cases)
    case (stopped e)
    with assms(1) P show ?thesis unfolding triple_def by fastforce
  next
    case (continued s1 x)
    with assms(1) P have "Q x s1" unfolding triple_def by fastforce
    with continued assms(2) [of x] show ?thesis unfolding triple_def by blast
  qed
qed

lemma triple_then:
  "triple P m (\<lambda>_. Q) E \<Longrightarrow> triple Q n R E \<Longrightarrow> triple P (act_then m n) R E"
  unfolding act_then_def by (rule triple_bind)

lemma triple_weaken:
  "triple P m Q E \<Longrightarrow> (\<And>s. P' s \<Longrightarrow> P s) \<Longrightarrow> (\<And>x s. Q x s \<Longrightarrow> Q' x s) \<Longrightarrow> (\<And>s. E s \<Longrightarrow> E' s)
   \<Longrightarrow> triple P' m Q' E'"
  unfolding triple_def by (fastforce split: sum.splits)

lemma triple_pre: "triple P m Q E \<Longrightarrow> (\<And>s. P' s \<Longrightarrow> P s) \<Longrightarrow> triple P' m Q E"
  by (rule triple_weaken)

lemma triple_case_pre: "(b \<Longrightarrow> triple P m Q E) \<Longrightarrow> triple (\<lambda>s. b \<and> P s) m Q E"
  by (auto simp: triple_def)

lemma triple_if:
  "(b \<Longrightarrow> triple P m Q E) \<Longrightarrow> (\<not> b \<Longrightarrow> triple P n Q E) \<Longrightarrow> triple P (if b then m else n) Q E"
  by simp

lemma triple_when:
  "(b \<Longrightarrow> triple P m (\<lambda>_. P) E) \<Longrightarrow> triple P (act_when b m) (\<lambda>_. P) E"
  by (cases b) (simp_all add: triple_return)

lemma triple_option:
  "(x = None \<Longrightarrow> triple P m Q E) \<Longrightarrow> (\<And>y. x = Some y \<Longrightarrow> triple P (f y) Q E)
   \<Longrightarrow> triple P (case x of None \<Rightarrow> m | Some y \<Rightarrow> f y) Q E"
  by (cases x) auto

lemma triple_sum:
  "(\<And>e. x = Inl e \<Longrightarrow> triple P (f e) Q E) \<Longrightarrow> (\<And>y. x = Inr y \<Longrightarrow> triple P (g y) Q E)
   \<Longrightarrow> triple P (case x of Inl e \<Rightarrow> f e | Inr y \<Rightarrow> g y) Q E"
  by (cases x) auto

lemma triple_run: "triple P m Q E \<Longrightarrow> P s \<Longrightarrow> m s = (s', r) \<Longrightarrow> (case r of Inr x \<Rightarrow> Q x s' | Inl _ \<Rightarrow> E s')"
  unfolding triple_def by blast

subsection \<open>Actions that keep a property\<close>

definition keeps :: "('s \<Rightarrow> bool) \<Rightarrow> ('s, 'a) act \<Rightarrow> bool" where
  "keeps P m \<longleftrightarrow> (\<forall>s. P s \<longrightarrow> P (fst (m s)))"

named_theorems keeps_intros \<open>preservation of a state property by actions\<close>

lemma keeps_triple: "keeps P m \<longleftrightarrow> triple P m (\<lambda>_. P) P"
  unfolding keeps_def triple_def by (auto split: sum.splits simp: eq_commute [of "m _"]) (metis fst_conv surj_pair sum.exhaust)+

lemma keeps_basic [keeps_intros]:
  "keeps P (act_return x)" "keeps P (act_stop e)" "keeps P (act_get f)"
  by (simp_all add: keeps_def)

lemma keeps_modify: "(\<And>s. P s \<Longrightarrow> P (g s)) \<Longrightarrow> keeps P (act_modify g)"
  by (simp add: keeps_def)

lemma keeps_bind [keeps_intros]:
  "keeps P m \<Longrightarrow> (\<And>x. keeps P (f x)) \<Longrightarrow> keeps P (act_bind m f)"
  unfolding keeps_triple by (rule triple_bind)

lemma keeps_then [keeps_intros]: "keeps P m \<Longrightarrow> keeps P n \<Longrightarrow> keeps P (act_then m n)"
  unfolding act_then_def by (rule keeps_bind)

lemma keeps_when [keeps_intros]: "keeps P m \<Longrightarrow> keeps P (act_when b m)"
  by (cases b) (simp_all add: keeps_basic)

lemma keeps_if [keeps_intros]: "keeps P m \<Longrightarrow> keeps P n \<Longrightarrow> keeps P (if b then m else n)"
  by simp

lemma keeps_option [keeps_intros]:
  "keeps P m \<Longrightarrow> (\<And>y. keeps P (f y)) \<Longrightarrow> keeps P (case x of None \<Rightarrow> m | Some y \<Rightarrow> f y)"
  by (cases x) auto

lemma keeps_sum [keeps_intros]:
  "(\<And>e. keeps P (f e)) \<Longrightarrow> (\<And>y. keeps P (g y)) \<Longrightarrow> keeps P (case x of Inl e \<Rightarrow> f e | Inr y \<Rightarrow> g y)"
  by (cases x) auto

lemma keeps_prod [keeps_intros]:
  "(\<And>a b. keeps P (f a b)) \<Longrightarrow> keeps P (case x of (a, b) \<Rightarrow> f a b)"
  by (cases x) auto

lemma keeps_run: "keeps P m \<Longrightarrow> P s \<Longrightarrow> m s = (s', r) \<Longrightarrow> P s'"
  by (metis fst_conv keeps_def)

end
