(* ===== verification/Abuse_Tracker.thy ===== *)
theory Abuse_Tracker
  imports Abuse_Core Audit_Log Effects
begin

text \<open>
  The abuse tracker (\<^verbatim>\<open>src/src/abuse.rs\<close>, \<^verbatim>\<open>AbuseTracker\<close>): the core with the settings in
  force, its state file, and the audit events of failed loads and saves.  The audit trail of
  the model is the sequence of events handed to \<^verbatim>\<open>AuditLogger::log\<close>, whose result every caller
  ignores; the clock is a function from the number of readings taken to nanoseconds.
\<close>

record tracker_libs =
  tl_chrono :: chrono_lib
  tl_net :: fail2ban_libs
  tl_os :: os_ops
  tl_utc :: "nat \<Rightarrow> int"                                  \<comment> \<open>\<^verbatim>\<open>Utc::now()\<close>\<close>
  tl_encode :: "persisted_state \<Rightarrow> string + string"       \<comment> \<open>\<^verbatim>\<open>serde_json::to_vec_pretty\<close>\<close>
  tl_decode :: "string \<Rightarrow> string + persisted_state"       \<comment> \<open>\<^verbatim>\<open>serde_json::from_slice\<close>\<close>

record tracker =
  tr_settings :: fail2ban_settings
  tr_core :: abuse_core
  tr_audit :: "audit_event list"
  tr_disk :: disk
  tr_readings :: nat

subsection \<open>Clock, trail and disk\<close>

definition utc_now :: "tracker_libs \<Rightarrow> ('z tracker_scheme, int) act" where
  "utc_now T s = (s\<lparr>tr_readings := Suc (tr_readings s)\<rparr>, Inr (tl_utc T (tr_readings s)))"

definition audit_log :: "audit_event \<Rightarrow> ('z tracker_scheme, unit) act" where
  "audit_log event = act_modify (\<lambda>s. s\<lparr>tr_audit := tr_audit s @ [event]\<rparr>)"

definition log_system_error :: "tracker_libs \<Rightarrow> string \<Rightarrow> central_error \<Rightarrow> ('z tracker_scheme, unit) act" where
  "log_system_error T event_type error =
     act_bind (utc_now T) (\<lambda>now. audit_log (system_event now event_type AuditError (Some (display_error error))))"

definition on_disk :: "'a disk_prog \<Rightarrow> ('z tracker_scheme, 'a gw_result) act" where
  "on_disk prog s = (case prog (tr_disk s) of (d, r) \<Rightarrow> (s\<lparr>tr_disk := d\<rparr>, Inr r))"

definition on_core :: "(abuse_core \<Rightarrow> abuse_core \<times> 'a option) \<Rightarrow> ('z tracker_scheme, 'a) act" where
  \<comment> \<open>an operation of the core under its lock; a panic keeps what it changed\<close>
  "on_core f = act_update (\<lambda>s. case f (tr_core s) of (core, r) \<Rightarrow> (s\<lparr>tr_core := core\<rparr>, r))"

subsection \<open>The state file\<close>

definition restore_entry ::
  "tracker_libs \<Rightarrow> int \<Rightarrow> fail2ban_settings \<Rightarrow> abuse_core option \<Rightarrow> string \<times> abuse_entry \<Rightarrow> abuse_core option" where
  \<comment> \<open>one round of the loop of \<^verbatim>\<open>read_state_file\<close>; None is the panic of an overflow\<close>
  "restore_entry T now settings acc item = Option.bind acc (\<lambda>entries. case item of (raw_ip, entry) \<Rightarrow>
     (case parse_ip raw_ip of
        None \<Rightarrow> Some entries
      | Some ip \<Rightarrow>
        (let (entry, ok) = prune_failures (tl_chrono T) entry now (fs_find_time settings) in
         if \<not> ok then None
         else (let entry = (if (case ae_ban_until entry of None \<Rightarrow> False | Some u \<Rightarrow> u \<le> now)
                            then entry\<lparr>ae_ban_until := None\<rparr> else entry)
               in if ae_recent_failures entry \<noteq> [] \<or> ae_ban_until entry \<noteq> None
                    \<or> 0 < ae_ban_count entry \<or> ae_last_failure entry \<noteq> None
                    \<or> ae_last_success entry \<noteq> None
                  then Some (hm_insert ip entry entries) else Some entries))))"

definition read_state_file ::
  "tracker_libs \<Rightarrow> path_buf \<Rightarrow> fail2ban_settings \<Rightarrow> ('z tracker_scheme, abuse_core gw_result) act" where
  "read_state_file T path settings s =
     (case os_read (tl_os T) (tr_disk s) path of
        Inl (IoNotFound _) \<Rightarrow> act_return (Inr [])
      | Inl error \<Rightarrow> act_return (Inl (Io error))
      | Inr bytes \<Rightarrow>
        (case tl_decode T bytes of
           Inl message \<Rightarrow> act_return (Inl (Serde message))
         | Inr persisted \<Rightarrow> act_bind (utc_now T) (\<lambda>now.
             (case foldl (restore_entry T now settings) (Some []) persisted of
                None \<Rightarrow> act_stop Panicked
              | Some entries \<Rightarrow> act_return (Inr entries))))) s"

definition write_state_file :: "tracker_libs \<Rightarrow> int \<Rightarrow> path_buf \<Rightarrow> persisted_state \<Rightarrow> unit disk_prog" where
  "write_state_file T now path persisted =
     replace_file (tl_os T) now ''fail2ban state path has no parent: ''
       ''fail2ban state path must not be a symlink'' ''fail2ban_state'' path
       (bind_res (map_err Serde (tl_encode T persisted)) (\<lambda>encoded. Inr (with_final_newline encoded)))"

subsection \<open>Operations\<close>

definition load_persisted_state :: "tracker_libs \<Rightarrow> fail2ban_settings \<Rightarrow> ('z tracker_scheme, unit) act" where
  "load_persisted_state T settings =
     act_when (fs_persist_state settings)
       (act_bind (read_state_file T (fs_state_path settings) settings) (\<lambda>r. case r of
          Inr entries \<Rightarrow> act_modify (\<lambda>s. s\<lparr>tr_core := entries\<rparr>)
        | Inl error \<Rightarrow> log_system_error T ''fail2ban_state_load'' error))"

definition persist_if_enabled :: "tracker_libs \<Rightarrow> fail2ban_settings \<Rightarrow> ('z tracker_scheme, unit) act" where
  "persist_if_enabled T settings =
     act_when (fs_persist_state settings)
       (act_bind (utc_now T) (\<lambda>now.
        act_bind (on_core (\<lambda>core. snapshot_for_persistence (tl_chrono T) core now settings)) (\<lambda>snapshot.
        act_bind (utc_now T) (\<lambda>stamp.
        act_bind (on_disk (write_state_file T stamp (fs_state_path settings) snapshot)) (\<lambda>r. case r of
          Inr _ \<Rightarrow> act_return ()
        | Inl error \<Rightarrow> log_system_error T ''fail2ban_state_save'' error)))))"

definition reload_from_config :: "tracker_libs \<Rightarrow> config_file \<Rightarrow> ('z tracker_scheme, unit gw_result) act" where
  "reload_from_config T config =
     act_bind (act_get (\<lambda>s. effective (tl_net T) (os_read (tl_os T) (tr_disk s))
         (unwrap_or default_fail2ban_config (cf_fail2ban config))
         (sc_whitelist_path (cf_settings config)))) (\<lambda>r. case r of
       Inl error \<Rightarrow> act_return (Inl error)
     | Inr settings \<Rightarrow>
         act_then (act_modify (\<lambda>s. s\<lparr>tr_settings := settings\<rparr>))
          (act_then (load_persisted_state T settings) (act_return (Inr ()))))"

definition from_config :: "tracker_libs \<Rightarrow> config_file \<Rightarrow> ('z tracker_scheme, unit gw_result) act" where
  \<comment> \<open>a new tracker: the core is empty before the state file is loaded\<close>
  "from_config T config =
     act_bind (act_get (\<lambda>s. effective (tl_net T) (os_read (tl_os T) (tr_disk s))
         (unwrap_or default_fail2ban_config (cf_fail2ban config))
         (sc_whitelist_path (cf_settings config)))) (\<lambda>r. case r of
       Inl error \<Rightarrow> act_return (Inl error)
     | Inr settings \<Rightarrow>
         act_then (act_modify (\<lambda>s. s\<lparr>tr_settings := settings, tr_core := []\<rparr>))
          (act_then (load_persisted_state T settings) (act_return (Inr ()))))"

definition tracker_check_ip :: "tracker_libs \<Rightarrow> ip_addr \<Rightarrow> ('z tracker_scheme, pre_auth_check) act" where
  "tracker_check_ip T ip =
     act_bind (act_get tr_settings) (\<lambda>settings.
     act_bind (utc_now T) (\<lambda>now.
     act_bind (on_core (\<lambda>core. check_ip (tl_chrono T) (tl_net T) core ip now settings)) (\<lambda>result.
     act_then (act_when (pc_expired_ban result \<or> pc_banned result) (persist_if_enabled T settings))
       (act_return result))))"

definition tracker_record_failure ::
  "tracker_libs \<Rightarrow> ip_addr \<Rightarrow> string option \<Rightarrow> string option \<Rightarrow> ('z tracker_scheme, failure_outcome) act" where
  "tracker_record_failure T ip username target_server =
     act_bind (act_get tr_settings) (\<lambda>settings.
     act_bind (utc_now T) (\<lambda>now.
     act_bind (on_core (\<lambda>core. record_failure (tl_chrono T) (tl_net T) core ip username target_server now settings))
       (\<lambda>outcome. act_then (persist_if_enabled T settings) (act_return outcome))))"

definition tracker_record_success :: "tracker_libs \<Rightarrow> ip_addr \<Rightarrow> ('z tracker_scheme, unit) act" where
  "tracker_record_success T ip =
     act_bind (act_get tr_settings) (\<lambda>settings.
     act_bind (utc_now T) (\<lambda>now.
     act_then (act_modify (\<lambda>s. s\<lparr>tr_core := record_success (tl_net T) (tr_core s) ip now settings\<rparr>))
       (persist_if_enabled T settings)))"

subsection \<open>What the operations leave alone\<close>

definition tracker_frame :: "('z tracker_scheme \<Rightarrow> bool) \<Rightarrow> bool" where
  \<comment> \<open>properties that do not depend on the core, the disk and the clock, and survive new events\<close>
  "tracker_frame P \<longleftrightarrow> (\<forall>s. P s \<longrightarrow> (\<forall>c. P (s\<lparr>tr_core := c\<rparr>)) \<and> (\<forall>d. P (s\<lparr>tr_disk := d\<rparr>))
     \<and> (\<forall>n. P (s\<lparr>tr_readings := n\<rparr>)) \<and> (\<forall>ev. P (s\<lparr>tr_audit := tr_audit s @ [ev]\<rparr>)))"

lemma tracker_frameI:
  assumes "\<And>s c. P s \<Longrightarrow> P (s\<lparr>tr_core := c\<rparr>)" "\<And>s d. P s \<Longrightarrow> P (s\<lparr>tr_disk := d\<rparr>)"
    and "\<And>s n. P s \<Longrightarrow> P (s\<lparr>tr_readings := n\<rparr>)" "\<And>s ev. P s \<Longrightarrow> P (s\<lparr>tr_audit := tr_audit s @ [ev]\<rparr>)"
  shows "tracker_frame P"
  using assms by (simp add: tracker_frame_def)

lemma keeps_utc_now [keeps_intros]: "tracker_frame P \<Longrightarrow> keeps P (utc_now T)"
  and keeps_audit_log [keeps_intros]: "tracker_frame P \<Longrightarrow> keeps P (audit_log ev)"
  and keeps_on_disk [keeps_intros]: "tracker_frame P \<Longrightarrow> keeps P (on_disk prog)"
  and keeps_on_core [keeps_intros]: "tracker_frame P \<Longrightarrow> keeps P (on_core f)"
  by (auto simp: keeps_def tracker_frame_def utc_now_def audit_log_def on_disk_def on_core_def
      act_update_def split: prod.splits option.splits)

lemma keeps_set_core: "tracker_frame P \<Longrightarrow> keeps P (act_modify (\<lambda>s. s\<lparr>tr_core := f s\<rparr>))"
  by (simp add: keeps_def tracker_frame_def)

lemma keeps_log_system_error [keeps_intros]: "tracker_frame P \<Longrightarrow> keeps P (log_system_error T ty e)"
  unfolding log_system_error_def by (intro keeps_intros)

lemma keeps_read_state_file [keeps_intros]: "tracker_frame P \<Longrightarrow> keeps P (read_state_file T p st)"
  using keeps_utc_now [of P T]
  by (auto simp: keeps_def read_state_file_def act_bind_def split: sum.splits io_error.splits prod.splits option.splits)

lemma keeps_persist [keeps_intros]: "tracker_frame P \<Longrightarrow> keeps P (persist_if_enabled T st)"
  unfolding persist_if_enabled_def by (intro keeps_intros)

lemma keeps_load [keeps_intros]: "tracker_frame P \<Longrightarrow> keeps P (load_persisted_state T st)"
  unfolding load_persisted_state_def by (intro keeps_intros keeps_set_core)

lemma keeps_tracker_check_ip [keeps_intros]: "tracker_frame P \<Longrightarrow> keeps P (tracker_check_ip T ip)"
  unfolding tracker_check_ip_def by (intro keeps_intros)

lemma keeps_tracker_record_failure [keeps_intros]:
  "tracker_frame P \<Longrightarrow> keeps P (tracker_record_failure T ip u v)"
  unfolding tracker_record_failure_def by (intro keeps_intros)

lemma keeps_tracker_record_success [keeps_intros]:
  "tracker_frame P \<Longrightarrow> keeps P (tracker_record_success T ip)"
  unfolding tracker_record_success_def by (intro keeps_intros keeps_set_core)

subsection \<open>Saving\<close>

lemma persist_core:
  \<comment> \<open>saving leaves the core as its snapshot does, whatever becomes of the file\<close>
  assumes "persist_if_enabled T st s = (s', Inr u)"
  shows "tr_settings s' = tr_settings s \<and> tr_readings s \<le> tr_readings s' \<and>
    (if fs_persist_state st
     then tr_core s' = fst (snapshot_for_persistence (tl_chrono T) (tr_core s) (tl_utc T (tr_readings s)) st)
     else s' = s)"
  using assms
  by (cases "fs_persist_state st")
    (auto simp: persist_if_enabled_def utc_now_def act_bind_def on_core_def act_update_def on_disk_def
      log_system_error_def audit_log_def split: prod.splits option.splits sum.splits)

lemma persist_saved:
  \<comment> \<open>a save that logged nothing wrote the file\<close>
  assumes "persist_if_enabled T st s = (s', Inr u)" and "fs_persist_state st" and "tr_audit s' = tr_audit s"
  shows "\<exists>core snapshot. snapshot_for_persistence (tl_chrono T) (tr_core s) (tl_utc T (tr_readings s)) st = (core, Some snapshot)
    \<and> write_state_file T (tl_utc T (Suc (tr_readings s))) (fs_state_path st) snapshot (tr_disk s) = (tr_disk s', Inr ())"
  using assms
  by (auto simp: persist_if_enabled_def utc_now_def act_bind_def on_core_def act_update_def on_disk_def
      log_system_error_def audit_log_def split: prod.splits option.splits sum.splits)

definition clock_monotone :: "tracker_libs \<Rightarrow> bool" where
  "clock_monotone T \<longleftrightarrow> mono (tl_utc T)"

lemma core_wf_after:
  "hm_wf core \<Longrightarrow> hm_wf (fst (record_failure C L core ip u v now st))"
  "hm_wf core \<Longrightarrow> hm_wf (fst (check_ip C L core ip now st))"
  "hm_wf core \<Longrightarrow> hm_wf (record_success L core ip now st)"
  by (auto simp: record_failure_def check_ip_def record_success_def Let_def hm.wf_put
      split: prod.split option.split)

lemma tracker_record_failure_run:
  assumes "tracker_record_failure T ip u v s = (s', Inr out)"
  obtains core s1 where
    "record_failure (tl_chrono T) (tl_net T) (tr_core s) ip u v (tl_utc T (tr_readings s)) (tr_settings s) = (core, Some out)"
    "s1 = s\<lparr>tr_readings := Suc (tr_readings s), tr_core := core\<rparr>"
    "persist_if_enabled T (tr_settings s) s1 = (s', Inr ())"
  using assms
  by (auto simp: tracker_record_failure_def utc_now_def act_bind_def act_then_def on_core_def act_update_def
      split: prod.splits option.splits sum.splits)

lemma tracker_check_ip_run:
  assumes "tracker_check_ip T ip s = (s', Inr r)"
  obtains core where
    "check_ip (tl_chrono T) (tl_net T) (tr_core s) ip (tl_utc T (tr_readings s)) (tr_settings s) = (core, Some r)"
  using assms
  by (auto simp: tracker_check_ip_def utc_now_def act_bind_def act_then_def on_core_def act_update_def
      split: prod.splits option.splits sum.splits)

text \<open>
  C19: A reported ban is enforced whatever becomes of the state file.  When a failure reports
  a ban, the next check of the address by the tracker reports it as banned exactly until the
  reported end, whether or not the state could be saved in between; a save that fails only
  adds an event to the audit trail.
\<close>
theorem ban_enforced_despite_disk:
  assumes "clock_monotone T" and "hm_wf (tr_core s)"
    and fail: "tracker_record_failure T ip u v s = (s1, Inr out)" and b: "fo_ban_event out = Some b"
    and check: "tracker_check_ip T ip s1 = (s2, Inr r)"
  shows "pc_banned r = (tl_utc T (tr_readings s1) < be_ban_until b)"
proof -
  let ?st = "tr_settings s" and ?t = "tl_utc T (tr_readings s1)"
  obtain core s0 where f: "record_failure (tl_chrono T) (tl_net T) (tr_core s) ip u v (tl_utc T (tr_readings s)) ?st = (core, Some out)"
    and s0: "s0 = s\<lparr>tr_readings := Suc (tr_readings s), tr_core := core\<rparr>"
    and p: "persist_if_enabled T ?st s0 = (s1, Inr ())"
    by (rule tracker_record_failure_run [OF fail])
  note saved = persist_core [OF p]
  have guarded: "fs_enabled ?st" "\<not> is_whitelisted (tl_net T) ?st ip"
    using f b by (auto simp: record_failure_def quiet_outcome_def split: if_splits)
  have wf: "hm_wf core" using core_wf_after(1) [OF assms(2)] f by (metis fst_conv)
  obtain core2 where c: "check_ip (tl_chrono T) (tl_net T) (tr_core s1) ip ?t (tr_settings s1) = (core2, Some r)"
    by (rule tracker_check_ip_run [OF check])
  have "tl_utc T (tr_readings s0) \<le> ?t" using saved assms(1) by (simp add: clock_monotone_def monoD)
  then have "active_ban (tr_core s1) ip ?t = active_ban core ip ?t"
    using saved wf active_ban_snapshot [OF wf] by (simp add: s0 split: if_splits)
  moreover have "active_ban core ip ?t = (if ?t < be_ban_until b then Some (be_ban_until b) else None)"
  proof -
    show ?thesis using f b guarded
      by (auto simp: record_failure_def Let_def active_ban_insert split: if_splits prod.splits option.splits)
  qed
  ultimately show ?thesis
    using check_ip_guarded(2) [OF _ _ c] guarded saved by (simp add: s0)
qed

subsection \<open>Loading what was saved\<close>

definition restored :: "int \<Rightarrow> duration \<Rightarrow> abuse_entry \<Rightarrow> abuse_entry" where
  \<comment> \<open>an entry as loading brings it up to date\<close>
  "restored now window e = e\<lparr>
     ae_recent_failures := dropWhile (\<lambda>t. t + int window < now) (ae_recent_failures e),
     ae_ban_until := (case ae_ban_until e of Some u \<Rightarrow> if u \<le> now then None else Some u | None \<Rightarrow> None)\<rparr>"

lemma restore_entry_fits:
  assumes "chrono_fits (tl_chrono T) (fs_find_time st)" and "parse_ip raw = Some ip"
    and "ae_last_failure e \<noteq> None"
  shows "restore_entry T now st (Some m) (raw, e) = Some (hm_insert ip (restored now (fs_find_time st) e) m)"
  using assms
  by (cases e) (auto simp: restore_entry_def prune_failures_fits restored_def Let_def split: option.splits)

lemma restore_all:
  assumes "chrono_fits (tl_chrono T) (fs_find_time st)" and "hm_wf ps"
    and "\<forall>(raw, e)\<in>set ps. (\<exists>ip. ip_wf ip \<and> raw = display_ip ip) \<and> ae_last_failure e \<noteq> None"
  shows "\<exists>core. foldl (restore_entry T now st) (Some m) ps = Some core \<and>
    (\<forall>ip. ip_wf ip \<longrightarrow> hm_get core ip = (case hm_get ps (display_ip ip) of
        Some e \<Rightarrow> Some (restored now (fs_find_time st) e) | None \<Rightarrow> hm_get m ip))
    \<and> (\<forall>ip. \<not> ip_wf ip \<longrightarrow> hm_get core ip = hm_get m ip)"
  using assms
proof (induction ps arbitrary: m)
  case Nil
  then show ?case by (simp add: hm.get_empty)
next
  case (Cons p ps)
  obtain raw e where p: "p = (raw, e)" by fastforce
  with Cons.prems(3) obtain ip where ip: "ip_wf ip" "raw = display_ip ip" "ae_last_failure e \<noteq> None"
    by auto
  let ?m = "hm_insert ip (restored now (fs_find_time st) e) m"
  have step: "restore_entry T now st (Some m) p = Some ?m"
    using restore_entry_fits [OF Cons.prems(1) _ ip(3), of raw ip] p ip parse_display_ip by simp
  have none: "hm_get ps (display_ip ip) = None"
    using Cons.prems(2) p ip by (auto simp: hm_wf_def hm_get_def map_of_eq_None_iff)
  have get: "hm_get (p # ps) k = (if k = display_ip ip then Some e else hm_get ps k)" for k
    by (simp add: hm_get_def p ip)
  have wf: "hm_wf ps" using Cons.prems(2) by (simp add: hm_wf_def)
  have all: "\<forall>(raw, e)\<in>set ps. (\<exists>ip. ip_wf ip \<and> raw = display_ip ip) \<and> ae_last_failure e \<noteq> None"
    using Cons.prems(3) by simp
  obtain core where core: "foldl (restore_entry T now st) (Some ?m) ps = Some core"
    "\<And>a. ip_wf a \<Longrightarrow> hm_get core a = (case hm_get ps (display_ip a) of
        Some e \<Rightarrow> Some (restored now (fs_find_time st) e) | None \<Rightarrow> hm_get ?m a)"
    "\<And>a. \<not> ip_wf a \<Longrightarrow> hm_get core a = hm_get ?m a"
    using Cons.IH [OF Cons.prems(1) wf all, of ?m] by blast
  have "hm_get core a = (case hm_get (p # ps) (display_ip a) of
        Some e \<Rightarrow> Some (restored now (fs_find_time st) e) | None \<Rightarrow> hm_get m a)" if "ip_wf a" for a
  proof (cases "a = ip")
    case True
    then show ?thesis using core(2) [OF that] none get by simp
  next
    case False
    then have "display_ip a \<noteq> display_ip ip" using display_ip_inject that ip(1) by blast
    then show ?thesis using core(2) [OF that] get False by (simp split: option.split)
  qed
  moreover have "hm_get core a = hm_get m a" if "\<not> ip_wf a" for a
    using core(3) [OF that] that ip(1) by auto
  ultimately show ?case using core(1) step by auto
qed

lemma persisted_entries:
  \<comment> \<open>the entries of a snapshot under the text of their address\<close>
  assumes "hm_wf core" and "\<forall>ip e. hm_get core ip = Some e \<longrightarrow> ip_wf ip"
    and "ps = foldl (\<lambda>m (ip, e). hm_insert (display_ip ip) e m) m0 core"
    and "\<forall>(ip, e)\<in>set core. hm_get m0 (display_ip ip) = None"
  shows "hm_get ps k = (case hm_get m0 k of Some e \<Rightarrow> Some e
      | None \<Rightarrow> (if \<exists>ip. ip_wf ip \<and> k = display_ip ip \<and> hm_get core ip \<noteq> None
          then hm_get core (the (parse_ip k)) else None))"
  using assms
proof (induction core arbitrary: m0 ps)
  case Nil
  then show ?case by (simp add: hm.get_empty split: option.split)
next
  case (Cons p core)
  obtain ip e where p: "p = (ip, e)" by fastforce
  have mem: "hm_get (p # core) a = (if a = ip then Some e else hm_get core a)" for a
    by (simp add: hm_get_def p)
  have ip: "ip_wf ip" using Cons.prems(2) mem by auto
  have wf: "hm_wf core" "hm_get core ip = None"
    using Cons.prems(1) p by (auto simp: hm_wf_def hm_get_def map_of_eq_None_iff)
  have wfs: "\<forall>a e. hm_get core a = Some e \<longrightarrow> ip_wf a"
    using Cons.prems(2) mem wf(2) by (metis option.distinct(1))
  have fresh: "\<forall>(a, e')\<in>set core. hm_get (hm_insert (display_ip ip) e m0) (display_ip a) = None"
  proof (intro ballI, clarify)
    fix a e' assume ae: "(a, e') \<in> set core"
    then have "hm_get core a = Some e'" using wf(1) by (simp add: hm_get_mem)
    then have "ip_wf a" "a \<noteq> ip" using wfs wf(2) by auto
    then have "display_ip a \<noteq> display_ip ip" using display_ip_inject ip by blast
    moreover have "hm_get m0 (display_ip a) = None" using Cons.prems(4) ae by auto
    ultimately show "hm_get (hm_insert (display_ip ip) e m0) (display_ip a) = None" by simp
  qed
  have "ps = foldl (\<lambda>m (ip, e). hm_insert (display_ip ip) e m) (hm_insert (display_ip ip) e m0) core"
    using Cons.prems(3) p by simp
  note IH = Cons.IH [OF wf(1) wfs this fresh]
  have m0: "hm_get m0 (display_ip ip) = None" using Cons.prems(4) p by auto
  show ?case
  proof (cases "k = display_ip ip")
    case True
    have "hm_get ps k = Some e" using IH True by simp
    then show ?thesis using True m0 ip mem parse_display_ip by auto
  next
    case False
    then have "hm_get ps k = (case hm_get m0 k of Some e \<Rightarrow> Some e
      | None \<Rightarrow> (if \<exists>ip. ip_wf ip \<and> k = display_ip ip \<and> hm_get core ip \<noteq> None
          then hm_get core (the (parse_ip k)) else None))" using IH by simp
    moreover have "(\<exists>a. ip_wf a \<and> k = display_ip a \<and> hm_get core a \<noteq> None)
        = (\<exists>a. ip_wf a \<and> k = display_ip a \<and> hm_get (p # core) a \<noteq> None)"
      using False by (auto simp: mem)
    moreover have "hm_get core (the (parse_ip k)) = hm_get (p # core) (the (parse_ip k))"
      if "\<exists>a. ip_wf a \<and> k = display_ip a \<and> hm_get core a \<noteq> None"
      using that False parse_display_ip by (auto simp: mem)
    ultimately show ?thesis
      by (cases "\<exists>a. ip_wf a \<and> k = display_ip a \<and> hm_get core a \<noteq> None") (simp_all only: if_True if_False)
  qed
qed

definition reads_back :: "os_ops \<Rightarrow> bool" where
  \<comment> \<open>\<^verbatim>\<open>fs::read\<close> of a regular file gives its content\<close>
  "reads_back os \<longleftrightarrow> (\<forall>d p n. d p = Some n \<longrightarrow> node_kind n = RegularFile \<longrightarrow> os_read os d p = Inr (node_content n))"

definition json_roundtrip :: "tracker_libs \<Rightarrow> bool" where
  \<comment> \<open>what was serialised is read back, the entries in whatever order\<close>
  "json_roundtrip T \<longleftrightarrow> (\<forall>st bytes. tl_encode T st = Inr bytes \<longrightarrow> hm_wf st \<longrightarrow>
     (\<exists>st'. tl_decode T (with_final_newline bytes) = Inr st' \<and> hm_wf st' \<and> hm_get st' = hm_get st))"

lemma snapshot_wf_map:
  "hm_wf m0 \<Longrightarrow> hm_wf (foldl (\<lambda>m (ip, e). hm_insert (display_ip ip) e m) m0 core)"
  by (induction core arbitrary: m0) (auto simp: hm.wf_put split: prod.split)

lemma snapshot_fits:
  \<comment> \<open>with ordinary durations a snapshot of a good core keeps every entry, pruned\<close>
  assumes "core_ok core" and "chrono_fits C (fs_find_time st)"
    and "snapshot_for_persistence C core now st = (core', Some ps)"
  shows "core_ok core' \<and> ps = foldl (\<lambda>m (ip, e). hm_insert (display_ip ip) e m) [] core'
    \<and> (\<forall>ip. hm_get core' ip = map_option (\<lambda>e. e\<lparr>ae_recent_failures :=
          dropWhile (\<lambda>t. t + int (fs_find_time st) < now) (ae_recent_failures e)\<rparr>) (hm_get core ip))"
proof -
  let ?f = "\<lambda>e. e\<lparr>ae_recent_failures :=
          dropWhile (\<lambda>t. t + int (fs_find_time st) < now) (ae_recent_failures e)\<rparr>"
  have "retain_active C now st es = (map (\<lambda>(ip, e). (ip, ?f e)) es, True)"
    if "\<forall>(ip, e)\<in>set es. ae_last_failure e \<noteq> None" for es
    using that
  proof (induction es)
    case (Cons x es)
    then show ?case
      by (cases x) (simp add: prune_failures_fits [OF assms(2)] worth_persisting_def)
  qed simp
  moreover have "\<forall>(ip, e)\<in>set core. ae_last_failure e \<noteq> None"
    using assms(1) by (auto simp: core_ok_def entry_ok_def hm_get_mem [symmetric])
  ultimately have "retain_active C now st core = (map (\<lambda>(ip, e). (ip, ?f e)) core, True)" by blast
  with assms(3) have eqs: "core' = map (\<lambda>(ip, e). (ip, ?f e)) core"
    "ps = foldl (\<lambda>m (ip, e). hm_insert (display_ip ip) e m) [] core'"
    by (auto simp: snapshot_for_persistence_def)
  moreover have "core_ok core'" using snapshot_ok [OF assms(1)] assms(3) by (metis fst_conv)
  ultimately show ?thesis by (simp add: hm_get_map_values [where f = "\<lambda>_. ?f"])
qed

lemma dropWhile_later:
  fixes w :: int
  shows "now1 \<le> now2 \<Longrightarrow> dropWhile (\<lambda>t. t + w < now2) (dropWhile (\<lambda>t. t + w < now1) ts)
    = dropWhile (\<lambda>t. t + w < now2) ts"
  by (induction ts) auto

lemma saved_state_loads:
  assumes ok: "core_ok (tr_core s)" and laws: "os_laws (tl_os T)" "reads_back (tl_os T)" "json_roundtrip T"
    and fits: "chrono_fits (tl_chrono T) (fs_find_time st)"
    and path: "canonical (fs_state_path st)" "path_parent (fs_state_path st) = Some parent"
    and persist: "fs_persist_state st" "persist_if_enabled T st s = (s1, Inr u)" "tr_audit s1 = tr_audit s"
    and disk: "tr_disk s2 = tr_disk s1"
    and load: "load_persisted_state T st s2 = (s3, r)"
  shows "r = Inr () \<and> tr_audit s3 = tr_audit s2 \<and> (\<forall>ip. hm_get (tr_core s3) ip = map_option
    (\<lambda>e. restored (tl_utc T (tr_readings s2)) (fs_find_time st) (e\<lparr>ae_recent_failures :=
        dropWhile (\<lambda>t. t + int (fs_find_time st) < tl_utc T (tr_readings s)) (ae_recent_failures e)\<rparr>))
    (hm_get (tr_core s) ip))"
proof -
  let ?now1 = "tl_utc T (tr_readings s)" and ?now2 = "tl_utc T (tr_readings s2)" and ?w = "fs_find_time st"
  obtain core ps where snap: "snapshot_for_persistence (tl_chrono T) (tr_core s) ?now1 st = (core, Some ps)"
    and written: "write_state_file T (tl_utc T (Suc (tr_readings s))) (fs_state_path st) ps (tr_disk s) = (tr_disk s1, Inr ())"
    using persist_saved [OF persist(2,1,3)] by blast
  note core = snapshot_fits [OF ok fits snap]
  let ?old = "res_ok (os_metadata (tl_os T) (fst (os_create_dir_all (tl_os T) parent (tr_disk s))) (fs_state_path st))"
  obtain bytes where bytes: "tl_encode T ps = Inr bytes"
    "replaced_by (tr_disk s1) (fs_state_path st) ?old (with_final_newline bytes)"
    using replace_file_atomic [OF laws(1) path written [unfolded write_state_file_def] refl refl]
    by (auto simp: map_err_def split: sum.splits)
  then have read: "os_read (tl_os T) (tr_disk s2) (fs_state_path st) = Inr (with_final_newline bytes)"
    using laws(2) disk by (auto simp: reads_back_def replaced_by_def)
  have "hm_wf ps" using core snapshot_wf_map [OF hm.wf_empty] by simp
  then obtain ps' where ps': "tl_decode T (with_final_newline bytes) = Inr ps'" "hm_wf ps'" "hm_get ps' = hm_get ps"
    using laws(3) bytes(1) unfolding json_roundtrip_def by blast
  have wf: "hm_wf core" "\<forall>ip e. hm_get core ip = Some e \<longrightarrow> ip_wf ip"
    "\<forall>ip e. hm_get core ip = Some e \<longrightarrow> ae_last_failure e \<noteq> None"
    using core by (auto simp: core_ok_def entry_ok_def)
  have get: "hm_get ps k = (if \<exists>ip. ip_wf ip \<and> k = display_ip ip \<and> hm_get core ip \<noteq> None
      then hm_get core (the (parse_ip k)) else None)" for k
    using persisted_entries [OF wf(1,2), of ps "[]" k] core by (simp add: hm.get_empty)
  have "(\<exists>ip. ip_wf ip \<and> raw = display_ip ip) \<and> ae_last_failure e \<noteq> None"
    if "(raw, e) \<in> set ps'" for raw e
  proof -
    have "hm_get ps raw = Some e" using that ps'(2,3) by (simp add: hm_get_mem [symmetric])
    then show ?thesis using get [of raw] wf(3) parse_display_ip by (auto split: if_splits)
  qed
  then have all: "\<forall>(raw, e)\<in>set ps'. (\<exists>ip. ip_wf ip \<and> raw = display_ip ip) \<and> ae_last_failure e \<noteq> None"
    by fast
  obtain core3 where core3: "foldl (restore_entry T ?now2 st) (Some []) ps' = Some core3"
    "\<And>ip. ip_wf ip \<Longrightarrow> hm_get core3 ip = (case hm_get ps' (display_ip ip) of
        Some e \<Rightarrow> Some (restored ?now2 ?w e) | None \<Rightarrow> None)"
    "\<And>ip. \<not> ip_wf ip \<Longrightarrow> hm_get core3 ip = None"
    using restore_all [OF fits ps'(2) all, of ?now2 "[]"] unfolding hm.get_empty by blast
  have s3: "s3 = s2\<lparr>tr_readings := Suc (tr_readings s2), tr_core := core3\<rparr>" "r = Inr ()"
    using load persist(1) read ps'(1) core3(1)
    by (auto simp: load_persisted_state_def read_state_file_def act_bind_def utc_now_def)
  have "hm_get core3 ip = map_option (restored ?now2 ?w) (hm_get core ip)" for ip
  proof (cases "ip_wf ip")
    case True
    then have "hm_get ps' (display_ip ip) = hm_get core ip"
      using get [of "display_ip ip"] ps'(3) display_ip_inject parse_display_ip [OF True] by auto
    then show ?thesis using core3(2) [OF True] by (simp split: option.split)
  next
    case False
    with wf(2) have "hm_get core ip = None" by fastforce
    then show ?thesis using core3(3) [OF False] by simp
  qed
  then show ?thesis using s3 core by (simp add: option.map_comp comp_def)
qed

text \<open>
  C20: A restart forgets nothing that matters.  If the state was saved without an error and is
  loaded later from the same disk, then every address has the ban in force, the number of bans
  and the failures inside the window that it had in memory; only what has run out in the
  meantime is dropped, and loading reports no error.
\<close>
theorem restart_keeps_bans:
  assumes ok: "core_ok (tr_core s)" and laws: "os_laws (tl_os T)" "reads_back (tl_os T)" "json_roundtrip T"
    and fits: "chrono_fits (tl_chrono T) (fs_find_time st)"
    and path: "canonical (fs_state_path st)" "path_parent (fs_state_path st) = Some parent"
    and persist: "fs_persist_state st" "persist_if_enabled T st s = (s1, Inr u)" "tr_audit s1 = tr_audit s"
    and disk: "tr_disk s2 = tr_disk s1" and later: "tl_utc T (tr_readings s) \<le> tl_utc T (tr_readings s2)"
    and load: "load_persisted_state T st s2 = (s3, r)" and t: "tl_utc T (tr_readings s2) \<le> t"
  shows "r = Inr () \<and> tr_audit s3 = tr_audit s2
    \<and> active_ban (tr_core s3) ip t = active_ban (tr_core s) ip t
    \<and> ae_ban_count (hm_entry_or ip default_entry (tr_core s3)) = ae_ban_count (hm_entry_or ip default_entry (tr_core s))
    \<and> recents (tr_core s3) ip = dropWhile (\<lambda>f. f + int (fs_find_time st) < tl_utc T (tr_readings s2)) (recents (tr_core s) ip)"
proof -
  note loaded = saved_state_loads [OF ok laws fits path persist disk load]
  show ?thesis
  proof (cases "hm_get (tr_core s) ip")
    case None
    with loaded show ?thesis by (simp add: active_ban_def hm_entry_or_def recents_def default_entry_def)
  next
    case (Some e)
    with loaded show ?thesis
      using t dropWhile_later [OF later]
      by (cases "ae_ban_until e") (auto simp: active_ban_def hm_entry_or_def recents_def restored_def)
  qed
qed

lemma load_missing:
  "fs_persist_state st \<Longrightarrow> os_read (tl_os T) (tr_disk s) (fs_state_path st) = Inl (IoNotFound m)
   \<Longrightarrow> load_persisted_state T st s = (s\<lparr>tr_core := []\<rparr>, Inr ())"
  by (simp add: load_persisted_state_def act_bind_def read_state_file_def)

text \<open>
  A reload of the configuration replaces the bans in memory by those of the state file.
  When no state file exists, because saving has failed so far, reloading lifts every ban in
  force and forgets every failure.
\<close>
theorem reload_lifts_unsaved_bans:
  assumes "reload_from_config T config s = (s', Inr (Inr ()))"
    and "fs_persist_state (tr_settings s')"
    and "os_read (tl_os T) (tr_disk s) (fs_state_path (tr_settings s')) = Inl (IoNotFound m)"
  shows "tr_core s' = [] \<and> active_ban (tr_core s') ip t = None \<and> recents (tr_core s') ip = []"
proof -
  obtain settings where e: "effective (tl_net T) (os_read (tl_os T) (tr_disk s))
      (unwrap_or default_fail2ban_config (cf_fail2ban config)) (sc_whitelist_path (cf_settings config)) = Inr settings"
    using assms(1) by (auto simp: reload_from_config_def split: sum.splits)
  then have run: "act_then (load_persisted_state T settings) (act_return (Inr ())) (s\<lparr>tr_settings := settings\<rparr>)
      = (s', Inr (Inr () :: unit gw_result))"
    using assms(1) by (simp add: reload_from_config_def)
  have kept: "keeps (\<lambda>s. tr_settings s = settings) (act_then (load_persisted_state T settings) (act_return (Inr () :: unit gw_result)))"
    by (intro keeps_intros) (simp add: tracker_frame_def)
  have "tr_settings s' = settings" using keeps_run [OF kept _ run] by simp
  then have eq: "s\<lparr>tr_settings := settings, tr_core := []\<rparr> = s'"
    using run assms(2,3) load_missing [of settings T "s\<lparr>tr_settings := settings\<rparr>" m]
    by (auto simp: act_then_def act_bind_def)
  have "tr_core s' = []" using arg_cong [OF eq, of tr_core] by simp
  then show ?thesis
    by (simp add: active_ban_def recents_def hm_entry_or_def default_entry_def hm.get_empty)
qed

subsection \<open>The operations return\<close>

lemma snapshot_total:
  assumes "chrono_fits C (fs_find_time st)"
  shows "\<exists>core' ps. snapshot_for_persistence C core now st = (core', Some ps)"
proof -
  have "snd (retain_active C now st es)" for es
    by (induction es) (auto simp: prune_failures_fits [OF assms] split: prod.split)
  then show ?thesis by (auto simp: snapshot_for_persistence_def split: prod.split) (metis snd_conv)
qed

lemma persist_total:
  assumes "chrono_fits (tl_chrono T) (fs_find_time st)"
  shows "\<exists>s'. persist_if_enabled T st s = (s', Inr ())"
proof (cases "fs_persist_state st")
  case True
  obtain core ps where "snapshot_for_persistence (tl_chrono T) (tr_core s) (tl_utc T (tr_readings s)) st = (core, Some ps)"
    using snapshot_total [OF assms] by blast
  with True show ?thesis
    by (auto simp: persist_if_enabled_def utc_now_def act_bind_def on_core_def act_update_def on_disk_def
        log_system_error_def audit_log_def split: prod.split sum.split)
qed (simp add: persist_if_enabled_def)

lemma tracker_record_failure_total:
  assumes "chrono_fits (tl_chrono T) (fs_find_time (tr_settings s))"
    and "record_failure (tl_chrono T) (tl_net T) (tr_core s) ip u v (tl_utc T (tr_readings s)) (tr_settings s) = (core, Some out)"
  shows "\<exists>s'. tracker_record_failure T ip u v s = (s', Inr out)"
proof -
  obtain s' where "persist_if_enabled T (tr_settings s) (s\<lparr>tr_readings := Suc (tr_readings s), tr_core := core\<rparr>) = (s', Inr ())"
    using persist_total [OF assms(1)] by blast
  with assms(2) show ?thesis
    by (simp add: tracker_record_failure_def utc_now_def act_bind_def act_then_def on_core_def act_update_def)
qed

lemma check_ip_total:
  assumes "chrono_fits C (fs_find_time st)"
  shows "\<exists>core' r. check_ip C L core ip now st = (core', Some r)"
  by (auto simp: check_ip_def Let_def prune_failures_fits [OF assms] split: option.split)

lemma tracker_check_ip_total:
  assumes "\<And>d. chrono_fits (tl_chrono T) d"
  shows "\<exists>s' r. tracker_check_ip T ip s = (s', Inr r)"
proof -
  let ?st = "tr_settings s"
  obtain core r where c: "check_ip (tl_chrono T) (tl_net T) (tr_core s) ip (tl_utc T (tr_readings s)) ?st = (core, Some r)"
    using check_ip_total [OF assms] by blast
  obtain s' where "act_when (pc_expired_ban r \<or> pc_banned r) (persist_if_enabled T ?st)
      (s\<lparr>tr_readings := Suc (tr_readings s), tr_core := core\<rparr>) = (s', Inr ())"
    using persist_total [OF assms] by (cases "pc_expired_ban r \<or> pc_banned r") auto
  with c show ?thesis
    by (simp add: tracker_check_ip_def utc_now_def act_bind_def act_then_def on_core_def act_update_def)
qed

subsection \<open>Instances\<close>

definition saved_settings :: fail2ban_settings where
  "saved_settings = strict_settings\<lparr>fs_state_path := ''/s''\<rparr>"

definition saved_state :: persisted_state where
  "saved_state = [(display_ip sample_ip, banned_entry)]"

definition sample_tracker_libs :: tracker_libs where
  \<comment> \<open>an instance of the parameters, for the witnesses: a codec that knows one state\<close>
  "sample_tracker_libs = \<lparr>tl_chrono = sample_chrono, tl_net = sample_libs, tl_os = sample_os,
     tl_utc = (\<lambda>n. int n + 7),
     tl_encode = (\<lambda>st. if st = saved_state then Inr ''{}'' else Inl ''unsupported''),
     tl_decode = (\<lambda>_. Inr saved_state)\<rparr>"

definition sample_tracker :: "abuse_core \<Rightarrow> tracker" where
  "sample_tracker core = \<lparr>tr_settings = saved_settings, tr_core = core, tr_audit = [],
     tr_disk = (\<lambda>_. None), tr_readings = 0\<rparr>"

lemma sample_tracker_libs_simps [simp]:
  "tl_chrono sample_tracker_libs = sample_chrono" "tl_net sample_tracker_libs = sample_libs"
  "tl_os sample_tracker_libs = sample_os" "tl_utc sample_tracker_libs n = int n + 7"
  by (simp_all add: sample_tracker_libs_def)

lemma sample_tracker_laws:
  "clock_monotone sample_tracker_libs" "reads_back sample_os" "json_roundtrip sample_tracker_libs"
  by (auto simp: clock_monotone_def mono_def reads_back_def sample_os_def node_or_missing_def
      json_roundtrip_def sample_tracker_libs_def)

definition sample_plain_config :: config_file where
  "sample_plain_config = \<lparr>cf_users = [],
     cf_settings = \<lparr>sc_user_key_root = None, sc_known_hosts_path = None, sc_audit_log_path = None,
       sc_whitelist_path = None, sc_per_user_per_server = None, sc_drop_to_menu = None,
       sc_hide_proxy_ip = None, sc_enforce_password_policy = None, sc_min_password_policy = None\<rparr>,
     cf_kex_policy = default_kex_policy, cf_fail2ban = None, cf_server_user_policies = []\<rparr>"

lemma check_ip_settings_path:
  "check_ip C L core ip now (st\<lparr>fs_state_path := p\<rparr>) = check_ip C L core ip now st"
  "record_failure C L core ip u v now (st\<lparr>fs_state_path := p\<rparr>) = record_failure C L core ip u v now st"
  "snapshot_for_persistence C core now (st\<lparr>fs_state_path := p\<rparr>) = snapshot_for_persistence C core now st"
proof -
  have "retain_active C now (st\<lparr>fs_state_path := p\<rparr>) core = retain_active C now st core" for core
    by (induction core) (auto split: prod.split)
  then show "snapshot_for_persistence C core now (st\<lparr>fs_state_path := p\<rparr>) = snapshot_for_persistence C core now st"
    by (simp add: snapshot_for_persistence_def)
  have same: "is_whitelisted L (st\<lparr>fs_state_path := p\<rparr>) ip = is_whitelisted L st ip"
    "compute_ban_duration (st\<lparr>fs_state_path := p\<rparr>) = compute_ban_duration st"
    "failure_delay (st\<lparr>fs_state_path := p\<rparr>) = failure_delay st"
    by (simp_all add: is_whitelisted_def compute_ban_duration_def failure_delay_def fun_eq_iff)
  then show "check_ip C L core ip now (st\<lparr>fs_state_path := p\<rparr>) = check_ip C L core ip now st"
    by (cases "hm_get core ip") (simp_all add: check_ip_def)
  show "record_failure C L core ip u v now (st\<lparr>fs_state_path := p\<rparr>) = record_failure C L core ip u v now st"
    by (cases "prune_failures C (hm_entry_or ip default_entry core) now (fs_find_time st)")
      (simp add: record_failure_def same Let_def)
qed

lemma sample_snapshot:
  "now \<le> 10 ^ 9 \<Longrightarrow> snapshot_for_persistence sample_chrono [(sample_ip, banned_entry)] now saved_settings
   = ([(sample_ip, banned_entry)], Some saved_state)"
  by (simp add: saved_settings_def check_ip_settings_path)
    (simp add: snapshot_for_persistence_def prune_failures_fits sample_chrono_ok worth_persisting_def
      saved_state_def hm_insert_def banned_entry_def strict_settings_def default_fail2ban_settings_def
      from_secs_def nanos_per_sec_def)

lemma saved_path: "path_components ''/s'' = [RootDir, Normal ''s'']" "path_components ''/'' = [RootDir]"
  by code_simp+

lemma saved_path_facts:
  "canonical (fs_state_path saved_settings)" "path_parent (fs_state_path saved_settings) = Some ''/''"
  by (simp_all add: saved_settings_def saved_path canonical_def path_of_def path_push_def
      path_parent_def starts_with_def)

lemma sample_write:
  "\<exists>d. write_state_file sample_tracker_libs now ''/s'' saved_state (\<lambda>_. None) = (d, Inr ())"
proof -
  define t where "t = temp_path_of sample_os now ''fail2ban_state'' ''/'' ''/s''"
  have "t \<noteq> ''/s''"
    using temp_path_differs saved_path_facts by (simp add: t_def saved_settings_def canonical_def)
  then have install: "\<exists>d. install_file sample_os ''/'' ''/s'' t None bytes (\<lambda>_. None) = (d, Inr ())" for bytes
    by (simp add: install_file_def keep_owner_def fsync_parent_def prog_bind_def prog_call_def
        prog_return_def sample_os_def change_node_def)
  have calls: "os_symlink_metadata sample_os (\<lambda>_. None) p = Inl (IoNotFound ''not found'')"
    "os_metadata sample_os (\<lambda>_. None) p = Inl (IoNotFound ''not found'')"
    "os_create_dir_all sample_os p d = (d, Inr ())" for p d
    by (simp_all add: sample_os_def node_or_missing_def)
  show ?thesis
    using saved_path_facts(2) install [of "with_final_newline ''{}''"]
    by (simp add: write_state_file_def replace_file_def calls validate_path_has_no_symlinks_def
        saved_path symlink_step_def saved_settings_def prog_bind_def prog_call_def prog_return_def
        Let_def t_def sample_tracker_libs_def)
qed

lemma sample_persist:
  assumes "tr_core s = [(sample_ip, banned_entry)]" and "tr_disk s = (\<lambda>_. None)" and "tr_readings s = 0"
  shows "\<exists>s'. persist_if_enabled sample_tracker_libs saved_settings s = (s', Inr ()) \<and> tr_audit s' = tr_audit s"
proof -
  have "fs_persist_state saved_settings" "fs_state_path saved_settings = ''/s''"
    by (simp_all add: saved_settings_def strict_settings_def default_fail2ban_settings_def)
  moreover obtain d where "write_state_file sample_tracker_libs 8 ''/s'' saved_state (\<lambda>_. None) = (d, Inr ())"
    using sample_write by blast
  ultimately show ?thesis
    using assms sample_snapshot [of 7]
    by (simp add: persist_if_enabled_def utc_now_def act_bind_def on_core_def act_update_def on_disk_def)
qed

lemma restart_keeps_bans_witness:
  "\<exists>s1 s3. persist_if_enabled sample_tracker_libs saved_settings (sample_tracker [(sample_ip, banned_entry)]) = (s1, Inr ())
    \<and> load_persisted_state sample_tracker_libs saved_settings ((sample_tracker [])\<lparr>tr_disk := tr_disk s1, tr_readings := 5\<rparr>) = (s3, Inr ())
    \<and> active_ban (tr_core s3) sample_ip 20 = Some (7 + int (from_secs 600))"
proof -
  let ?s = "sample_tracker [(sample_ip, banned_entry)]"
  obtain s1 where s1: "persist_if_enabled sample_tracker_libs saved_settings ?s = (s1, Inr ())" "tr_audit s1 = tr_audit ?s"
    using sample_persist [of ?s] by (auto simp: sample_tracker_def)
  let ?s2 = "(sample_tracker [])\<lparr>tr_disk := tr_disk s1, tr_readings := 5\<rparr>"
  obtain s3 r where s3: "load_persisted_state sample_tracker_libs saved_settings ?s2 = (s3, r)" by fastforce
  have ok: "core_ok (tr_core ?s)" using abuse.reach_inv [OF strict_reachable] by (simp add: sample_tracker_def)
  have "active_ban (tr_core ?s) sample_ip 20 = Some (7 + int (from_secs 600))"
    by (simp add: sample_tracker_def active_ban_def hm_get_def banned_entry_def from_secs_def nanos_per_sec_def)
  then show ?thesis
    using restart_keeps_bans [OF ok _ _ sample_tracker_laws(3) _ saved_path_facts _ s1 _ _ s3, of 20 sample_ip]
      s1 s3 sample_tracker_laws sample_os_laws sample_chrono_ok
    by (auto simp: sample_tracker_def saved_settings_def strict_settings_def default_fail2ban_settings_def)
qed

lemma ban_enforced_despite_disk_witness:
  "\<exists>s1 out s2 r. tracker_record_failure sample_tracker_libs sample_ip (Some ''bob'') None (sample_tracker []) = (s1, Inr out)
    \<and> tracker_check_ip sample_tracker_libs sample_ip s1 = (s2, Inr r)
    \<and> pc_banned r = (int (tr_readings s1) < int (from_secs 600))"
proof -
  let ?s = "sample_tracker []" and ?T = sample_tracker_libs
  obtain out where out: "record_failure sample_chrono sample_libs [] sample_ip (Some ''bob'') None 7 saved_settings
      = ([(sample_ip, banned_entry)], Some out)"
    "fo_ban_event out = Some \<lparr>be_kind = BanCreated, be_ban_until = 7 + int (from_secs 600), be_ban_duration = from_secs 600\<rparr>"
    using strict_failure by (simp add: saved_settings_def check_ip_settings_path)
  have fits: "chrono_fits (tl_chrono ?T) d" for d by (simp add: sample_chrono_ok)
  obtain s1 where s1: "tracker_record_failure ?T sample_ip (Some ''bob'') None ?s = (s1, Inr out)"
    using tracker_record_failure_total [of ?T ?s sample_ip "Some ''bob''" None "[(sample_ip, banned_entry)]" out]
      fits out(1) by (auto simp: sample_tracker_def)
  obtain s2 r where s2: "tracker_check_ip ?T sample_ip s1 = (s2, Inr r)"
    using tracker_check_ip_total [OF fits] by blast
  from ban_enforced_despite_disk [OF sample_tracker_laws(1) _ s1 out(2) s2] s1 s2 show ?thesis
    by (auto simp: sample_tracker_def hm_wf_def)
qed

lemma reload_lifts_unsaved_bans_witness:
  "tr_core (fst (reload_from_config sample_tracker_libs sample_plain_config (sample_tracker [(sample_ip, banned_entry)]))) = []"
proof -
  let ?s = "sample_tracker [(sample_ip, banned_entry)]" and ?T = sample_tracker_libs
  have none: "os_read sample_os (\<lambda>_. None) p = Inl (IoNotFound ''not found'')" for p
    by (simp add: sample_os_def node_or_missing_def)
  have e: "effective sample_libs f default_fail2ban_config None = Inr default_fail2ban_settings" for f
    by (simp add: effective_def default_fail2ban_config_def default_fail2ban_settings_def
        parse_duration_option_def parse_whitelist_def validate_fail2ban_settings_def from_secs_def nanos_per_sec_def)
  have run: "reload_from_config ?T sample_plain_config ?s
      = (?s\<lparr>tr_settings := default_fail2ban_settings, tr_core := []\<rparr>, Inr (Inr ()))"
    using load_missing [of default_fail2ban_settings ?T "?s\<lparr>tr_settings := default_fail2ban_settings\<rparr>"] none
    by (simp add: reload_from_config_def sample_plain_config_def e act_then_def act_bind_def
        sample_tracker_def)
      (simp add: default_fail2ban_settings_def)
  show ?thesis
    using reload_lifts_unsaved_bans [OF run] none run
    by (simp add: sample_tracker_def default_fail2ban_settings_def)
qed

end
