(* ===== verification/Crypto_Policy.thy ===== *)
theory Crypto_Policy
  imports Config_Types
begin

text \<open>
  The transport crypto policy (\<^verbatim>\<open>src/src/crypto_policy.rs\<close>).  The key exchange names are the
  constants of \<^verbatim>\<open>russh::kex\<close> that the source mentions, a datatype here; their wire text
  (\<^verbatim>\<open>Name::as_ref\<close>) is a parameter of the summaries, with the documented texts as the
  hypothesis \<^verbatim>\<open>kex_names_documented\<close>.
\<close>

datatype kex_name =
    KexMlkem768X25519Sha256 | KexCurve25519 | KexCurve25519PreRfc8731
  | KexExtSupportAsClient | KexExtSupportAsServer
  | KexExtStrictAsClient | KexExtStrictAsServer

datatype ecdsa_curve = NistP256 | NistP384 | NistP521
datatype hash_alg = Sha256 | Sha512
datatype key_algorithm = AlgEd25519 | AlgEcdsa ecdsa_curve | AlgRsa "hash_alg option"
datatype cipher_name = Chacha20Poly1305 | Aes256Gcm
datatype mac_name = HmacSha512Etm | HmacSha256Etm
datatype compression_name = CompressionNone

definition mlkem_name :: string where "mlkem_name = ''mlkem768x25519-sha256''"
definition sntrup_name :: string where "sntrup_name = ''sntrup761x25519-sha512''"
definition curve_name :: string where "curve_name = ''curve25519-sha256''"
definition curve_libssh_name :: string where "curve_libssh_name = ''curve25519-sha256@libssh.org''"

definition ssh_rekey_bytes :: nat where "ssh_rekey_bytes = 512 * 1024 * 1024"
definition ssh_rekey_time :: duration where "ssh_rekey_time = from_secs (30 * 60)"

definition server_kex_extensions :: "kex_name list" where
  "server_kex_extensions =
     [KexExtSupportAsClient, KexExtSupportAsServer, KexExtStrictAsClient, KexExtStrictAsServer]"

definition ssh_host_key_algorithms :: "key_algorithm list" where
  "ssh_host_key_algorithms =
     [AlgEd25519, AlgEcdsa NistP256, AlgEcdsa NistP384, AlgEcdsa NistP521,
      AlgRsa (Some Sha512), AlgRsa (Some Sha256)]"

definition ssh_ciphers :: "cipher_name list" where "ssh_ciphers = [Chacha20Poly1305, Aes256Gcm]"
definition ssh_macs :: "mac_name list" where "ssh_macs = [HmacSha512Etm, HmacSha256Etm]"
definition ssh_compression :: "compression_name list" where "ssh_compression = [CompressionNone]"

record kex_policy_summary =
  ks_offered_algorithms :: "string list"
  ks_require_post_quantum :: bool
  ks_classical_fallback :: bool

record supported_kex =
  sk_name :: string
  sk_algorithm :: kex_name
  sk_post_quantum :: bool

definition configurable_frontend_kex :: "supported_kex list" where
  "configurable_frontend_kex = [
     \<lparr>sk_name = mlkem_name, sk_algorithm = KexMlkem768X25519Sha256, sk_post_quantum = True\<rparr>,
     \<lparr>sk_name = curve_name, sk_algorithm = KexCurve25519, sk_post_quantum = False\<rparr>,
     \<lparr>sk_name = curve_libssh_name, sk_algorithm = KexCurve25519PreRfc8731,
       sk_post_quantum = False\<rparr>]"

definition is_post_quantum_kex_name :: "string \<Rightarrow> bool" where
  "is_post_quantum_kex_name s \<longleftrightarrow> s = mlkem_name \<or> s = sntrup_name"

definition is_hybrid_kex_name :: "string \<Rightarrow> bool" where
  "is_hybrid_kex_name s \<longleftrightarrow> is_post_quantum_kex_name s"

record ssh_limits =
  lim_rekey_write :: nat
  lim_rekey_read :: nat
  lim_rekey_time :: duration

definition hardened_ssh_limits :: ssh_limits where
  "hardened_ssh_limits = \<lparr>lim_rekey_write = ssh_rekey_bytes, lim_rekey_read = ssh_rekey_bytes,
     lim_rekey_time = ssh_rekey_time\<rparr>"

record preferred =
  pref_kex :: "kex_name list"
  pref_key :: "key_algorithm list"
  pref_cipher :: "cipher_name list"
  pref_mac :: "mac_name list"
  pref_compression :: "compression_name list"

subsection \<open>Resolution of a preference list\<close>

definition resolve_supported_kex :: "string \<Rightarrow> string \<Rightarrow> supported_kex gw_result" where
  "resolve_supported_kex nm field_name =
     (if nm = sntrup_name then
        Inl (InvalidConfig (field_name @ '' includes '' @ sq sntrup_name
          @ '', but the pinned russh dependency does not currently expose that KEX''))
      else
        ok_or (InvalidConfig (''unsupported '' @ field_name @ '' entry '' @ sq nm
            @ ''; supported values: '' @ join_with '', '' (map sk_name configurable_frontend_kex)))
          (find (\<lambda>supported. sk_name supported = nm) configurable_frontend_kex))"

type_synonym kex_scan = "string list \<times> kex_name list"  \<comment> \<open>names seen, algorithms resolved\<close>

definition resolve_kex_step :: "bool \<Rightarrow> string \<Rightarrow> kex_scan \<Rightarrow> string \<Rightarrow> kex_scan gw_result" where
  \<comment> \<open>the body of the loop over the configured names\<close>
  "resolve_kex_step require_post_quantum preferred_field acc configured_name =
     bind_res (resolve_supported_kex configured_name preferred_field) (\<lambda>supported.
       let (seen, resolved) = acc in
       if require_post_quantum \<and> \<not> sk_post_quantum supported then Inr (seen, resolved)
       else if sk_name supported \<in> set seen then Inr (seen, resolved)
       else Inr (sk_name supported # seen, resolved @ [sk_algorithm supported]))"

definition resolve_preferred_kex ::
  "string list \<Rightarrow> bool \<Rightarrow> string \<Rightarrow> string \<Rightarrow> kex_name list gw_result" where
  "resolve_preferred_kex preferred require_post_quantum preferred_field require_field =
     bind_res (guard_res (preferred = []) (InvalidConfig (preferred_field @ '' must not be empty'')))
       (\<lambda>_. bind_res (try_fold (resolve_kex_step require_post_quantum preferred_field) ([], []) preferred)
         (\<lambda>(seen, resolved).
           if resolved = [] then
             (if require_post_quantum then
                Inl (InvalidConfig (require_field
                  @ ''=true requires at least one supported post-quantum KEX in '' @ preferred_field))
              else Inl (InvalidConfig (preferred_field @ '' did not resolve to any supported KEX'')))
           else Inr resolved))"

definition policy_summary ::
  "(kex_name \<Rightarrow> string) \<Rightarrow> string list \<Rightarrow> bool \<Rightarrow> string \<Rightarrow> string \<Rightarrow> kex_policy_summary gw_result" where
  "policy_summary as_ref preferred require_post_quantum preferred_field require_field =
     bind_res (resolve_preferred_kex preferred require_post_quantum preferred_field require_field)
       (\<lambda>names. let offered = map as_ref names in
         Inr \<lparr>ks_offered_algorithms = offered, ks_require_post_quantum = require_post_quantum,
           ks_classical_fallback = list_ex (\<lambda>nm. \<not> is_post_quantum_kex_name nm) offered\<rparr>)"

definition frontend_kex_policy_summary ::
  "(kex_name \<Rightarrow> string) \<Rightarrow> kex_policy_config \<Rightarrow> kex_policy_summary gw_result" where
  "frontend_kex_policy_summary as_ref policy =
     policy_summary as_ref (kp_frontend_preferred policy) (kp_frontend_require_post_quantum policy)
       ''kex_policy.frontend_preferred'' ''kex_policy.frontend_require_post_quantum''"

definition backend_kex_policy_summary ::
  "(kex_name \<Rightarrow> string) \<Rightarrow> kex_policy_config \<Rightarrow> kex_policy_summary gw_result" where
  "backend_kex_policy_summary as_ref policy =
     policy_summary as_ref (kp_backend_preferred policy) (kp_backend_require_post_quantum policy)
       ''kex_policy.backend_preferred'' ''kex_policy.backend_require_post_quantum''"

definition validate_kex_policy :: "(kex_name \<Rightarrow> string) \<Rightarrow> kex_policy_config \<Rightarrow> unit gw_result" where
  "validate_kex_policy as_ref policy =
     bind_res (frontend_kex_policy_summary as_ref policy)
       (\<lambda>_. bind_res (backend_kex_policy_summary as_ref policy) (\<lambda>_. Inr ()))"

definition preferred_of :: "kex_name list \<Rightarrow> preferred" where
  "preferred_of kex_names = \<lparr>pref_kex = kex_names @ server_kex_extensions,
     pref_key = ssh_host_key_algorithms, pref_cipher = ssh_ciphers, pref_mac = ssh_macs,
     pref_compression = ssh_compression\<rparr>"

definition frontend_server_preferred :: "kex_policy_config \<Rightarrow> preferred gw_result" where
  "frontend_server_preferred policy =
     bind_res (resolve_preferred_kex (kp_frontend_preferred policy)
         (kp_frontend_require_post_quantum policy)
         ''kex_policy.frontend_preferred'' ''kex_policy.frontend_require_post_quantum'')
       (\<lambda>kex_names. Inr (preferred_of kex_names))"

definition backend_client_preferred :: "kex_policy_config \<Rightarrow> preferred gw_result" where
  "backend_client_preferred policy =
     bind_res (resolve_preferred_kex (kp_backend_preferred policy)
         (kp_backend_require_post_quantum policy)
         ''kex_policy.backend_preferred'' ''kex_policy.backend_require_post_quantum'')
       (\<lambda>kex_names. Inr (preferred_of kex_names))"

subsection \<open>Applying the policy to a transport configuration\<close>

record transport_config =
  \<comment> \<open>the fields of \<^verbatim>\<open>russh::server::Config\<close> and \<^verbatim>\<open>client::Config\<close> the policy sets\<close>
  tc_preferred :: preferred
  tc_limits :: ssh_limits

definition apply_server_transport_crypto_policy ::
  "(kex_name \<Rightarrow> string) \<Rightarrow> transport_config \<Rightarrow> kex_policy_config
   \<Rightarrow> transport_config \<times> kex_policy_summary gw_result" where
  "apply_server_transport_crypto_policy as_ref config policy =
     (case frontend_kex_policy_summary as_ref policy of
        Inl e \<Rightarrow> (config, Inl e)
      | Inr summary \<Rightarrow>
        (case frontend_server_preferred policy of
           Inl e \<Rightarrow> (config, Inl e)
         | Inr p \<Rightarrow> (config\<lparr>tc_preferred := p, tc_limits := hardened_ssh_limits\<rparr>, Inr summary)))"

definition apply_client_transport_crypto_policy ::
  "(kex_name \<Rightarrow> string) \<Rightarrow> transport_config \<Rightarrow> kex_policy_config
   \<Rightarrow> transport_config \<times> kex_policy_summary gw_result" where
  "apply_client_transport_crypto_policy as_ref config policy =
     (case backend_kex_policy_summary as_ref policy of
        Inl e \<Rightarrow> (config, Inl e)
      | Inr summary \<Rightarrow>
        (case backend_client_preferred policy of
           Inl e \<Rightarrow> (config, Inl e)
         | Inr p \<Rightarrow> (config\<lparr>tc_preferred := p, tc_limits := hardened_ssh_limits\<rparr>, Inr summary)))"

definition kex_names_documented :: "(kex_name \<Rightarrow> string) \<Rightarrow> bool" where
  \<comment> \<open>the texts of the configurable \<^verbatim>\<open>russh\<close> names, as that crate documents them\<close>
  "kex_names_documented as_ref \<longleftrightarrow> as_ref KexMlkem768X25519Sha256 = mlkem_name
     \<and> as_ref KexCurve25519 = curve_name
     \<and> as_ref KexCurve25519PreRfc8731 = curve_libssh_name"

subsection \<open>What the resolution computes\<close>

definition kex_of :: "string \<Rightarrow> kex_name option" where
  \<comment> \<open>the configurable names\<close>
  "kex_of = [mlkem_name \<mapsto> KexMlkem768X25519Sha256, curve_name \<mapsto> KexCurve25519,
     curve_libssh_name \<mapsto> KexCurve25519PreRfc8731]"

definition first_occurrences :: "'a list \<Rightarrow> 'a list" where
  "first_occurrences xs = rev (remdups (rev xs))"

lemma first_occurrences_snoc [simp]:
  "first_occurrences (xs @ [x])
     = (if x \<in> set xs then first_occurrences xs else first_occurrences xs @ [x])"
  by (simp add: first_occurrences_def)

lemma first_occurrences_simps [simp]:
  "first_occurrences [] = []"
  "set (first_occurrences xs) = set xs"
  "distinct (first_occurrences xs)"
  "first_occurrences xs = [] \<longleftrightarrow> xs = []"
  by (simp_all add: first_occurrences_def)

lemmas kex_name_defs = mlkem_name_def sntrup_name_def curve_name_def curve_libssh_name_def

lemma kex_names_distinct [simp]:
  "mlkem_name \<noteq> sntrup_name" "sntrup_name \<noteq> mlkem_name"
  "mlkem_name \<noteq> curve_name" "curve_name \<noteq> mlkem_name"
  "mlkem_name \<noteq> curve_libssh_name" "curve_libssh_name \<noteq> mlkem_name"
  "sntrup_name \<noteq> curve_name" "curve_name \<noteq> sntrup_name"
  "sntrup_name \<noteq> curve_libssh_name" "curve_libssh_name \<noteq> sntrup_name"
  "curve_name \<noteq> curve_libssh_name" "curve_libssh_name \<noteq> curve_name"
  by (simp_all add: kex_name_defs)

lemma resolve_supported_kex_ok:
  "resolve_supported_kex nm f = Inr k \<Longrightarrow> kex_of nm = Some (sk_algorithm k) \<and> sk_name k = nm
     \<and> sk_post_quantum k = (nm = mlkem_name)"
  by (auto simp: resolve_supported_kex_def configurable_frontend_kex_def kex_of_def
      split: if_splits)

lemma resolve_supported_kex_known: "is_ok (resolve_supported_kex nm f) \<longleftrightarrow> kex_of nm \<noteq> None"
  by (auto simp: resolve_supported_kex_def configurable_frontend_kex_def kex_of_def)

definition kex_wanted :: "bool \<Rightarrow> string \<Rightarrow> bool" where
  "kex_wanted pq nm \<longleftrightarrow> \<not> pq \<or> nm = mlkem_name"

lemma resolve_kex_scan:
  "try_fold (resolve_kex_step pq f) ([], []) preferred = Inr (seen, resolved) \<longleftrightarrow>
     (\<forall>nm\<in>set preferred. kex_of nm \<noteq> None)
     \<and> seen = rev (first_occurrences (filter (kex_wanted pq) preferred))
     \<and> resolved = map (the \<circ> kex_of) (first_occurrences (filter (kex_wanted pq) preferred))"
proof (induction preferred arbitrary: seen resolved rule: rev_induct)
  case (snoc nm preferred)
  show ?case
  proof (cases "kex_of nm")
    case None
    with resolve_supported_kex_known [of nm f] show ?thesis
      by (auto simp: try_fold_append resolve_kex_step_def is_ok_iff)
  next
    case (Some alg)
    then obtain k where k: "resolve_supported_kex nm f = Inr k"
      using resolve_supported_kex_known [of nm f] by (auto simp: is_ok_iff)
    then have "sk_algorithm k = alg" "sk_name k = nm" "sk_post_quantum k = (nm = mlkem_name)"
      using Some resolve_supported_kex_ok [of nm f k] by simp_all
    with k Some snoc.IH show ?thesis
      by (auto simp: try_fold_append resolve_kex_step_def kex_wanted_def)
  qed
qed auto

lemma resolve_preferred_kex_iff:
  "resolve_preferred_kex preferred pq f r = Inr names \<longleftrightarrow>
     (\<forall>nm\<in>set preferred. kex_of nm \<noteq> None) \<and> names \<noteq> []
     \<and> names = map (the \<circ> kex_of) (first_occurrences (filter (kex_wanted pq) preferred))"
  by (cases "preferred = []")
    (auto simp: resolve_preferred_kex_def resolve_kex_scan split: if_splits)

lemma policy_summary_ok:
  "policy_summary as_ref preferred pq f r = Inr summary \<longleftrightarrow>
     (\<exists>names. resolve_preferred_kex preferred pq f r = Inr names
       \<and> summary = \<lparr>ks_offered_algorithms = map as_ref names, ks_require_post_quantum = pq,
            ks_classical_fallback = list_ex (\<lambda>nm. \<not> is_post_quantum_kex_name nm) (map as_ref names)\<rparr>)"
  by (auto simp: policy_summary_def Let_def)

lemma as_ref_kex_of:
  "kex_names_documented as_ref \<Longrightarrow> kex_of nm = Some k \<Longrightarrow> as_ref k = nm"
  by (auto simp: kex_names_documented_def kex_of_def split: if_splits)

lemma kex_of_inj: "kex_of a = Some k \<Longrightarrow> kex_of b = Some k \<Longrightarrow> a = b"
  by (auto simp: kex_of_def split: if_splits)

lemma policy_summary_offered:
  assumes "kex_names_documented as_ref" and "policy_summary as_ref preferred pq f r = Inr s"
  shows "ks_offered_algorithms s = first_occurrences (filter (kex_wanted pq) preferred)"
proof -
  let ?l = "first_occurrences (filter (kex_wanted pq) preferred)"
  have "ks_offered_algorithms s = map as_ref (map (the \<circ> kex_of) ?l)"
    and "\<forall>nm\<in>set preferred. kex_of nm \<noteq> None"
    using assms(2) by (auto simp: policy_summary_ok resolve_preferred_kex_iff)
  moreover have "map as_ref (map (the \<circ> kex_of) ?l) = ?l"
    if "\<forall>nm\<in>set preferred. kex_of nm \<noteq> None"
    using that as_ref_kex_of [OF assms(1)] by (auto intro!: map_idI)
  ultimately show ?thesis by simp
qed

text \<open>
  A preference list resolves exactly when it is not empty, every name on it is supported
  and at least one survives the post-quantum filter; the result is then the list of the
  surviving names' algorithms in the configured order, each once, at its first occurrence.
\<close>
theorem resolve_preferred_kex_correct:
  "resolve_preferred_kex preferred require_post_quantum preferred_field require_field = Inr names
   \<longleftrightarrow> (\<forall>nm\<in>set preferred. kex_of nm \<noteq> None) \<and> names \<noteq> [] \<and> distinct names
     \<and> names = map (the \<circ> kex_of) (first_occurrences
         (filter (\<lambda>nm. \<not> require_post_quantum \<or> nm = mlkem_name) preferred))"
proof -
  have "inj_on (the \<circ> kex_of) (set preferred)" if "\<forall>nm\<in>set preferred. kex_of nm \<noteq> None"
  proof (rule inj_onI)
    fix a b assume "a \<in> set preferred" "b \<in> set preferred" "(the \<circ> kex_of) a = (the \<circ> kex_of) b"
    with that show "a = b" by (metis comp_apply kex_of_inj option.collapse)
  qed
  moreover have "kex_wanted pq = (\<lambda>nm. \<not> pq \<or> nm = mlkem_name)" for pq
    by (simp add: kex_wanted_def fun_eq_iff)
  ultimately show ?thesis
    by (auto simp: resolve_preferred_kex_iff distinct_map intro: inj_on_subset)
qed

lemma resolve_preferred_kex_correct_witness:
  "resolve_preferred_kex [curve_name, mlkem_name, curve_name] False ''frontend_preferred'' ''frontend_require'' = Inr [KexCurve25519, KexMlkem768X25519Sha256]"
  by (subst resolve_preferred_kex_correct)
    (simp add: kex_of_def first_occurrences_def)

text \<open>
  When the policy requires post-quantum key exchange, a resolved policy offers the hybrid
  ML-KEM exchange and nothing else, and reports no classical fallback; when it does not, the
  summary reports a fallback exactly if some offered algorithm is classical.
\<close>
theorem post_quantum_policy:
  assumes "kex_names_documented as_ref"
    and "frontend_kex_policy_summary as_ref policy = Inr summary"
  shows "ks_require_post_quantum summary = kp_frontend_require_post_quantum policy
    \<and> (kp_frontend_require_post_quantum policy \<longrightarrow> ks_offered_algorithms summary = [mlkem_name])
    \<and> ks_classical_fallback summary = (\<not> kp_frontend_require_post_quantum policy
         \<and> (\<exists>nm\<in>set (kp_frontend_preferred policy). nm = curve_name \<or> nm = curve_libssh_name))"
proof -
  let ?pref = "kp_frontend_preferred policy" and ?pq = "kp_frontend_require_post_quantum policy"
  have sum: "policy_summary as_ref ?pref ?pq ''kex_policy.frontend_preferred''
      ''kex_policy.frontend_require_post_quantum'' = Inr summary"
    using assms(2) by (simp add: frontend_kex_policy_summary_def)
  have offered: "ks_offered_algorithms summary = first_occurrences (filter (kex_wanted ?pq) ?pref)"
    by (rule policy_summary_offered [OF assms(1) sum])
  have required: "ks_require_post_quantum summary = ?pq" using sum by (auto simp: policy_summary_ok)
  have known: "\<forall>nm\<in>set ?pref. kex_of nm \<noteq> None" and some: "filter (kex_wanted ?pq) ?pref \<noteq> []"
    using sum by (auto simp: policy_summary_ok resolve_preferred_kex_iff)
  have only: "ks_offered_algorithms summary = [mlkem_name]" if ?pq
  proof -
    let ?l = "first_occurrences (filter (kex_wanted ?pq) ?pref)"
    have "set ?l \<subseteq> {mlkem_name}" "?l \<noteq> []" "distinct ?l"
      using that some by (auto simp: kex_wanted_def)
    then have "?l = [mlkem_name]"
      by (cases ?l; cases "tl ?l") auto
    with offered show ?thesis by simp
  qed
  have "ks_classical_fallback summary
      = list_ex (\<lambda>nm. \<not> is_post_quantum_kex_name nm) (ks_offered_algorithms summary)"
    using sum by (auto simp: policy_summary_ok)
  then have "ks_classical_fallback summary
      = (\<exists>nm\<in>set ?pref. kex_wanted ?pq nm \<and> \<not> is_post_quantum_kex_name nm)"
    by (auto simp: offered list_ex_iff)
  moreover have "\<not> is_post_quantum_kex_name nm \<longleftrightarrow> nm = curve_name \<or> nm = curve_libssh_name"
    if "kex_of nm \<noteq> None" for nm
    using that by (auto simp: is_post_quantum_kex_name_def kex_of_def split: if_splits)
  ultimately have "ks_classical_fallback summary
      = (\<not> ?pq \<and> (\<exists>nm\<in>set ?pref. nm = curve_name \<or> nm = curve_libssh_name))"
    using known by (auto simp: kex_wanted_def)
  with required only show ?thesis by simp
qed

definition documented_as_ref :: "kex_name \<Rightarrow> string" where
  \<comment> \<open>an instance of the parameter, for the witnesses\<close>
  "documented_as_ref k = (case k of
     KexMlkem768X25519Sha256 \<Rightarrow> mlkem_name
   | KexCurve25519 \<Rightarrow> curve_name
   | KexCurve25519PreRfc8731 \<Rightarrow> curve_libssh_name
   | _ \<Rightarrow> ''ext-info'')"

lemma documented_as_ref_ok: "kex_names_documented documented_as_ref"
  by (simp add: kex_names_documented_def documented_as_ref_def)

lemma default_kex_summary:
  "frontend_kex_policy_summary documented_as_ref
     (default_kex_policy\<lparr>kp_frontend_require_post_quantum := True\<rparr>)
   = Inr \<lparr>ks_offered_algorithms = [mlkem_name], ks_require_post_quantum = True,
      ks_classical_fallback = False\<rparr>"
  by code_simp

lemma post_quantum_policy_witness:
  "ks_offered_algorithms \<lparr>ks_offered_algorithms = [mlkem_name],
        ks_require_post_quantum = True, ks_classical_fallback = False\<rparr>
      = [mlkem_name]"
  using post_quantum_policy [OF documented_as_ref_ok default_kex_summary] by simp

text \<open>
  A policy that passed validation at configuration time never fails when a transport is
  configured: both directions get the resolved algorithms followed by exactly the four
  extension markers, only AEAD ciphers and encrypt-then-MAC, no compression, and the hardened
  rekey limits; the reported summary lists the offered algorithms in that order.
\<close>
theorem validated_policy_applies:
  assumes "validate_kex_policy as_ref policy = Inr ()"
  shows "\<exists>s_names s_sum c_names c_sum.
     apply_server_transport_crypto_policy as_ref server policy
       = (server\<lparr>tc_preferred := preferred_of s_names, tc_limits := hardened_ssh_limits\<rparr>, Inr s_sum)
   \<and> apply_client_transport_crypto_policy as_ref client policy
       = (client\<lparr>tc_preferred := preferred_of c_names, tc_limits := hardened_ssh_limits\<rparr>, Inr c_sum)
   \<and> ks_offered_algorithms s_sum = map as_ref s_names \<and> s_names \<noteq> []
   \<and> ks_offered_algorithms c_sum = map as_ref c_names \<and> c_names \<noteq> []
   \<and> pref_kex (preferred_of s_names) = s_names @ [KexExtSupportAsClient, KexExtSupportAsServer,
        KexExtStrictAsClient, KexExtStrictAsServer]
   \<and> set s_names \<inter> set server_kex_extensions = {} \<and> set c_names \<inter> set server_kex_extensions = {}"
proof -
  have no_ext: "set names \<inter> set server_kex_extensions = {}"
    if "resolve_preferred_kex preferred pq f r = Inr names" for preferred pq f r names
    using that by (auto simp: resolve_preferred_kex_iff server_kex_extensions_def kex_of_def
        split: if_splits)
  from assms obtain s_sum c_sum where
    sums: "frontend_kex_policy_summary as_ref policy = Inr s_sum"
      "backend_kex_policy_summary as_ref policy = Inr c_sum"
    by (auto simp: validate_kex_policy_def)
  from sums(1) obtain s_names where s: "resolve_preferred_kex (kp_frontend_preferred policy)
      (kp_frontend_require_post_quantum policy) ''kex_policy.frontend_preferred''
      ''kex_policy.frontend_require_post_quantum'' = Inr s_names"
    "ks_offered_algorithms s_sum = map as_ref s_names"
    by (auto simp: frontend_kex_policy_summary_def policy_summary_ok)
  from sums(2) obtain c_names where c: "resolve_preferred_kex (kp_backend_preferred policy)
      (kp_backend_require_post_quantum policy) ''kex_policy.backend_preferred''
      ''kex_policy.backend_require_post_quantum'' = Inr c_names"
    "ks_offered_algorithms c_sum = map as_ref c_names"
    by (auto simp: backend_kex_policy_summary_def policy_summary_ok)
  have "s_names \<noteq> []" "c_names \<noteq> []" using s(1) c(1) by (auto simp: resolve_preferred_kex_iff)
  with sums s c no_ext [OF s(1)] no_ext [OF c(1)] show ?thesis
    by (intro exI [of _ s_names] exI [of _ s_sum] exI [of _ c_names] exI [of _ c_sum])
      (simp add: apply_server_transport_crypto_policy_def apply_client_transport_crypto_policy_def
        frontend_server_preferred_def backend_client_preferred_def preferred_of_def
        server_kex_extensions_def)
qed

lemma default_kex_policy_valid: "validate_kex_policy documented_as_ref default_kex_policy = Inr ()"
  by code_simp

lemma validated_policy_applies_witness:
  "\<exists>config summary. apply_server_transport_crypto_policy documented_as_ref
     \<lparr>tc_preferred = preferred_of [], tc_limits = hardened_ssh_limits\<rparr> default_kex_policy
     = (config, Inr summary)"
  using validated_policy_applies [OF default_kex_policy_valid] by blast

end
