(* ===== verification/Auth_Engine.thy ===== *)
theory Auth_Engine
  imports Config_Types Machine
begin

text \<open>
  The authentication engine (\<^verbatim>\<open>src/src/auth/mod.rs\<close>): token buckets per address and per
  address and user, password verification against Argon2 hashes, the password policy and TOTP.
  The monotonic clock is a sequence of readings; every \<^verbatim>\<open>Instant::now\<close> and
  \<^verbatim>\<open>elapsed\<close> takes the next one.  The crates \<^verbatim>\<open>argon2\<close>, \<^verbatim>\<open>totp_rs\<close> and \<^verbatim>\<open>base32\<close>
  are the functions of the record \<^verbatim>\<open>auth_libs\<close>.
\<close>

type_synonym clock = "nat \<Rightarrow> nat"  \<comment> \<open>the n-th reading, in nanoseconds\<close>

definition user_rate_limit_capacity :: f64 where "user_rate_limit_capacity = Fin 10"
definition user_rate_limit_refill :: f64 where "user_rate_limit_refill = f_div (Fin 1) (Fin 30)"
definition ip_rate_limit_capacity :: f64 where "ip_rate_limit_capacity = Fin 30"
definition ip_rate_limit_refill :: f64 where "ip_rate_limit_refill = Fin 1"
definition rate_limit_max_entries :: nat where "rate_limit_max_entries = 8192"
definition rate_limit_idle_ttl :: duration where "rate_limit_idle_ttl = from_secs (60 * 30)"

subsection \<open>Token buckets\<close>

record token_bucket =
  tb_capacity :: f64
  tb_tokens :: f64
  tb_refill_rate_per_sec :: f64
  tb_last_refill :: nat

definition new_bucket :: "clock \<Rightarrow> nat \<Rightarrow> f64 \<Rightarrow> f64 \<Rightarrow> token_bucket \<times> nat" where
  "new_bucket clk n capacity rate =
     (\<lparr>tb_capacity = capacity, tb_tokens = capacity, tb_refill_rate_per_sec = rate,
        tb_last_refill = clk n\<rparr>, Suc n)"

definition refill :: "clock \<Rightarrow> nat \<Rightarrow> token_bucket \<Rightarrow> token_bucket \<times> nat" where
  "refill clk n b =
     (let elapsed = as_secs_f64 (clk n - tb_last_refill b) in
      if f_le elapsed (Fin 0) then (b, Suc n)
      else (b\<lparr>tb_tokens := f_min (f_add (tb_tokens b) (f_mul elapsed (tb_refill_rate_per_sec b)))
                 (tb_capacity b),
              tb_last_refill := clk (Suc n)\<rparr>, Suc (Suc n)))"

definition consume_one :: "clock \<Rightarrow> nat \<Rightarrow> token_bucket \<Rightarrow> token_bucket \<times> nat \<times> bool" where
  "consume_one clk n b =
     (let (b, n) = refill clk n b in
      if f_le (Fin 1) (tb_tokens b) then (b\<lparr>tb_tokens := f_sub (tb_tokens b) (Fin 1)\<rparr>, n, True)
      else (b, n, False))"

definition prune_buckets :: "('k, token_bucket) hash_map \<Rightarrow> nat \<Rightarrow> ('k, token_bucket) hash_map" where
  "prune_buckets buckets now =
     hm_retain (\<lambda>_ bucket. now - tb_last_refill bucket \<le> rate_limit_idle_ttl) buckets"

definition consume_bucket_token ::
  "clock \<Rightarrow> nat \<Rightarrow> ('k, token_bucket) hash_map \<Rightarrow> 'k \<Rightarrow> f64 \<Rightarrow> f64
   \<Rightarrow> ('k, token_bucket) hash_map \<times> nat \<times> unit gw_result" where
  \<comment> \<open>the body the two limiters share: prune, refuse new keys when full, take a token\<close>
  "consume_bucket_token clk n buckets key capacity rate =
     (let buckets = prune_buckets buckets (clk n); n = Suc n in
      if \<not> hm_contains buckets key \<and> rate_limit_max_entries \<le> length buckets
      then (buckets, n, Inl RateLimitExceeded)
      else
        (let (bucket, n) = (case hm_get buckets key of
               Some b \<Rightarrow> (b, n) | None \<Rightarrow> new_bucket clk n capacity rate);
             (bucket, n, ok) = consume_one clk n bucket
         in (hm_insert key bucket buckets, n, if ok then Inr () else Inl RateLimitExceeded)))"

record rate_limiter =
  rl_rate_limits :: "(ip_addr \<times> string, token_bucket) hash_map"
  rl_ip_rate_limits :: "(ip_addr, token_bucket) hash_map"

definition consume_ip_rate_limit_token ::
  "clock \<Rightarrow> nat \<Rightarrow> rate_limiter \<Rightarrow> ip_addr \<Rightarrow> rate_limiter \<times> nat \<times> unit gw_result" where
  "consume_ip_rate_limit_token clk n rl ip =
     (case consume_bucket_token clk n (rl_ip_rate_limits rl) ip ip_rate_limit_capacity
             ip_rate_limit_refill of
        (m, n, r) \<Rightarrow> (rl\<lparr>rl_ip_rate_limits := m\<rparr>, n, r))"

definition consume_rate_limit_token ::
  "clock \<Rightarrow> nat \<Rightarrow> rate_limiter \<Rightarrow> ip_addr \<Rightarrow> string \<Rightarrow> rate_limiter \<times> nat \<times> unit gw_result" where
  "consume_rate_limit_token clk n rl ip username =
     (case consume_ip_rate_limit_token clk n rl ip of
        (rl, n, Inl e) \<Rightarrow> (rl, n, Inl e)
      | (rl, n, Inr _) \<Rightarrow>
        (case consume_bucket_token clk n (rl_rate_limits rl) (ip, to_ascii_lowercase username)
                user_rate_limit_capacity user_rate_limit_refill of
           (m, n, r) \<Rightarrow> (rl\<lparr>rl_rate_limits := m\<rparr>, n, r)))"

subsection \<open>Passwords\<close>

record totp =
  totp_digits :: nat
  totp_skew :: nat
  totp_step :: nat
  totp_secret :: string
  totp_issuer :: "string option"
  totp_account :: string

record auth_libs =
  al_parse_hash :: "string \<Rightarrow> string + unit"           \<comment> \<open>\<^verbatim>\<open>PasswordHash::new\<close>\<close>
  al_verify :: "string \<Rightarrow> string \<Rightarrow> bool"              \<comment> \<open>password, hash\<close>
  al_hash :: "nat \<Rightarrow> string \<Rightarrow> string + string"        \<comment> \<open>with the n-th random salt\<close>
  al_random_bytes :: "nat \<Rightarrow> string"                  \<comment> \<open>the n-th draw of 32 bytes\<close>
  al_base32 :: "string \<Rightarrow> string"
  al_secret_bytes :: "string \<Rightarrow> string + string"       \<comment> \<open>\<^verbatim>\<open>Secret::Encoded(s).to_bytes()\<close>\<close>
  al_totp_valid :: "totp \<Rightarrow> string + unit"             \<comment> \<open>the checks of \<^verbatim>\<open>TOTP::new\<close>\<close>
  al_totp_check :: "nat \<Rightarrow> totp \<Rightarrow> string \<Rightarrow> bool option" \<comment> \<open>\<^verbatim>\<open>check_current\<close> at the n-th reading\<close>
  al_totp_url :: "totp \<Rightarrow> string"

definition is_hash_format :: "string \<Rightarrow> bool" where
  "is_hash_format value = starts_with value ''$argon2id$''"

definition hash_password :: "auth_libs \<Rightarrow> nat \<Rightarrow> string \<Rightarrow> string gw_result" where
  "hash_password A salt password = map_err PasswordHash (al_hash A salt password)"

definition secure_username_match :: "string \<Rightarrow> string \<Rightarrow> bool" where
  "secure_username_match l r = (if length l \<noteq> length r then l = l \<and> r = r \<and> False else l = r)"

definition verify_password_constant_time ::
  "auth_libs \<Rightarrow> string \<Rightarrow> user_record list \<Rightarrow> string \<Rightarrow> string \<Rightarrow> user_record gw_result" where
  "verify_password_constant_time A dummy_hash users requested_username requested_password =
     (let matched_user = foldl (\<lambda>m user. if secure_username_match (user_name user) requested_username
            then Some user else m) None users;
          target_hash = unwrap_or dummy_hash (map_option user_password matched_user)
      in bind_res (map_err PasswordHash (al_parse_hash A target_hash)) (\<lambda>_.
           let verification = al_verify A requested_password target_hash in
           if verification \<and> matched_user \<noteq> None
           then ok_or AuthenticationFailed matched_user
           else Inl AuthenticationFailed))"

subsection \<open>TOTP\<close>

definition make_totp :: "string \<Rightarrow> string option \<Rightarrow> string \<Rightarrow> totp" where
  "make_totp secret issuer account = \<lparr>totp_digits = 6, totp_skew = 1, totp_step = 30,
     totp_secret = secret, totp_issuer = issuer, totp_account = account\<rparr>"

definition new_totp :: "auth_libs \<Rightarrow> string \<Rightarrow> string option \<Rightarrow> string \<Rightarrow> totp gw_result" where
  "new_totp A base32_secret issuer account =
     bind_res (map_err (\<lambda>e. InvalidConfig (''invalid totp secret: '' @ e)) (al_secret_bytes A base32_secret))
       (\<lambda>secret_bytes. let t = make_totp secret_bytes issuer account in
          bind_res (map_err (\<lambda>e. InvalidConfig (''failed to build totp: '' @ e)) (al_totp_valid A t))
            (\<lambda>_. Inr t))"

definition build_totp_from_secret :: "auth_libs \<Rightarrow> string \<Rightarrow> totp gw_result" where
  "build_totp_from_secret A base32_secret = new_totp A base32_secret None []"

definition otpauth_url :: "auth_libs \<Rightarrow> string \<Rightarrow> string \<Rightarrow> string \<Rightarrow> string gw_result" where
  "otpauth_url A issuer account secret =
     bind_res (new_totp A secret (Some issuer) account) (\<lambda>t. Inr (al_totp_url A t))"

definition generate_totp_secret :: "auth_libs \<Rightarrow> nat \<Rightarrow> string" where
  "generate_totp_secret A draw = al_base32 A (al_random_bytes A draw)"

definition verify_totp_code :: "auth_libs \<Rightarrow> nat \<Rightarrow> string \<Rightarrow> string \<Rightarrow> unit gw_result" where
  "verify_totp_code A tick base32_secret code =
     bind_res (build_totp_from_secret A base32_secret) (\<lambda>t.
       if unwrap_or False (al_totp_check A tick t code) then Inr () else Inl TotpInvalid)"

definition verify_password_and_optional_totp_constant_time ::
  "auth_libs \<Rightarrow> string \<Rightarrow> nat \<Rightarrow> user_record list \<Rightarrow> string \<Rightarrow> string \<Rightarrow> string
   \<Rightarrow> user_record gw_result" where
  "verify_password_and_optional_totp_constant_time A dummy_hash tick users requested_username
     requested_password requested_totp =
     bind_res (verify_password_constant_time A dummy_hash users requested_username requested_password)
       (\<lambda>user. case user_totp_secret user of
          None \<Rightarrow> Inr user
        | Some secret \<Rightarrow> bind_res (verify_totp_code A tick secret requested_totp) (\<lambda>_. Inr user))"

definition enforce_password_policy ::
  "auth_libs \<Rightarrow> string \<Rightarrow> string \<Rightarrow> nat \<Rightarrow> unit gw_result" where
  "enforce_password_policy A new_password old_hash min_length =
     (let min_length = min min_length 256 in
      if length new_password < min_length then
        Inl (InvalidConfig (''password must be at least '' @ show_nat min_length @ '' characters''))
      else if 256 < length new_password then
        Inl (InvalidConfig ''password must be <= 256 characters'')
      else bind_res (map_err PasswordHash (al_parse_hash A old_hash)) (\<lambda>_.
        if al_verify A new_password old_hash then
          Inl (InvalidConfig ''new password must be different from current password'')
        else Inr ()))"

subsection \<open>Arithmetic of the buckets\<close>

definition nonneg_f :: "f64 \<Rightarrow> bool" where
  "nonneg_f x \<longleftrightarrow> x = PInf \<or> (\<exists>q \<ge> 0. x = Fin q)"

lemma f64_of_rat_nonneg_f: "0 \<le> x \<Longrightarrow> nonneg_f (f64_of_rat x)"
  by (simp add: f64_of_rat_nonneg nonneg_f_def f64_rounding.rnd_nonneg)

lemma nonneg_f_simps [simp]: "nonneg_f PInf" "nonneg_f (Fin q) \<longleftrightarrow> 0 \<le> q"
  by (auto simp: nonneg_f_def)

lemma f_add_nonneg:
  assumes "nonneg_f a" and "nonneg_f b"
  shows "nonneg_f (f_add a b)"
proof -
  consider "a = PInf" | "b = PInf" | p q where "a = Fin p" "0 \<le> p" "b = Fin q" "0 \<le> q"
    using assms unfolding nonneg_f_def by blast
  then show ?thesis
    by cases (use assms in \<open>auto simp: nonneg_f_def [of a] nonneg_f_def [of b] f64_of_rat_nonneg_f\<close>)
qed

lemma as_secs_f64_nonneg: "nonneg_f (as_secs_f64 d)"
proof -
  have "f64_of_rat (of_nat (d mod nanos_per_sec)) = Fin (of_nat (d mod nanos_per_sec))"
    by (rule f64_of_nat) (simp add: nanos_per_sec_def less_trans [OF mod_less_divisor])
  moreover have "f64_of_rat (of_nat nanos_per_sec) = Fin (of_nat nanos_per_sec)"
    by (rule f64_of_nat) (simp add: nanos_per_sec_def)
  ultimately have frac: "nonneg_f (f_div (f64_of_rat (of_nat (d mod nanos_per_sec)))
      (f64_of_rat (of_nat nanos_per_sec)))"
    by (simp add: nanos_per_sec_def f64_of_rat_nonneg_f)
  have whole: "nonneg_f (f64_of_rat (of_nat (d div nanos_per_sec)))"
    by (simp add: f64_of_rat_nonneg_f)
  show ?thesis unfolding as_secs_f64_def by (rule f_add_nonneg [OF whole frac])
qed

definition tokens_in :: "rat \<Rightarrow> token_bucket \<Rightarrow> bool" where
  "tokens_in x b \<longleftrightarrow> (\<exists>q. tb_tokens b = Fin q \<and> 0 \<le> q \<and> q \<le> x)"

definition bucket_ok :: "nat \<Rightarrow> token_bucket \<Rightarrow> bool" where
  \<comment> \<open>a bucket of whole capacity, a positive rate and no more tokens than fit\<close>
  "bucket_ok c b \<longleftrightarrow> tb_capacity b = Fin (of_nat c) \<and> tokens_in (of_nat c) b
     \<and> (\<exists>r > 0. tb_refill_rate_per_sec b = Fin r)"

lemma refill_cases:
  assumes "bucket_ok c b" and "refill clk n b = (b', n')"
  shows "bucket_ok c b'" and "tb_last_refill b = clk n \<Longrightarrow> b' = b"
    and "b' = b \<or> tb_last_refill b' = clk (Suc n)"
proof -
  define e where "e = as_secs_f64 (clk n - tb_last_refill b)"
  obtain q r where q: "tb_tokens b = Fin q" "0 \<le> q" "q \<le> of_nat c"
    and cap: "tb_capacity b = Fin (of_nat c)" and r: "tb_refill_rate_per_sec b = Fin r" "0 < r"
    using assms(1) by (auto simp: bucket_ok_def tokens_in_def)
  have "nonneg_f e" by (simp add: e_def as_secs_f64_nonneg)
  show "bucket_ok c b'"
  proof (cases "f_le e (Fin 0)")
    case True
    with assms show ?thesis by (simp add: refill_def e_def)
  next
    case False
    with \<open>nonneg_f e\<close> have "e = PInf \<or> (\<exists>x > 0. e = Fin x)" by (auto simp: nonneg_f_def)
    then have "nonneg_f (f_mul e (Fin r))"
      using r by (auto simp: f64_of_rat_nonneg_f f_signed_inf_def)
    then have "nonneg_f (f_add (Fin q) (f_mul e (Fin r)))"
      using q by (intro f_add_nonneg) simp_all
    then have "\<exists>t. f_min (f_add (Fin q) (f_mul e (Fin r))) (Fin (of_nat c)) = Fin t \<and> 0 \<le> t \<and> t \<le> of_nat c"
      by (auto simp: nonneg_f_def f_min_def)
    with False assms q r cap show ?thesis
      by (auto simp: refill_def e_def bucket_ok_def tokens_in_def)
  qed
  show "b' = b" if "tb_last_refill b = clk n"
  proof -
    have "as_secs_f64 0 = Fin 0"
      using f64_of_nat [of 0] f64_of_nat [of nanos_per_sec] by (simp add: as_secs_f64_def nanos_per_sec_def)
    with that assms(2) show ?thesis by (simp add: refill_def)
  qed
  show "b' = b \<or> tb_last_refill b' = clk (Suc n)"
    using assms(2) by (auto simp: refill_def Let_def split: if_splits)
qed

lemma f_sub_one:
  assumes "1 \<le> q" and "q \<le> of_nat x" and "x < 2 ^ 53"
  shows "\<exists>t. f_sub (Fin q) (Fin 1) = Fin t \<and> 0 \<le> t \<and> t \<le> of_nat (x - 1)"
proof -
  have x: "1 \<le> x" using assms(1,2) by (cases x) simp_all
  then have le: "q - 1 \<le> of_nat (x - 1)" using assms(2) by simp
  have "f64_of_rat (q - 1) = Fin (round_pos (q - 1))"
    using assms(1,3) le by (intro f64_of_rat_small [of _ "x - 1"]) simp_all
  moreover have "0 \<le> round_pos (q - 1)" using assms(1) by (simp add: f64_rounding.rnd_nonneg)
  moreover have "round_pos (q - 1) \<le> of_nat (x - 1)"
    using assms(3) by (intro f64_rounding.rnd_le_nat [OF le]) simp
  ultimately show ?thesis by (simp add: f_sub_def)
qed

lemma consume_one_ok:
  assumes "bucket_ok c b" and "c < 2 ^ 53" and "consume_one clk n b = (b', n', ok)"
  shows "bucket_ok c b'"
proof -
  obtain b1 n1 where r: "refill clk n b = (b1, n1)" by fastforce
  note ok1 = refill_cases(1) [OF assms(1) r]
  then obtain q where q: "tb_tokens b1 = Fin q" "0 \<le> q" "q \<le> of_nat c"
    by (auto simp: bucket_ok_def tokens_in_def)
  show ?thesis
  proof (cases "1 \<le> q")
    case True
    obtain t where "f_sub (Fin q) (Fin 1) = Fin t" "0 \<le> t" "t \<le> of_nat (c - 1)"
      using f_sub_one [OF True q(3) assms(2)] by blast
    moreover from this have "t \<le> of_nat c"
      using of_nat_mono [of "c - 1" c, where 'a = rat] by linarith
    moreover have "b' = b1\<lparr>tb_tokens := f_sub (Fin q) (Fin 1)\<rparr>"
      using assms(3) r q(1) True by (auto simp: consume_one_def split: if_splits)
    ultimately show ?thesis using ok1 by (simp add: bucket_ok_def tokens_in_def)
  qed (use assms(3) r ok1 q(1) in \<open>auto simp: consume_one_def\<close>)
qed

subsection \<open>The tables of the limiter\<close>

definition table_ok :: "nat \<Rightarrow> ('k, token_bucket) hash_map \<Rightarrow> bool" where
  "table_ok c m \<longleftrightarrow> hm_wf m \<and> length m \<le> rate_limit_max_entries
     \<and> (\<forall>k b. hm_get m k = Some b \<longrightarrow> bucket_ok c b)"

definition limiter_ok :: "rate_limiter \<Rightarrow> bool" where
  "limiter_ok rl \<longleftrightarrow> table_ok 10 (rl_rate_limits rl) \<and> table_ok 30 (rl_ip_rate_limits rl)"

lemma prune_buckets_get:
  "hm_wf m \<Longrightarrow> hm_get (prune_buckets m now) k = (case hm_get m k of
     None \<Rightarrow> None | Some b \<Rightarrow> if now - tb_last_refill b \<le> rate_limit_idle_ttl then Some b else None)"
  by (simp add: prune_buckets_def hm_get_retain)

lemma prune_buckets_ok:
  assumes "table_ok c m"
  shows "table_ok c (prune_buckets m now)"
proof -
  have "hm_wf (prune_buckets m now)" "length (prune_buckets m now) \<le> length m"
    using assms hm_retain_len by (auto simp: table_ok_def prune_buckets_def hm_retain_wf)
  with assms show ?thesis
    by (auto simp: table_ok_def prune_buckets_get split: option.splits if_splits)
qed

lemma new_bucket_ok:
  "0 < r \<Longrightarrow> bucket_ok c (fst (new_bucket clk n (Fin (of_nat c)) (Fin r)))"
  by (simp add: new_bucket_def bucket_ok_def tokens_in_def)

lemma consume_bucket_cases:
  \<comment> \<open>the bucket a consumption works on, or the refusal of a full table\<close>
  assumes "consume_bucket_token clk n m key cap rate = (m', n', r)"
  obtains (full) "m' = prune_buckets m (clk n)" "r = Inl RateLimitExceeded"
      "hm_get m' key = None" "rate_limit_max_entries \<le> length m'"
  | (taken) b n1 b' n2 ok where "consume_one clk n1 b = (b', n2, ok)"
      "m' = hm_insert key b' (prune_buckets m (clk n))"
      "r = (if ok then Inr () else Inl RateLimitExceeded)"
      "hm_get (prune_buckets m (clk n)) key = Some b
       \<or> hm_get (prune_buckets m (clk n)) key = None \<and> length (prune_buckets m (clk n)) < rate_limit_max_entries
         \<and> b = fst (new_bucket clk (Suc n) cap rate)"
proof (cases "\<not> hm_contains (prune_buckets m (clk n)) key
    \<and> rate_limit_max_entries \<le> length (prune_buckets m (clk n))")
  case True
  with assms show thesis by (intro full) (auto simp: consume_bucket_token_def hm_contains_def)
next
  case False
  show thesis
  proof (cases "hm_get (prune_buckets m (clk n)) key")
    case (Some b)
    obtain b' n2 ok where c: "consume_one clk (Suc n) b = (b', n2, ok)"
      by (cases "consume_one clk (Suc n) b")
    show thesis
      by (rule taken [OF c]) (use assms Some c in \<open>auto simp: consume_bucket_token_def hm_contains_def\<close>)
  next
    case None
    obtain b n1 where b: "new_bucket clk (Suc n) cap rate = (b, n1)" by fastforce
    obtain b' n2 ok where c: "consume_one clk n1 b = (b', n2, ok)" by (cases "consume_one clk n1 b")
    show thesis
      by (rule taken [OF c])
        (use assms None False c b in \<open>auto simp: consume_bucket_token_def hm_contains_def not_le\<close>)
  qed
qed

lemma consume_bucket_token_ok:
  assumes "table_ok c m" and "c < 2 ^ 53" and "cap = Fin (of_nat c)" and "rate = Fin q" and "0 < q"
    and "consume_bucket_token clk n m key cap rate = (m', n', r)"
  shows "table_ok c m'"
  using assms(6)
proof (cases rule: consume_bucket_cases)
  case full
  with prune_buckets_ok [OF assms(1)] show ?thesis by simp
next
  case (taken b n1 b' n2 ok)
  let ?p = "prune_buckets m (clk n)"
  have p: "table_ok c ?p" by (rule prune_buckets_ok [OF assms(1)])
  have "bucket_ok c b"
    using taken(4) p new_bucket_ok [OF assms(5)] assms(3,4) by (auto simp: table_ok_def)
  then have "bucket_ok c b'" using consume_one_ok assms(2) taken(1) by blast
  moreover have "length m' \<le> rate_limit_max_entries"
    using taken(2,4) p hm.len_put_bound [of ?p rate_limit_max_entries key b']
    by (auto simp: table_ok_def)
  ultimately show ?thesis
    using p taken(2) by (auto simp: table_ok_def hm.wf_put hm.get_put)
qed

lemma user_rate_bound: "\<exists>r \<ge> 1 / 32. user_rate_limit_refill = Fin r"
proof -
  have e: "ilog2 (1 / 30) = - 5" by code_simp
  have ulp: "ulp_exp (1 / 30) = - 57" by (simp add: ulp_exp_def e)
  have p57: "(2 :: rat) powi - 57 = 1 / 2 ^ 57"
    using powi_neg [of 57] by simp
  have "of_int (2 ^ 52) * 2 powi ulp_exp (1 / 30) \<le> round_pos (1 / 30)"
    by (rule round_pos_ge_grid) (simp_all add: ulp p57)
  then have "1 / 32 \<le> round_pos (1 / 30)" unfolding ulp p57 by simp
  moreover have "f64_of_rat (1 / 30) = Fin (round_pos (1 / 30))"
    by (rule f64_of_rat_small [where n = 1]) simp_all
  ultimately show ?thesis by (auto simp: user_rate_limit_refill_def)
qed

lemma user_rate_positive: "\<exists>r > 0. user_rate_limit_refill = Fin r"
  using user_rate_bound less_le_trans [of "0 :: rat" "1 / 32"] by fastforce

lemma consume_rate_limit_token_ok:
  assumes "limiter_ok rl"
  shows "limiter_ok (fst (consume_rate_limit_token clk n rl ip u))"
proof -
  let ?ip = "consume_bucket_token clk n (rl_ip_rate_limits rl) ip ip_rate_limit_capacity ip_rate_limit_refill"
  obtain m1 n1 r1 where ip: "?ip = (m1, n1, r1)" by (cases ?ip)
  have m1: "table_ok 30 m1"
    by (rule consume_bucket_token_ok [OF _ _ _ _ _ ip, where q = 1])
      (use assms in \<open>simp_all add: limiter_ok_def ip_rate_limit_capacity_def ip_rate_limit_refill_def\<close>)
  let ?us = "consume_bucket_token clk n1 (rl_rate_limits rl) (ip, to_ascii_lowercase u)
      user_rate_limit_capacity user_rate_limit_refill"
  obtain m2 n2 r2 where us: "?us = (m2, n2, r2)" by (cases ?us)
  obtain q where q: "0 < q" "user_rate_limit_refill = Fin q" using user_rate_positive by blast
  have m2: "table_ok 10 m2"
    by (rule consume_bucket_token_ok [OF _ _ _ q(2) q(1) us])
      (use assms in \<open>simp_all add: limiter_ok_def user_rate_limit_capacity_def\<close>)
  show ?thesis
    using assms ip us m1 m2
    by (cases r1) (simp_all add: consume_rate_limit_token_def consume_ip_rate_limit_token_def limiter_ok_def)
qed

definition limiter_init :: "rate_limiter \<Rightarrow> bool" where
  "limiter_init rl \<longleftrightarrow> rl = \<lparr>rl_rate_limits = [], rl_ip_rate_limits = []\<rparr>"

definition limiter_step :: "clock \<Rightarrow> rate_limiter \<Rightarrow> nat \<times> ip_addr \<times> string \<Rightarrow> rate_limiter \<Rightarrow> bool" where
  "limiter_step clk rl ev rl' \<longleftrightarrow> (case ev of (n, ip, u) \<Rightarrow> rl' = fst (consume_rate_limit_token clk n rl ip u))"

interpretation limiter: machine_invariant limiter_init "limiter_step clk" limiter_ok for clk
  by unfold_locales (auto simp: limiter_init_def limiter_step_def consume_rate_limit_token_ok
      limiter_ok_def [of "\<lparr>rl_rate_limits = [], rl_ip_rate_limits = []\<rparr>"] table_ok_def hm_wf_def hm_get_def)

text \<open>
  C36: Whatever attempts arrive at whatever times, neither table of the limiter ever holds
  more than 8192 buckets, no key has two, and every bucket holds between zero and its capacity
  of tokens, 10 per address and user and 30 per address.
\<close>
theorem limiter_bounded:
  assumes "reach limiter_init (limiter_step clk) rl"
  shows "length (rl_rate_limits rl) \<le> 8192 \<and> length (rl_ip_rate_limits rl) \<le> 8192
    \<and> distinct (map fst (rl_rate_limits rl)) \<and> distinct (map fst (rl_ip_rate_limits rl))
    \<and> (\<forall>k b. hm_get (rl_rate_limits rl) k = Some b \<longrightarrow> (\<exists>q. tb_tokens b = Fin q \<and> 0 \<le> q \<and> q \<le> 10))
    \<and> (\<forall>ip b. hm_get (rl_ip_rate_limits rl) ip = Some b \<longrightarrow> (\<exists>q. tb_tokens b = Fin q \<and> 0 \<le> q \<and> q \<le> 30))"
  using limiter.reach_inv [OF assms]
  by (simp add: limiter_ok_def table_ok_def bucket_ok_def tokens_in_def hm_wf_def rate_limit_max_entries_def)

lemma one_reachable:
  "reach limiter_init (limiter_step clk)
     (fst (consume_rate_limit_token clk n \<lparr>rl_rate_limits = [], rl_ip_rate_limits = []\<rparr> ip u))"
  by (rule reach_step [OF reach_init, of _ _ _ "(n, ip, u)"]) (simp_all add: limiter_init_def limiter_step_def)

lemma limiter_bounded_witness:
  "length (rl_rate_limits (fst (consume_rate_limit_token (\<lambda>n. n) 0
     \<lparr>rl_rate_limits = [], rl_ip_rate_limits = []\<rparr> (V4 [10, 0, 0, 1]) ''bob''))) \<le> 8192"
  using limiter_bounded [OF one_reachable] by blast

subsection \<open>Bursts\<close>

lemma round_pos_positive: "1 / 2 ^ 30 \<le> x \<Longrightarrow> 1 / 2 ^ 30 \<le> round_pos x"
proof -
  assume x: "1 / 2 ^ 30 \<le> x"
  have e: "ilog2 (1 / 2 ^ 30) = - 30" by code_simp
  have ulp: "ulp_exp (1 / 2 ^ 30) = - 82" unfolding ulp_exp_def e by simp
  have p82: "(2 :: rat) powi - 82 = 1 / 2 ^ 82"
    using powi_neg [of 82] by simp
  have "of_int (2 ^ 52) * 2 powi ulp_exp (1 / 2 ^ 30) \<le> round_pos (1 / 2 ^ 30)"
    by (rule round_pos_ge_grid) (simp_all only: ulp p82, simp_all)
  then have "1 / 2 ^ 30 \<le> round_pos (1 / 2 ^ 30)" unfolding ulp p82 by simp
  also have "\<dots> \<le> round_pos x" using x by (rule round_pos_mono)
  finally show ?thesis .
qed

lemma as_secs_f64_positive:
  assumes "0 < d"
  shows "\<not> f_le (as_secs_f64 d) (Fin 0)"
proof -
  let ?s = "d div nanos_per_sec" and ?f = "d mod nanos_per_sec"
  have f: "?f < 10 ^ 9" by (simp add: nanos_per_sec_def)
  then have "f64_of_rat (of_nat ?f) = Fin (of_nat ?f)" by (intro f64_of_nat) simp
  moreover have "f64_of_rat (of_nat nanos_per_sec) = Fin (10 ^ 9)"
    using f64_of_nat [of nanos_per_sec] by (simp add: nanos_per_sec_def)
  moreover have "(of_nat ?f :: rat) \<le> 10 ^ 9"
    using f of_nat_mono [of ?f "10 ^ 9", where 'a = rat] by simp
  then have "f64_of_rat (of_nat ?f / 10 ^ 9) = Fin (round_pos (of_nat ?f / 10 ^ 9))"
    by (intro f64_of_rat_small [where n = 1]) simp_all
  ultimately have eq: "as_secs_f64 d = f_add (f64_of_rat (of_nat ?s)) (Fin (round_pos (of_nat ?f / 10 ^ 9)))"
    by (simp add: as_secs_f64_def)
  have r: "0 \<le> round_pos (of_nat ?f / 10 ^ 9)" by (simp add: f64_rounding.rnd_nonneg)
  show ?thesis
  proof (cases "?s = 0")
    case True
    then have "1 \<le> ?f" using assms by (metis One_nat_def Suc_leI div_mult_mod_eq gr0I add_0 mult_0)
    then have "(1 :: rat) \<le> of_nat ?f" by simp
    then have "1 / 2 ^ 30 \<le> (of_nat ?f / 10 ^ 9 :: rat)" by (simp add: divide_simps)
    then have "1 / 2 ^ 30 \<le> round_pos (round_pos (of_nat ?f / 10 ^ 9))"
      by (intro round_pos_positive)
    then have "0 < round_pos (round_pos (of_nat ?f / 10 ^ 9))" by (rule less_le_trans [rotated]) simp
    moreover have "as_secs_f64 d = f64_of_rat (round_pos (of_nat ?f / 10 ^ 9))"
      using eq True f64_of_nat [of 0] by simp
    ultimately show ?thesis using r by (simp add: f64_of_rat_nonneg)
  next
    case False
    have "1 \<le> (of_nat ?s :: rat)" using False by (simp add: Suc_le_eq)
    then have "f64_of_rat (of_nat ?s) = PInf \<or> (\<exists>q \<ge> 1. f64_of_rat (of_nat ?s) = Fin q)"
      using f64_of_rat_ge [of 1 "of_nat ?s"] by simp
    then show ?thesis
    proof
      assume "\<exists>q \<ge> 1. f64_of_rat (of_nat ?s) = Fin q"
      then obtain q where q: "1 \<le> q" "f64_of_rat (of_nat ?s) = Fin q" by blast
      then have "1 \<le> q + round_pos (of_nat ?f / 10 ^ 9)" using r by simp
      then show ?thesis
        using f64_of_rat_ge [of 1 "q + round_pos (of_nat ?f / 10 ^ 9)"] q(2) eq by auto
    qed (simp add: eq)
  qed
qed

lemma refill_still:
  assumes "refill (\<lambda>_. t) n b = (b', n')"
  shows "if t \<le> tb_last_refill b then b' = b else tb_last_refill b' = t"
proof (cases "t \<le> tb_last_refill b")
  case True
  have "as_secs_f64 0 = Fin 0"
    using f64_of_nat [of 0] f64_of_nat [of nanos_per_sec] by (simp add: as_secs_f64_def nanos_per_sec_def)
  with True assms show ?thesis by (simp add: refill_def)
next
  case False
  with assms as_secs_f64_positive [of "t - tb_last_refill b"] show ?thesis
    by (auto simp: refill_def)
qed

definition credit :: "nat \<Rightarrow> nat \<Rightarrow> nat \<Rightarrow> token_bucket option \<Rightarrow> bool" where
  \<comment> \<open>at time t at most x of its c tokens are left to a bucket\<close>
  "credit t c x b \<longleftrightarrow> x = c \<or> x < c \<and> (\<exists>b'. b = Some b' \<and> t \<le> tb_last_refill b' \<and> tokens_in (of_nat x) b')"

lemma consume_one_credit:
  assumes ok: "bucket_ok c b" and c: "c < 2 ^ 53" and run: "consume_one (\<lambda>_. t) n b = (b', n', r)"
    and cr: "credit t c x (Some b)"
  shows "if r then 0 < x \<and> credit t c (x - 1) (Some b') else credit t c x (Some b')"
proof -
  obtain b1 n1 where rf: "refill (\<lambda>_. t) n b = (b1, n1)" by fastforce
  have still: "if t \<le> tb_last_refill b then b1 = b else tb_last_refill b1 = t"
    by (rule refill_still [OF rf])
  have ok1: "bucket_ok c b1" by (rule refill_cases(1) [OF ok rf])
  have now: "t \<le> tb_last_refill b1" using still by (simp split: if_splits)
  have "tokens_in (of_nat x) b1"
  proof (cases "x = c")
    case True
    with ok1 show ?thesis by (simp add: bucket_ok_def)
  next
    case False
    with cr have "t \<le> tb_last_refill b" "tokens_in (of_nat x) b" by (auto simp: credit_def)
    with still show ?thesis by simp
  qed
  then obtain q where q: "tb_tokens b1 = Fin q" "0 \<le> q" "q \<le> of_nat x" by (auto simp: tokens_in_def)
  have x: "x \<le> c" using cr by (auto simp: credit_def)
  show ?thesis
  proof (cases "1 \<le> q")
    case True
    have "0 < x" using True q(3) by (cases x) simp_all
    obtain y where "f_sub (Fin q) (Fin 1) = Fin y" "0 \<le> y" "y \<le> of_nat (x - 1)"
      using f_sub_one [OF True q(3)] x c by auto
    moreover have "b' = b1\<lparr>tb_tokens := f_sub (Fin q) (Fin 1)\<rparr>" "r"
      using run rf q(1) True by (auto simp: consume_one_def split: if_splits)
    ultimately show ?thesis using now \<open>0 < x\<close> x by (auto simp: credit_def tokens_in_def)
  next
    case False
    then have "b' = b1" "\<not> r" using run rf q(1) by (auto simp: consume_one_def)
    then show ?thesis using now q x by (auto simp: credit_def tokens_in_def)
  qed
qed

lemma consume_bucket_credit:
  assumes ok: "table_ok c m" and c: "c < 2 ^ 53" and cap: "cap = Fin (of_nat c)"
    and rate: "rate = Fin q" "0 < q"
    and run: "consume_bucket_token (\<lambda>_. t) n m key cap rate = (m', n', r)"
    and cr: "credit t c x (hm_get m k)"
  shows "if r = Inr () \<and> k = key then 0 < x \<and> credit t c (x - 1) (hm_get m' k) else credit t c x (hm_get m' k)"
proof -
  let ?p = "prune_buckets m t"
  have p: "table_ok c ?p" by (rule prune_buckets_ok [OF ok])
  have crp: "credit t c x (hm_get ?p k)" if "credit t c x (hm_get m k)" for k x
  proof (cases "hm_get m k")
    case (Some b)
    have "hm_get ?p k = Some b" if "t \<le> tb_last_refill b"
      using ok that Some by (simp add: prune_buckets_get table_ok_def)
    with that Some show ?thesis by (auto simp: credit_def)
  qed (use that ok in \<open>auto simp: credit_def\<close>)
  from run show ?thesis
  proof (cases rule: consume_bucket_cases)
    case full
    with crp [OF cr] show ?thesis by simp
  next
    case (taken b n1 b' n2 done')
    show ?thesis
    proof (cases "k = key")
      case False
      with taken(2) crp [OF cr] show ?thesis by (simp add: hm.get_put)
    next
      case True
      have okb: "bucket_ok c b"
        using taken(4) p new_bucket_ok [OF rate(2)] cap rate(1) by (auto simp: table_ok_def)
      have "credit t c x (Some b)"
        using taken(4) crp [OF cr] True by (auto simp: credit_def)
      from consume_one_credit [OF okb c taken(1) this] taken(2,3) True show ?thesis
        by (simp add: hm.get_put split: if_splits)
    qed
  qed
qed

fun attempts ::
  "clock \<Rightarrow> nat \<Rightarrow> rate_limiter \<Rightarrow> (ip_addr \<times> string) list \<Rightarrow> (ip_addr \<times> string) list" where
  \<comment> \<open>the attempts that were let through, in order\<close>
  "attempts clk n rl [] = []"
| "attempts clk n rl ((ip, u) # as) =
     (case consume_rate_limit_token clk n rl ip u of
        (rl', n', r) \<Rightarrow> (if r = Inr () then [(ip, u)] else []) @ attempts clk n' rl' as)"

lemma consume_credit:
  assumes ok: "limiter_ok rl" and run: "consume_rate_limit_token (\<lambda>_. t) n rl ip u = (rl', n', r)"
    and ci: "credit t 30 x (hm_get (rl_ip_rate_limits rl) a)"
    and cu: "credit t 10 y (hm_get (rl_rate_limits rl) (a, v))"
  shows "limiter_ok rl'
    \<and> (\<exists>x'. credit t 30 x' (hm_get (rl_ip_rate_limits rl') a) \<and> x' + (if r = Inr () \<and> ip = a then 1 else 0) \<le> x)
    \<and> (\<exists>y'. credit t 10 y' (hm_get (rl_rate_limits rl') (a, v))
         \<and> y' + (if r = Inr () \<and> ip = a \<and> to_ascii_lowercase u = v then 1 else 0) \<le> y)"
proof -
  let ?ip = "consume_bucket_token (\<lambda>_. t) n (rl_ip_rate_limits rl) ip ip_rate_limit_capacity ip_rate_limit_refill"
  obtain m1 n1 r1 where i: "?ip = (m1, n1, r1)" by (cases ?ip)
  have ci': "if r1 = Inr () \<and> a = ip then 0 < x \<and> credit t 30 (x - 1) (hm_get m1 a) else credit t 30 x (hm_get m1 a)"
    by (rule consume_bucket_credit [OF _ _ _ _ _ i ci, where q = 1])
      (use ok in \<open>simp_all add: limiter_ok_def ip_rate_limit_capacity_def ip_rate_limit_refill_def\<close>)
  have "limiter_ok rl'"
    using consume_rate_limit_token_ok [OF ok, of "\<lambda>_. t" n ip u] run by simp
  show ?thesis
  proof (cases r1)
    case (Inl e)
    with run i have "rl' = rl\<lparr>rl_ip_rate_limits := m1\<rparr>" "r = Inl e"
      by (auto simp: consume_rate_limit_token_def consume_ip_rate_limit_token_def)
    with ci' cu Inl \<open>limiter_ok rl'\<close> show ?thesis by auto
  next
    case (Inr w)
    let ?us = "consume_bucket_token (\<lambda>_. t) n1 (rl_rate_limits rl) (ip, to_ascii_lowercase u)
      user_rate_limit_capacity user_rate_limit_refill"
    obtain m2 n2 r2 where us: "?us = (m2, n2, r2)" by (cases ?us)
    obtain q where q: "0 < q" "user_rate_limit_refill = Fin q" using user_rate_positive by blast
    have cu': "if r2 = Inr () \<and> (a, v) = (ip, to_ascii_lowercase u)
        then 0 < y \<and> credit t 10 (y - 1) (hm_get m2 (a, v)) else credit t 10 y (hm_get m2 (a, v))"
      by (rule consume_bucket_credit [OF _ _ _ q(2) q(1) us cu])
        (use ok in \<open>simp_all add: limiter_ok_def user_rate_limit_capacity_def\<close>)
    have rl': "rl_ip_rate_limits rl' = m1" "rl_rate_limits rl' = m2" "r = r2"
      using run i us Inr by (auto simp: consume_rate_limit_token_def consume_ip_rate_limit_token_def)
    have "\<exists>x'. credit t 30 x' (hm_get m1 a) \<and> x' + (if r2 = Inr () \<and> ip = a then 1 else 0) \<le> x"
      using ci' Inr by (cases "a = ip") (auto intro: exI [of _ "x - 1"] exI [of _ x])
    moreover have "\<exists>y'. credit t 10 y' (hm_get m2 (a, v))
        \<and> y' + (if r2 = Inr () \<and> ip = a \<and> to_ascii_lowercase u = v then 1 else 0) \<le> y"
      using cu' by (auto intro: exI [of _ "y - 1"] exI [of _ y] split: if_splits)
    ultimately show ?thesis using \<open>limiter_ok rl'\<close> rl' by simp
  qed
qed

lemma attempts_bound:
  assumes "limiter_ok rl" and "credit t 30 x (hm_get (rl_ip_rate_limits rl) a)"
    and "credit t 10 y (hm_get (rl_rate_limits rl) (a, v))"
  shows "length (filter (\<lambda>(ip, u). ip = a) (attempts (\<lambda>_. t) n rl as)) \<le> x
    \<and> length (filter (\<lambda>(ip, u). ip = a \<and> to_ascii_lowercase u = v) (attempts (\<lambda>_. t) n rl as)) \<le> y"
  using assms
proof (induction as arbitrary: n rl x y)
  case (Cons att as)
  obtain ip u where att: "att = (ip, u)" by (cases att)
  obtain rl' n' r where run: "consume_rate_limit_token (\<lambda>_. t) n rl ip u = (rl', n', r)"
    by (cases "consume_rate_limit_token (\<lambda>_. t) n rl ip u")
  from consume_credit [OF Cons.prems(1) run Cons.prems(2,3)] obtain x' y' where
    "limiter_ok rl'" "credit t 30 x' (hm_get (rl_ip_rate_limits rl') a)"
    "credit t 10 y' (hm_get (rl_rate_limits rl') (a, v))"
    and le: "x' + (if r = Inr () \<and> ip = a then 1 else 0) \<le> x"
      "y' + (if r = Inr () \<and> ip = a \<and> to_ascii_lowercase u = v then 1 else 0) \<le> y" by blast
  from Cons.IH [OF this(1-3), of n'] le show ?case
    by (auto simp: att run split: if_splits)
qed simp

text \<open>
  Without time passing, however many attempts arrive in whatever mixture of addresses and
  user names, at most 30 of one address get through, and at most 10 of one address for one
  user name up to letter case, whatever the state of the tables before.
\<close>
theorem burst_bound:
  assumes "reach limiter_init (limiter_step clk) rl"
  shows "length (filter (\<lambda>(ip, u). ip = a) (attempts (\<lambda>_. t) n rl as)) \<le> 30
    \<and> length (filter (\<lambda>(ip, u). ip = a \<and> to_ascii_lowercase u = to_ascii_lowercase v)
         (attempts (\<lambda>_. t) n rl as)) \<le> 10"
  by (rule attempts_bound [OF limiter.reach_inv [OF assms]]) (simp_all add: credit_def)

lemma burst_bound_witness:
  "length (filter (\<lambda>(ip, u). ip = V4 [10, 0, 0, 1])
     (attempts (\<lambda>_. 5) 1 (fst (consume_rate_limit_token (\<lambda>n. n) 0
        \<lparr>rl_rate_limits = [], rl_ip_rate_limits = []\<rparr> (V4 [10, 0, 0, 1]) ''bob''))
        (replicate 50 (V4 [10, 0, 0, 1], ''bob'')))) \<le> 30"
  using burst_bound [OF one_reachable] by blast

subsection \<open>Idle buckets\<close>

lemma as_secs_f64_ge:
  assumes "from_secs k \<le> d" and "k < 2 ^ 53"
  shows "as_secs_f64 d = PInf \<or> (\<exists>q \<ge> of_nat k. as_secs_f64 d = Fin q)"
proof -
  let ?a = "f64_of_rat (of_nat (d div nanos_per_sec))"
  let ?b = "f_div (f64_of_rat (of_nat (d mod nanos_per_sec))) (f64_of_rat (of_nat nanos_per_sec))"
  have "f64_of_rat (of_nat (d mod nanos_per_sec)) = Fin (of_nat (d mod nanos_per_sec))"
    by (rule f64_of_nat) (simp add: nanos_per_sec_def less_trans [OF mod_less_divisor])
  moreover have "f64_of_rat (of_nat nanos_per_sec) = Fin (of_nat nanos_per_sec)"
    by (rule f64_of_nat) (simp add: nanos_per_sec_def)
  ultimately have b: "nonneg_f ?b" by (simp add: nanos_per_sec_def f64_of_rat_nonneg_f)
  have "k \<le> d div nanos_per_sec"
    using div_le_mono [OF assms(1), of nanos_per_sec] by (simp add: from_secs_def nanos_per_sec_def)
  then have "(of_nat k :: rat) \<le> of_nat (d div nanos_per_sec)" by simp
  from f64_of_rat_ge [OF this assms(2)] show ?thesis
  proof
    assume "\<exists>q \<ge> of_nat k. ?a = Fin q"
    then obtain q where q: "of_nat k \<le> q" "?a = Fin q" by blast
    from b consider "?b = PInf" | r where "0 \<le> r" "?b = Fin r" unfolding nonneg_f_def by blast
    then show ?thesis
    proof cases
      case 2
      then have "of_nat k \<le> q + r" using q by simp
      from f64_of_rat_ge [OF this assms(2)] 2 q show ?thesis by (simp add: as_secs_f64_def)
    qed (simp add: as_secs_f64_def q)
  qed (use b in \<open>auto simp: as_secs_f64_def nonneg_f_def\<close>)
qed

lemma idle_refill:
  assumes ok: "bucket_ok c b" and rate: "tb_refill_rate_per_sec b = Fin r"
    and enough: "of_nat c \<le> of_nat k * r" and k: "k < 2 ^ 53" and c: "c < 2 ^ 53"
    and idle: "from_secs k \<le> clk n - tb_last_refill b" and pos: "0 < k"
  shows "tb_tokens (fst (refill clk n b)) = Fin (of_nat c)"
proof -
  define e where "e = as_secs_f64 (clk n - tb_last_refill b)"
  have r: "0 < r" and cap: "tb_capacity b = Fin (of_nat c)" using ok rate by (auto simp: bucket_ok_def)
  obtain q where q: "tb_tokens b = Fin q" "0 \<le> q" "q \<le> of_nat c"
    using ok by (auto simp: bucket_ok_def tokens_in_def)
  have e: "e = PInf \<or> (\<exists>x \<ge> of_nat k. e = Fin x)" unfolding e_def by (rule as_secs_f64_ge [OF idle k])
  have "f_mul e (Fin r) = PInf \<or> (\<exists>y \<ge> of_nat c. f_mul e (Fin r) = Fin y)"
    using e
  proof
    assume "\<exists>x \<ge> of_nat k. e = Fin x"
    then obtain x where x: "of_nat k \<le> x" "e = Fin x" by blast
    have "of_nat k * r \<le> x * r" using x(1) r by (simp add: mult_right_mono)
    then have "of_nat c \<le> x * r" using enough by linarith
    from f64_of_rat_ge [OF this c] x(2) show ?thesis by simp
  qed (use r in \<open>simp add: f_signed_inf_def\<close>)
  then have "f_add (Fin q) (f_mul e (Fin r)) = PInf \<or> (\<exists>y \<ge> of_nat c. f_add (Fin q) (f_mul e (Fin r)) = Fin y)"
  proof
    assume "\<exists>y \<ge> of_nat c. f_mul e (Fin r) = Fin y"
    then obtain y where y: "of_nat c \<le> y" "f_mul e (Fin r) = Fin y" by blast
    then have "of_nat c \<le> q + y" using q(2) by linarith
    from f64_of_rat_ge [OF this c] y(2) show ?thesis by simp
  qed simp
  then have "f_min (f_add (Fin q) (f_mul e (Fin r))) (Fin (of_nat c)) = Fin (of_nat c)"
    by (auto simp: f_min_def)
  moreover have "\<not> f_le e (Fin 0)" using e pos by (auto dest: order_trans [of "1 :: rat" "of_nat k"])
  ultimately show ?thesis
    using q(1) cap rate by (simp add: refill_def e_def Let_def)
qed



subsection \<open>Passwords and codes\<close>

lemma secure_username_match_iff [simp]: "secure_username_match l r \<longleftrightarrow> l = r"
  by (auto simp: secure_username_match_def)

lemma matched_user:
  assumes "distinct (map user_name users)"
  shows "foldl (\<lambda>m user. if user_name user = nm then Some user else m) m0 users
    = (case find (\<lambda>u. user_name u = nm) users of None \<Rightarrow> m0 | Some u \<Rightarrow> Some u)"
  using assms
proof (induction users arbitrary: m0)
  case (Cons u users)
  have "\<forall>v\<in>set users. user_name v \<noteq> user_name u"
    using Cons.prems by (metis distinct.simps(2) imageI list.set_map list.simps(9))
  then have "user_name u = nm \<Longrightarrow> find (\<lambda>u. user_name u = nm) users = None" by simp
  with Cons show ?case by (auto split: option.splits)
qed simp

lemma matched_user_None:
  assumes "distinct (map user_name users)"
  shows "foldl (\<lambda>m user. if user_name user = nm then Some user else m) None users
    = find (\<lambda>u. user_name u = nm) users"
  using matched_user [OF assms, of nm None]
  by (cases "find (\<lambda>u. user_name u = nm) users") (simp_all only: option.case)

lemma password_verified:
  assumes "distinct (map user_name users)"
  shows "(verify_password_constant_time A dummy users nm pw = Inr u \<longleftrightarrow>
      u \<in> set users \<and> user_name u = nm \<and> al_parse_hash A (user_password u) = Inr ()
      \<and> al_verify A pw (user_password u))
    \<and> (al_parse_hash A dummy = Inr () \<longrightarrow> (\<forall>v\<in>set users. al_parse_hash A (user_password v) = Inr ())
       \<longrightarrow> (\<nexists>v. verify_password_constant_time A dummy users nm pw = Inr v)
       \<longrightarrow> verify_password_constant_time A dummy users nm pw = Inl AuthenticationFailed)"
proof (cases "find (\<lambda>u. user_name u = nm) users")
  case None
  then have "\<forall>u\<in>set users. user_name u \<noteq> nm" by (simp add: find_eq_None_iff)
  then show ?thesis
    by (cases "al_parse_hash A dummy")
      (auto simp: verify_password_constant_time_def matched_user_None [OF assms, of nm, unfolded None] Let_def)
next
  case (Some v)
  then have v: "v \<in> set users" "user_name v = nm" using find_SomeD [OF Some] by auto
  have only: "u = v" if "u \<in> set users" "user_name u = nm" for u
    using that v assms by (auto simp: distinct_map inj_on_def)
  have eq: "verify_password_constant_time A dummy users nm pw
      = (case al_parse_hash A (user_password v) of
           Inl e \<Rightarrow> Inl (PasswordHash e)
         | Inr _ \<Rightarrow> if al_verify A pw (user_password v) then Inr v else Inl AuthenticationFailed)"
    by (simp add: verify_password_constant_time_def matched_user_None [OF assms, of nm, unfolded Some]
        bind_res_def map_err_def split: sum.splits)
  have "verify_password_constant_time A dummy users nm pw = Inr u \<longleftrightarrow> u = v
      \<and> al_parse_hash A (user_password v) = Inr () \<and> al_verify A pw (user_password v)"
    unfolding eq by (auto split: sum.split)
  moreover have "verify_password_constant_time A dummy users nm pw = Inl AuthenticationFailed"
    if "al_parse_hash A (user_password v) = Inr ()" "\<nexists>w. verify_password_constant_time A dummy users nm pw = Inr w"
    using that unfolding eq by (simp split: if_splits)
  ultimately show ?thesis using v only by blast
qed

text \<open>
  With distinct user names, password verification returns a record exactly if it is the
  record of the requested name, its stored hash parses and the password verifies against that
  hash; the dummy hash never lets anyone in.  When the hashes parse, an unknown name and a
  wrong password get the same answer.
\<close>
theorem verify_password_correct:
  assumes "distinct (map user_name users)"
  shows "(verify_password_constant_time A dummy users nm pw = Inr u \<longleftrightarrow>
      u \<in> set users \<and> user_name u = nm \<and> al_parse_hash A (user_password u) = Inr ()
      \<and> al_verify A pw (user_password u))
    \<and> (al_parse_hash A dummy = Inr () \<longrightarrow> (\<forall>v\<in>set users. al_parse_hash A (user_password v) = Inr ())
       \<longrightarrow> (\<nexists>v. verify_password_constant_time A dummy users nm pw = Inr v)
       \<longrightarrow> verify_password_constant_time A dummy users nm pw = Inl AuthenticationFailed)"
  by (rule password_verified [OF assms])

definition code_accepted :: "auth_libs \<Rightarrow> nat \<Rightarrow> string \<Rightarrow> string \<Rightarrow> bool" where
  \<comment> \<open>the secret decodes, the parameters are accepted and the code is current\<close>
  "code_accepted A tick secret code \<longleftrightarrow> (\<exists>bytes. al_secret_bytes A secret = Inr bytes
     \<and> al_totp_valid A (make_totp bytes None []) = Inr ()
     \<and> al_totp_check A tick (make_totp bytes None []) code = Some True)"

lemma verify_totp_code_iff: "verify_totp_code A tick secret code = Inr () \<longleftrightarrow> code_accepted A tick secret code"
  by (auto simp: verify_totp_code_def build_totp_from_secret_def new_totp_def code_accepted_def
      unwrap_or_def Let_def split: option.splits if_splits)

text \<open>
  C29: The combined check succeeds for a record exactly if the password alone does and, where
  the record has a TOTP secret, the code is currently valid for that secret under the fixed
  parameters (six digits, 30 seconds, one step of skew); a clock error counts as invalid.
\<close>
theorem verify_password_and_totp_correct:
  assumes "distinct (map user_name users)"
  shows "verify_password_and_optional_totp_constant_time A dummy tick users nm pw code = Inr u \<longleftrightarrow>
      u \<in> set users \<and> user_name u = nm \<and> al_parse_hash A (user_password u) = Inr ()
      \<and> al_verify A pw (user_password u)
      \<and> (\<forall>secret. user_totp_secret u = Some secret \<longrightarrow> code_accepted A tick secret code)"
proof -
  have pw: "verify_password_constant_time A dummy users nm pw = Inr v \<longleftrightarrow>
      v \<in> set users \<and> user_name v = nm \<and> al_parse_hash A (user_password v) = Inr ()
      \<and> al_verify A pw (user_password v)" for v
    using password_verified [OF assms] by blast
  show ?thesis
    by (auto simp: verify_password_and_optional_totp_constant_time_def pw verify_totp_code_iff
        split: option.splits)
qed

text \<open>
  A new password passes the policy exactly if it has at least the configured number of
  bytes (a setting above 256 counts as 256), at most 256, the old hash parses and the password
  does not verify against it.
\<close>
theorem enforce_password_policy_iff:
  "enforce_password_policy A new_password old_hash min_length = Inr () \<longleftrightarrow>
     min min_length 256 \<le> length new_password \<and> length new_password \<le> 256
     \<and> al_parse_hash A old_hash = Inr () \<and> \<not> al_verify A new_password old_hash"
  by (auto simp: enforce_password_policy_def Let_def split: if_splits)

definition sample_auth :: auth_libs where
  \<comment> \<open>an instance of the parameters, for the witnesses\<close>
  "sample_auth = \<lparr>al_parse_hash = (\<lambda>h. if starts_with h ''$argon2id$'' then Inr () else Inl ''format''),
     al_verify = (\<lambda>pw h. h = ''$argon2id$'' @ pw),
     al_hash = (\<lambda>n pw. Inr (''$argon2id$'' @ pw)),
     al_random_bytes = (\<lambda>n. replicate 32 CHR ''x''), al_base32 = id,
     al_secret_bytes = Inr, al_totp_valid = (\<lambda>_. Inr ()),
     al_totp_check = (\<lambda>n t code. Some (code = ''123456'')), al_totp_url = (\<lambda>_. ''otpauth://'')\<rparr>"

definition sample_user :: user_record where
  "sample_user = \<lparr>user_name = ''bob'', user_password = ''$argon2id$pw'', user_totp_secret = Some ''S'',
     user_must_change_password = False, user_allowed_servers = [''web''],
     user_authorization = default_policy\<rparr>"

lemma verify_password_correct_witness:
  "verify_password_constant_time sample_auth ''$argon2id$d'' [sample_user] ''bob'' ''pw'' = Inr sample_user"
  using verify_password_correct [of "[sample_user]" sample_auth "''$argon2id$d''" "''bob''" "''pw''" sample_user]
  by (simp add: sample_user_def sample_auth_def)

lemma verify_password_and_totp_correct_witness:
  "verify_password_and_optional_totp_constant_time sample_auth ''$argon2id$d'' 0 [sample_user]
     ''bob'' ''pw'' ''123456'' = Inr sample_user"
  using verify_password_and_totp_correct [of "[sample_user]" sample_auth "''$argon2id$d''" 0 "''bob''" "''pw''"
      "''123456''" sample_user]
  by (simp add: sample_user_def sample_auth_def code_accepted_def)

end
