(* ===== verification/Config_Validation.thy ===== *)
theory Config_Validation
  imports Crypto_Policy Fail2ban_Settings Auth_Engine
begin

text \<open>
  Validation of a loaded configuration (\<^verbatim>\<open>src/src/config/mod.rs\<close>, \<^verbatim>\<open>validate_semantics\<close> and
  what it calls) and the declarative condition it decides.  What the checks consult outside
  the configuration (whitelist file, crates) is the record \<^verbatim>\<open>config_env\<close>.
\<close>

record config_env =
  ce_fail2ban :: fail2ban_libs
  ce_files :: file_view
  ce_kex :: "kex_name \<Rightarrow> string"
  ce_auth :: auth_libs

subsection \<open>Names\<close>

definition component_char :: "char \<Rightarrow> bool" where
  "component_char c \<longleftrightarrow> is_ascii_alphanumeric c \<or> c \<in> {CHR ''.'', CHR ''_'', CHR ''-''}"

definition is_valid_component :: "string \<Rightarrow> nat \<Rightarrow> bool" where
  "is_valid_component nm max_len =
     (if nm = [] \<or> max_len < length nm then False else all_chars component_char nm)"

definition is_valid_username :: "string \<Rightarrow> bool" where
  "is_valid_username nm = is_valid_component nm 64"

definition is_valid_server_identifier :: "string \<Rightarrow> bool" where
  "is_valid_server_identifier nm = is_valid_component nm 64"

definition host_label_ok :: "string \<Rightarrow> bool" where
  "host_label_ok label \<longleftrightarrow> label \<noteq> [] \<and> length label \<le> 63 \<and> \<not> starts_with label ''-''
     \<and> \<not> ends_with label ''-'' \<and> all_chars (\<lambda>c. is_ascii_alphanumeric c \<or> c = CHR ''-'') label"

definition is_valid_host_or_ip :: "string \<Rightarrow> bool" where
  "is_valid_host_or_ip value =
     (if parse_ip value \<noteq> None then True
      else if value = [] \<or> 253 < length value then False
      else list_all host_label_ok (split_on CHR ''.'' value))"

subsection \<open>Passwords and secrets\<close>

definition is_rejected_bootstrap_placeholder :: "string \<Rightarrow> bool" where
  "is_rejected_bootstrap_placeholder password \<longleftrightarrow> password \<in> set
     [''TemporaryPassword123!'', ''AnotherTempPass123!'',
      ''REPLACE_WITH_UNIQUE_TEMPORARY_PASSWORD'', ''CHANGE_ME_BEFORE_STARTING'']"

definition validate_password_field :: "auth_libs \<Rightarrow> user_record \<Rightarrow> unit gw_result" where
  "validate_password_field A user =
     (if starts_with (user_password user) ''$argon2id$'' then
        bind_res (map_err (\<lambda>e. InvalidConfig (''invalid Argon2id password hash for ''
            @ sq (user_name user) @ '': '' @ e)) (al_parse_hash A (user_password user)))
          (\<lambda>_. Inr ())
      else try_each (\<lambda>(bad, message). guard_res bad
            (InvalidConfig (''bootstrap password for '' @ sq (user_name user) @ message)))
        [(trim (user_password user) = [], '' must not be empty''),
         (is_rejected_bootstrap_placeholder (user_password user),
           '' is a documented placeholder and must be replaced''),
         (256 < length (user_password user), '' exceeds 256 characters''),
         (\<not> user_must_change_password user, '' requires must_change_password=true'')])"

definition validate_totp_secret :: "auth_libs \<Rightarrow> string \<Rightarrow> unit gw_result" where
  "validate_totp_secret A secret = bind_res (build_totp_from_secret A secret) (\<lambda>_. Inr ())"

subsection \<open>Authorization tables\<close>

definition validate_policy_user ::
  "config_file \<Rightarrow> string \<Rightarrow> string \<Rightarrow> unit gw_result" where
  \<comment> \<open>one key of one server's table\<close>
  "validate_policy_user config server_name username =
     bind_res (guard_res (\<not> is_valid_username username)
         (InvalidConfig (''authorization policy uses invalid user name '' @ sq username))) (\<lambda>_.
     bind_res (ok_or (InvalidConfig (''authorization policy references unknown user '' @ sq username
           @ '' for server '' @ sq server_name))
         (find (\<lambda>u. user_name u = username) (cf_users config))) (\<lambda>user.
       guard_res (server_name \<notin> set (user_allowed_servers user))
         (InvalidConfig (''authorization policy for '' @ sq (server_name @ ''.'' @ username)
           @ '' is invalid because user '' @ sq username @ '' is not allowed to access server ''
           @ sq server_name))))"

definition validate_policy_table ::
  "config_file \<Rightarrow> servers_file \<Rightarrow> string \<times> (string, authorization_policy_config) hash_map \<Rightarrow> unit gw_result" where
  "validate_policy_table config servers entry = (case entry of (server_name, user_policies) \<Rightarrow>
     bind_res (guard_res (\<not> hm_contains servers server_name)
         (InvalidConfig (''authorization policy references unknown server '' @ sq server_name))) (\<lambda>_.
     bind_res (guard_res (\<not> is_valid_server_identifier server_name)
         (InvalidConfig (''authorization policy uses invalid server identifier '' @ sq server_name))) (\<lambda>_.
       try_each (validate_policy_user config server_name) (map fst user_policies))))"

definition validate_authorization_policy :: "config_file \<Rightarrow> servers_file \<Rightarrow> unit gw_result" where
  "validate_authorization_policy config servers =
     (if unwrap_or True (sc_per_user_per_server (cf_settings config)) then
        bind_res (try_each (\<lambda>user. guard_res (has_explicit_entries (user_authorization user))
            (InvalidConfig (''user '' @ sq (user_name user) @ '' defines allow_* policy fields, but settings.per_user_per_server=true requires [server.user] policy tables only'')))
          (cf_users config))
        (\<lambda>_. try_each (validate_policy_table config servers) (cf_server_user_policies config))
      else guard_res (cf_server_user_policies config \<noteq> [])
        (InvalidConfig ''per-user-per-server authorization policy tables require settings.per_user_per_server=true''))"

subsection \<open>The whole configuration\<close>

definition validate_server :: "string list \<Rightarrow> string \<times> string \<Rightarrow> string list gw_result" where
  \<comment> \<open>one round of the loop over the servers, with the names seen so far\<close>
  "validate_server seen entry = (case entry of (server_name, host) \<Rightarrow>
     bind_res (guard_res (\<not> is_valid_server_identifier server_name)
       (InvalidConfig (''invalid server identifier '' @ sq server_name))) (\<lambda>_.
     bind_res (guard_res (server_name \<in> set seen)
       (InvalidConfig (''duplicate server identifier '' @ sq server_name))) (\<lambda>_.
     bind_res (guard_res (\<not> is_valid_host_or_ip host)
       (InvalidConfig (''invalid host or IP literal '' @ sq host @ '' for server '' @ sq server_name)))
     (\<lambda>_. Inr (server_name # seen)))))"

definition validate_user ::
  "auth_libs \<Rightarrow> servers_file \<Rightarrow> string list \<Rightarrow> user_record \<Rightarrow> string list gw_result" where
  \<comment> \<open>one round of the loop over the users\<close>
  "validate_user A servers seen user =
     bind_res (guard_res (\<not> is_valid_username (user_name user))
       (InvalidConfig (''invalid user name '' @ sq (user_name user) @ '': use 1-64 chars from [a-zA-Z0-9._-]''))) (\<lambda>_.
     bind_res (guard_res (user_name user \<in> set seen)
       (InvalidConfig (''duplicate user name '' @ sq (user_name user)))) (\<lambda>_.
     bind_res (validate_password_field A user) (\<lambda>_.
     bind_res (case user_totp_secret user of None \<Rightarrow> Inr () | Some secret \<Rightarrow> validate_totp_secret A secret) (\<lambda>_.
     bind_res (guard_res (user_allowed_servers user = [])
       (InvalidConfig (''user '' @ sq (user_name user) @ '' must have at least one allowed server''))) (\<lambda>_.
     bind_res (try_each (\<lambda>server_name. guard_res (\<not> hm_contains servers server_name)
         (InvalidConfig (''user '' @ sq (user_name user) @ '' references unknown server '' @ sq server_name)))
       (user_allowed_servers user))
     (\<lambda>_. Inr (user_name user # seen)))))))"

definition validate_semantics :: "config_env \<Rightarrow> config_file \<Rightarrow> servers_file \<Rightarrow> unit gw_result" where
  "validate_semantics E config servers =
     bind_res (case cf_fail2ban config of
         None \<Rightarrow> Inr ()
       | Some fail2ban \<Rightarrow> bind_res (effective (ce_fail2ban E) (ce_files E) fail2ban
           (sc_whitelist_path (cf_settings config))) (\<lambda>_. Inr ())) (\<lambda>_.
     bind_res (validate_kex_policy (ce_kex E) (cf_kex_policy config)) (\<lambda>_.
     bind_res (case sc_min_password_policy (cf_settings config) of
         None \<Rightarrow> Inr ()
       | Some min_password_policy \<Rightarrow> guard_res (256 < min_password_policy)
           (InvalidConfig (''settings.min_password_policy must be <= 256, found ''
             @ show_nat min_password_policy))) (\<lambda>_.
     bind_res (guard_res (cf_users config = [])
       (InvalidConfig ''config.toml must contain at least one user'')) (\<lambda>_.
     bind_res (guard_res (servers = [])
       (InvalidConfig ''servers.toml must contain at least one server'')) (\<lambda>_.
     bind_res (try_fold validate_server [] servers) (\<lambda>_.
     bind_res (try_fold (validate_user (ce_auth E) servers) [] (cf_users config)) (\<lambda>_.
     validate_authorization_policy config servers)))))))"

subsection \<open>What the validation decides\<close>

definition name_ok :: "string \<Rightarrow> bool" where
  \<comment> \<open>1 to 64 characters from \<^verbatim>\<open>[a-zA-Z0-9._-]\<close>\<close>
  "name_ok nm \<longleftrightarrow> 1 \<le> length nm \<and> length nm \<le> 64 \<and> (\<forall>c\<in>set nm. component_char c)"

definition password_field_ok :: "auth_libs \<Rightarrow> user_record \<Rightarrow> bool" where
  \<comment> \<open>a parsable hash, or a bootstrap password that must be changed\<close>
  "password_field_ok A u \<longleftrightarrow>
     (if starts_with (user_password u) ''$argon2id$'' then al_parse_hash A (user_password u) = Inr ()
      else trim (user_password u) \<noteq> [] \<and> \<not> is_rejected_bootstrap_placeholder (user_password u)
        \<and> length (user_password u) \<le> 256 \<and> user_must_change_password u)"

definition user_ok :: "auth_libs \<Rightarrow> servers_file \<Rightarrow> user_record \<Rightarrow> bool" where
  "user_ok A servers u \<longleftrightarrow> name_ok (user_name u) \<and> password_field_ok A u
     \<and> (\<forall>s. user_totp_secret u = Some s \<longrightarrow> is_ok (build_totp_from_secret A s))
     \<and> user_allowed_servers u \<noteq> [] \<and> set (user_allowed_servers u) \<subseteq> fst ` set servers"

definition policies_ok :: "config_file \<Rightarrow> servers_file \<Rightarrow> bool" where
  "policies_ok config servers \<longleftrightarrow>
     (if unwrap_or True (sc_per_user_per_server (cf_settings config)) then
        (\<forall>u\<in>set (cf_users config). \<not> has_explicit_entries (user_authorization u))
        \<and> (\<forall>(server, table)\<in>set (cf_server_user_policies config).
             name_ok server \<and> server \<in> fst ` set servers
             \<and> (\<forall>nm\<in>fst ` set table. name_ok nm
                  \<and> (\<exists>u. find (\<lambda>u. user_name u = nm) (cf_users config) = Some u
                       \<and> server \<in> set (user_allowed_servers u))))
      else cf_server_user_policies config = [])"

definition config_ok :: "config_env \<Rightarrow> config_file \<Rightarrow> servers_file \<Rightarrow> bool" where
  "config_ok E config servers \<longleftrightarrow>
     (\<forall>f. cf_fail2ban config = Some f \<longrightarrow>
        is_ok (effective (ce_fail2ban E) (ce_files E) f (sc_whitelist_path (cf_settings config))))
     \<and> validate_kex_policy (ce_kex E) (cf_kex_policy config) = Inr ()
     \<and> (\<forall>n. sc_min_password_policy (cf_settings config) = Some n \<longrightarrow> n \<le> 256)
     \<and> cf_users config \<noteq> [] \<and> servers \<noteq> []
     \<and> distinct (map fst servers) \<and> (\<forall>(nm, host)\<in>set servers. name_ok nm \<and> is_valid_host_or_ip host)
     \<and> distinct (map user_name (cf_users config)) \<and> (\<forall>u\<in>set (cf_users config). user_ok (ce_auth E) servers u)
     \<and> policies_ok config servers"

lemma valid_component_iff: "is_valid_component nm 64 \<longleftrightarrow> name_ok nm"
  by (cases nm) (auto simp: is_valid_component_def name_ok_def all_chars_def list_all_iff)

lemma valid_name_iff [simp]: "is_valid_username nm = name_ok nm" "is_valid_server_identifier nm = name_ok nm"
  by (simp_all add: is_valid_username_def is_valid_server_identifier_def valid_component_iff)

lemma validate_password_field_iff: "validate_password_field A u = Inr w \<longleftrightarrow> password_field_ok A u"
  by (auto simp: validate_password_field_def password_field_ok_def not_less)

lemma validate_totp_secret_iff: "validate_totp_secret A s = Inr w \<longleftrightarrow> is_ok (build_totp_from_secret A s)"
  by (auto simp: validate_totp_secret_def is_ok_iff)

lemma server_scan:
  "(\<exists>seen'. try_fold validate_server seen servers = Inr seen') \<longleftrightarrow>
     distinct (map fst servers) \<and> set seen \<inter> fst ` set servers = {}
     \<and> (\<forall>(nm, host)\<in>set servers. name_ok nm \<and> is_valid_host_or_ip host)"
proof (induction servers arbitrary: seen)
  case (Cons e servers)
  obtain nm host where e: "e = (nm, host)" by (cases e)
  have "validate_server seen e = Inr seen1 \<longleftrightarrow>
      name_ok nm \<and> nm \<notin> set seen \<and> is_valid_host_or_ip host \<and> seen1 = nm # seen" for seen1
    by (auto simp: validate_server_def e)
  then have "(\<exists>seen'. try_fold validate_server seen (e # servers) = Inr seen') \<longleftrightarrow>
      name_ok nm \<and> nm \<notin> set seen \<and> is_valid_host_or_ip host
      \<and> (\<exists>seen'. try_fold validate_server (nm # seen) servers = Inr seen')"
    by auto
  then show ?case unfolding Cons.IH by (auto simp: e)
qed simp

lemma user_scan:
  "(\<exists>seen'. try_fold (validate_user A servers) seen users = Inr seen') \<longleftrightarrow>
     distinct (map user_name users) \<and> set seen \<inter> user_name ` set users = {}
     \<and> (\<forall>u\<in>set users. user_ok A servers u)"
proof (induction users arbitrary: seen)
  case (Cons u users)
  have "validate_user A servers seen u = Inr seen1 \<longleftrightarrow>
      user_ok A servers u \<and> user_name u \<notin> set seen \<and> seen1 = user_name u # seen" for seen1
    by (auto simp: validate_user_def user_ok_def validate_password_field_iff validate_totp_secret_iff
        hm_contains_iff split: option.split)
  then have "(\<exists>seen'. try_fold (validate_user A servers) seen (u # users) = Inr seen') \<longleftrightarrow>
      user_ok A servers u \<and> user_name u \<notin> set seen
      \<and> (\<exists>seen'. try_fold (validate_user A servers) (user_name u # seen) users = Inr seen')"
    by auto
  then show ?case unfolding Cons.IH by auto
qed simp

lemma validate_policy_user_iff:
  "validate_policy_user config server nm = Inr () \<longleftrightarrow> name_ok nm
     \<and> (\<exists>u. find (\<lambda>u. user_name u = nm) (cf_users config) = Some u \<and> server \<in> set (user_allowed_servers u))"
  by (auto simp: validate_policy_user_def)

lemma validate_policy_table_iff:
  "validate_policy_table config servers (server, table) = Inr () \<longleftrightarrow>
     name_ok server \<and> server \<in> fst ` set servers
     \<and> (\<forall>nm\<in>fst ` set table. validate_policy_user config server nm = Inr ())"
  by (auto simp: validate_policy_table_def hm_contains_iff)

lemma validate_authorization_policy_iff:
  "validate_authorization_policy config servers = Inr () \<longleftrightarrow> policies_ok config servers"
proof -
  have "(\<forall>x\<in>set tables. validate_policy_table config servers x = Inr ()) \<longleftrightarrow>
      (\<forall>(server, table)\<in>set tables. name_ok server \<and> server \<in> fst ` set servers
         \<and> (\<forall>nm\<in>fst ` set table. validate_policy_user config server nm = Inr ()))" for tables
    using validate_policy_table_iff [of config servers] by (auto simp only: split_paired_Ball_Sigma) fastforce+
  then show ?thesis
    by (simp add: validate_authorization_policy_def policies_ok_def validate_policy_user_iff)
qed

lemma validate_semantics_iff: "validate_semantics E config servers = Inr () \<longleftrightarrow> config_ok E config servers"
proof -
  have "(case cf_fail2ban config of None \<Rightarrow> Inr ()
       | Some fail2ban \<Rightarrow> bind_res (effective (ce_fail2ban E) (ce_files E) fail2ban
           (sc_whitelist_path (cf_settings config))) (\<lambda>_. Inr ())) = Inr ()
     \<longleftrightarrow> (\<forall>f. cf_fail2ban config = Some f \<longrightarrow>
        is_ok (effective (ce_fail2ban E) (ce_files E) f (sc_whitelist_path (cf_settings config))))"
    by (auto simp: is_ok_iff split: option.split)
  moreover have "(case sc_min_password_policy (cf_settings config) of None \<Rightarrow> Inr ()
       | Some n \<Rightarrow> guard_res (256 < n) (InvalidConfig (''settings.min_password_policy must be <= 256, found ''
             @ show_nat n))) = Inr ()
     \<longleftrightarrow> (\<forall>n. sc_min_password_policy (cf_settings config) = Some n \<longrightarrow> n \<le> 256)"
    by (auto split: option.split)
  ultimately show ?thesis
    using server_scan [of "[]" servers] user_scan [of "ce_auth E" servers "[]" "cf_users config"]
    unfolding validate_semantics_def config_ok_def
    by (simp add: validate_authorization_policy_iff)
qed

text \<open>
  C32: Validation accepts exactly the well-formed configurations: usable fail2ban settings and
  key exchange policy, a password length setting of at most 256, at least one user and one
  server, distinct server names and user names made of 1 to 64 allowed characters, well-formed
  hosts, for every user a parsable Argon2id hash or a bootstrap password that is not blank,
  not a documented placeholder, not too long and marked for change, a decodable TOTP secret if
  any, at least one allowed server and only known ones; and authorization tables only in the
  mode that uses them, naming only known servers and users who may reach the server.
\<close>
theorem validate_semantics_correct:
  "validate_semantics E config servers = Inr () \<longleftrightarrow> config_ok E config servers"
  by (rule validate_semantics_iff)

definition policy_source :: "config_file \<Rightarrow> user_record \<Rightarrow> string \<Rightarrow> bool \<Rightarrow> authorization_policy_config" where
  \<comment> \<open>the table that governs a user on a server\<close>
  "policy_source config u target per_user_per_server =
     (if per_user_per_server then
        (case hm_get (cf_server_user_policies config) target of
           None \<Rightarrow> default_policy
         | Some table \<Rightarrow> (case hm_get table (user_name u) of None \<Rightarrow> default_policy | Some p \<Rightarrow> p))
      else user_authorization u)"

lemma find_user:
  "distinct (map user_name users) \<Longrightarrow> u \<in> set users \<Longrightarrow> find (\<lambda>v. user_name v = user_name u) users = Some u"
  using find_Some_distinct_iff [of user_name users] by blast

text \<open>
  C33: In a valid configuration every user has an effective policy on every target.
  Forwarding is allowed only where the governing table says so explicitly, SFTP and SCP unless
  it forbids them explicitly; and in the mode with one table per server and user, a target the
  user may not reach never has anything but the defaults.
\<close>
theorem effective_policy_correct:
  assumes "config_ok E config servers" and "u \<in> set (cf_users config)"
  shows "\<exists>p. resolve_effective_authorization_policy config (user_name u) target mode = Inr p
    \<and> eff_allow_local_forwarding p
        = (ap_allow_local_forwarding (policy_source config u target mode) = Some True)
    \<and> eff_allow_remote_forwarding p
        = (ap_allow_remote_forwarding (policy_source config u target mode) = Some True)
    \<and> eff_allow_sftp p = (ap_allow_sftp (policy_source config u target mode) \<noteq> Some False)
    \<and> eff_allow_scp p = (ap_allow_scp (policy_source config u target mode) \<noteq> Some False)
    \<and> (mode \<and> unwrap_or True (sc_per_user_per_server (cf_settings config))
         \<and> target \<notin> set (user_allowed_servers u) \<longrightarrow> policy_source config u target mode = default_policy)"
proof -
  have found: "find (\<lambda>v. user_name v = user_name u) (cf_users config) = Some u"
    using assms by (intro find_user) (simp_all add: config_ok_def)
  have opt: "unwrap_or False x = (x = Some True)" "unwrap_or True x = (x \<noteq> Some False)" for x
    by (cases x; simp)+
  have source: "policy_source config u target True = unwrap_or default_policy
      (Option.bind (hm_get (cf_server_user_policies config) target) (\<lambda>t. hm_get t (user_name u)))"
    by (simp add: policy_source_def unwrap_or_def split: option.split)
  have "policy_source config u target True = default_policy"
    if "unwrap_or True (sc_per_user_per_server (cf_settings config))" "target \<notin> set (user_allowed_servers u)"
  proof -
    have "hm_get table (user_name u) = None" if "hm_get (cf_server_user_policies config) target = Some table" for table
    proof (rule ccontr)
      assume "hm_get table (user_name u) \<noteq> None"
      then have "user_name u \<in> fst ` set table" by (auto simp: hm_contains_iff [symmetric] hm_contains_def)
      moreover have "(target, table) \<in> set (cf_server_user_policies config)" using that by (rule hm_get_SomeD)
      ultimately have "target \<in> set (user_allowed_servers u)"
        using assms(1) found \<open>unwrap_or True _\<close> by (fastforce simp: config_ok_def policies_ok_def)
      with \<open>target \<notin> _\<close> show False by blast
    qed
    then show ?thesis by (simp add: policy_source_def split: option.split)
  qed
  moreover have "resolve_effective_authorization_policy config (user_name u) target mode
      = Inr (resolve_policy (policy_source config u target mode))"
    using found source
    by (cases mode) (simp_all add: resolve_effective_authorization_policy_def Let_def
        policy_source_def [of _ _ _ False])
  ultimately show ?thesis by (cases mode) (simp_all add: resolve_policy_def opt)
qed

definition sample_config :: config_file where
  "sample_config = \<lparr>cf_users = [sample_user],
     cf_settings = \<lparr>sc_user_key_root = None, sc_known_hosts_path = None, sc_audit_log_path = None,
       sc_whitelist_path = None, sc_per_user_per_server = None, sc_drop_to_menu = None,
       sc_hide_proxy_ip = None, sc_enforce_password_policy = None, sc_min_password_policy = None\<rparr>,
     cf_kex_policy = default_kex_policy, cf_fail2ban = None,
     cf_server_user_policies = [(''web'', [(''bob'', default_policy\<lparr>ap_allow_local_forwarding := Some True\<rparr>)])]\<rparr>"

definition sample_env :: config_env where
  \<comment> \<open>an instance of the parameters, for the witnesses\<close>
  "sample_env = \<lparr>ce_fail2ban = sample_libs, ce_files = (\<lambda>_. Inl (IoNotFound ''none'')),
     ce_kex = documented_as_ref, ce_auth = sample_auth\<rparr>"

definition sample_servers :: servers_file where
  "sample_servers = [(''web'', ''10.0.0.5'')]"

lemma sample_config_ok: "config_ok sample_env sample_config sample_servers"
proof -
  have "parse_ip ''10.0.0.5'' \<noteq> None" by code_simp
  then have "is_valid_host_or_ip ''10.0.0.5''" by (simp add: is_valid_host_or_ip_def)
  moreover have "name_ok ''web''" "name_ok ''bob''" by code_simp+
  ultimately show ?thesis
    using default_kex_policy_valid
    by (simp add: config_ok_def sample_config_def sample_env_def sample_servers_def user_ok_def
        sample_user_def password_field_ok_def sample_auth_def policies_ok_def has_explicit_entries_def
        default_policy_def build_totp_from_secret_def new_totp_def)
qed

lemma validate_semantics_correct_witness:
  "validate_semantics sample_env sample_config sample_servers = Inr ()"
  using validate_semantics_correct sample_config_ok by blast

lemma effective_policy_correct_witness:
  "\<exists>p. resolve_effective_authorization_policy sample_config ''bob'' ''web'' True = Inr p
     \<and> eff_allow_local_forwarding p"
  using effective_policy_correct [OF sample_config_ok, of sample_user "''web''" True]
  by (auto simp: sample_config_def sample_user_def policy_source_def hm_get_def)

end
