(* ===== verification/Config_Store.thy ===== *)
theory Config_Store
  imports Abuse_Tracker Config_Validation
begin

text \<open>
  The running configuration (\<^verbatim>\<open>src/src/config/mod.rs\<close>, \<^verbatim>\<open>ConfigStore\<close>): loading and reloading
  with the security checks, hashing of bootstrap passwords, and updates of a user's credentials
  in memory and in the configuration file.  The gateway's state extends the tracker's.  The
  TOML parsers and the format-preserving document of \<^verbatim>\<open>toml_edit\<close> are parameters.
\<close>

datatype toml_value = TomlString string | TomlBool bool

record 'd doc_lib =
  dl_parse :: "string \<Rightarrow> string + 'd"                    \<comment> \<open>\<^verbatim>\<open>str::parse::<DocumentMut>\<close>\<close>
  dl_print :: "'d \<Rightarrow> string"                            \<comment> \<open>\<^verbatim>\<open>DocumentMut::to_string\<close>\<close>
  dl_user_names :: "'d \<Rightarrow> string option list option"    \<comment> \<open>the \<^verbatim>\<open>name\<close> entries of the \<^verbatim>\<open>[[users]]\<close> tables\<close>
  dl_set_user :: "nat \<Rightarrow> string \<Rightarrow> toml_value \<Rightarrow> 'd \<Rightarrow> 'd" \<comment> \<open>\<^verbatim>\<open>users[i][key] = value(v)\<close>\<close>

record 'd gateway_libs =
  gl_tracker :: tracker_libs
  gl_kex :: "kex_name \<Rightarrow> string"
  gl_auth :: auth_libs
  gl_instant :: clock                                     \<comment> \<open>\<^verbatim>\<open>Instant::now()\<close>\<close>
  gl_dummy_hash :: string                                 \<comment> \<open>hashed once by \<^verbatim>\<open>AuthEngine::new\<close>\<close>
  gl_parse_config :: "string \<Rightarrow> string + config_file"     \<comment> \<open>\<^verbatim>\<open>toml::from_slice\<close>\<close>
  gl_parse_servers :: "string \<Rightarrow> string + servers_file"
  gl_doc :: "'d doc_lib"
  gl_var :: "string \<Rightarrow> string option"                     \<comment> \<open>environment variables, as bytes\<close>
  gl_qr :: "string \<Rightarrow> string + (nat \<times> bool list)"        \<comment> \<open>\<^verbatim>\<open>QrCode::new\<close>: width and dark modules\<close>

record gateway = tracker +
  gw_config :: runtime_state
  gw_paths :: effective_paths
  gw_limiter :: rate_limiter
  gw_instants :: nat
  gw_draws :: nat
  gw_ticks :: nat

abbreviation gl_os :: "'d gateway_libs \<Rightarrow> os_ops" where
  "gl_os G \<equiv> tl_os (gl_tracker G)"

abbreviation gw_users :: "'z gateway_scheme \<Rightarrow> user_record list" where
  "gw_users s \<equiv> cf_users (rt_config (gw_config s))"

subsection \<open>Loading\<close>

definition load_config_file :: "'d gateway_libs \<Rightarrow> disk \<Rightarrow> path_buf \<Rightarrow> config_file gw_result" where
  "load_config_file G d path =
     bind_res (map_err Io (os_read (gl_os G) d path)) (\<lambda>bytes. map_err TomlDe (gl_parse_config G bytes))"

definition load_servers_file :: "'d gateway_libs \<Rightarrow> disk \<Rightarrow> path_buf \<Rightarrow> servers_file gw_result" where
  "load_servers_file G d path =
     bind_res (map_err Io (os_read (gl_os G) d path)) (\<lambda>bytes. map_err TomlDe (gl_parse_servers G bytes))"

definition validate_store_files :: "os_ops \<Rightarrow> disk \<Rightarrow> effective_paths \<Rightarrow> bool \<Rightarrow> unit gw_result" where
  \<comment> \<open>the checks on the files, in order\<close>
  "validate_store_files os d paths enforce_strict_security =
     (if enforce_strict_security then
        try_each id [
          validate_file_security os d (ep_config_path paths) mode_600 True,
          validate_file_security os d (ep_servers_path paths) mode_600 True,
          validate_file_security os d (ep_known_hosts_path paths) mode_600 True,
          validate_directory_security os d (ep_user_key_root paths) mode_700 True,
          validate_optional_file_security os d (ep_whitelist_path paths) mode_600]
      else
        try_each id [
          validate_path_has_no_symlinks os d (ep_config_path paths),
          validate_path_has_no_symlinks os d (ep_servers_path paths),
          validate_path_has_no_symlinks os d (ep_known_hosts_path paths),
          validate_path_has_no_symlinks os d (ep_user_key_root paths),
          validate_optional_path_has_no_symlinks os d (ep_whitelist_path paths)])"

definition validation_env :: "'d gateway_libs \<Rightarrow> disk \<Rightarrow> config_env" where
  "validation_env G d = \<lparr>ce_fail2ban = tl_net (gl_tracker G), ce_files = os_read (gl_os G) d,
     ce_kex = gl_kex G, ce_auth = gl_auth G\<rparr>"

definition read_store ::
  "'d gateway_libs \<Rightarrow> disk \<Rightarrow> effective_paths \<Rightarrow> bool \<Rightarrow> (config_file \<times> servers_file) gw_result" where
  \<comment> \<open>the common body of \<^verbatim>\<open>load\<close> and \<^verbatim>\<open>reload\<close>\<close>
  "read_store G d paths enforce_strict_security =
     bind_res (load_config_file G d (ep_config_path paths)) (\<lambda>config.
     bind_res (load_servers_file G d (ep_servers_path paths)) (\<lambda>servers.
     let config = apply_runtime_overrides config paths in
     bind_res (validate_store_files (gl_os G) d paths enforce_strict_security) (\<lambda>_.
     bind_res (validate_semantics (validation_env G d) config servers) (\<lambda>_.
     Inr (config, servers)))))"

definition config_store_load ::
  "'d gateway_libs \<Rightarrow> effective_paths \<Rightarrow> bool \<Rightarrow> ('z gateway_scheme, unit gw_result) act" where
  "config_store_load G paths enforce_strict_security =
     act_bind (act_get (\<lambda>s. read_store G (tr_disk s) paths enforce_strict_security)) (\<lambda>r. case r of
       Inl error \<Rightarrow> act_return (Inl error)
     | Inr (config, servers) \<Rightarrow> act_bind (utc_now (gl_tracker G)) (\<lambda>now.
         act_then (act_modify (\<lambda>s. s\<lparr>gw_paths := paths,
             gw_config := \<lparr>rt_config = config, rt_servers = servers, rt_loaded_at = now\<rparr>\<rparr>))
           (act_return (Inr ()))))"

definition config_store_reload :: "'d gateway_libs \<Rightarrow> bool \<Rightarrow> ('z gateway_scheme, unit gw_result) act" where
  "config_store_reload G enforce_strict_security =
     act_bind (act_get (\<lambda>s. read_store G (tr_disk s) (gw_paths s) enforce_strict_security)) (\<lambda>r. case r of
       Inl error \<Rightarrow> act_return (Inl error)
     | Inr (config, servers) \<Rightarrow> act_bind (utc_now (gl_tracker G)) (\<lambda>now.
         act_then (act_modify (\<lambda>s. s\<lparr>gw_config := (gw_config s)\<lparr>rt_config := config,
             rt_servers := servers, rt_loaded_at := now\<rparr>\<rparr>))
           (act_return (Inr ()))))"

subsection \<open>Credentials in the configuration file\<close>

fun index_where :: "('a \<Rightarrow> bool) \<Rightarrow> 'a list \<Rightarrow> nat option" where
  "index_where p [] = None"
| "index_where p (x # xs) = (if p x then Some 0 else map_option Suc (index_where p xs))"

definition load_config_document :: "'d gateway_libs \<Rightarrow> disk \<Rightarrow> path_buf \<Rightarrow> 'd gw_result" where
  "load_config_document G d path =
     bind_res (map_err Io (read_to_string (os_read (gl_os G) d) path)) (\<lambda>content.
       map_err (\<lambda>error. InvalidConfig (''failed to parse config.toml for in-place update: '' @ error))
         (dl_parse (gl_doc G) content))"

definition set_opt :: "('a \<Rightarrow> 'd \<Rightarrow> 'd) \<Rightarrow> 'a option \<Rightarrow> 'd \<Rightarrow> 'd" where
  "set_opt f v d = (case v of None \<Rightarrow> d | Some x \<Rightarrow> f x d)"

definition update_user_record_in_document ::
  "'d doc_lib \<Rightarrow> 'd \<Rightarrow> string \<Rightarrow> string option \<Rightarrow> string option \<Rightarrow> bool option \<Rightarrow> 'd gw_result" where
  "update_user_record_in_document D document username new_password_hash new_totp_secret must_change_password =
     bind_res (ok_or (InvalidConfig ''config.toml is missing [[users]] for credential update'')
       (dl_user_names D document)) (\<lambda>users.
     bind_res (ok_or (InvalidConfig (''user not found in config.toml: '' @ username))
       (index_where (\<lambda>name. name = Some username) users)) (\<lambda>i.
     Inr (set_opt (\<lambda>flag. dl_set_user D i ''must_change_password'' (TomlBool flag)) must_change_password
       (set_opt (\<lambda>secret. dl_set_user D i ''totp_secret'' (TomlString secret)) new_totp_secret
       (set_opt (\<lambda>hash. dl_set_user D i ''password'' (TomlString hash)) new_password_hash document)))))"

definition atomic_write_document :: "'d gateway_libs \<Rightarrow> int \<Rightarrow> path_buf \<Rightarrow> 'd \<Rightarrow> unit disk_prog" where
  "atomic_write_document G now path document =
     atomic_write_bytes (gl_os G) now path (with_final_newline (dl_print (gl_doc G) document))"

definition save_document :: "'d gateway_libs \<Rightarrow> 'd \<Rightarrow> ('z gateway_scheme, unit gw_result) act" where
  \<comment> \<open>the write with its reading of the clock\<close>
  "save_document G document =
     act_bind (act_get (\<lambda>s. ep_config_path (gw_paths s))) (\<lambda>path.
     act_bind (utc_now (gl_tracker G)) (\<lambda>now. on_disk (atomic_write_document G now path document)))"

subsection \<open>Bootstrap passwords\<close>

fun migrate_users ::
  "'d gateway_libs \<Rightarrow> nat \<Rightarrow> 'd \<Rightarrow> user_record list \<Rightarrow> user_record list \<times> nat \<times> ('d \<times> nat) gw_result" where
  \<comment> \<open>the loop: the users as changed so far, the random draws, the document with the count\<close>
  "migrate_users G draws document [] = ([], draws, Inr (document, 0))"
| "migrate_users G draws document (user # users) =
     (if is_hash_format (user_password user) then
        (let (users, draws, r) = migrate_users G draws document users in (user # users, draws, r))
      else (case hash_password (gl_auth G) draws (user_password user) of
          Inl error \<Rightarrow> (user # users, Suc draws, Inl error)
        | Inr new_password_hash \<Rightarrow>
          (case update_user_record_in_document (gl_doc G) document (user_name user)
                  (Some new_password_hash) None (Some True) of
             Inl error \<Rightarrow> (user # users, Suc draws, Inl error)
           | Inr document \<Rightarrow>
              (let (users, draws, r) = migrate_users G (Suc draws) document users in
               (user\<lparr>user_password := new_password_hash, user_must_change_password := True\<rparr> # users,
                draws, bind_res r (\<lambda>(document, changed). Inr (document, Suc changed)))))))"

definition set_users :: "user_record list \<Rightarrow> 'z gateway_scheme \<Rightarrow> 'z gateway_scheme" where
  "set_users users s = s\<lparr>gw_config := (gw_config s)\<lparr>rt_config := (rt_config (gw_config s))\<lparr>cf_users := users\<rparr>\<rparr>\<rparr>"

definition migrate_bootstrap_passwords :: "'d gateway_libs \<Rightarrow> ('z gateway_scheme, nat gw_result) act" where
  "migrate_bootstrap_passwords G =
     act_bind (act_get (\<lambda>s. load_config_document G (tr_disk s) (ep_config_path (gw_paths s)))) (\<lambda>r. case r of
       Inl error \<Rightarrow> act_return (Inl error)
     | Inr document \<Rightarrow>
         act_bind (act_get (\<lambda>s. migrate_users G (gw_draws s) document (gw_users s))) (\<lambda>(users, draws, r).
         act_then (act_modify (\<lambda>s. (set_users users s)\<lparr>gw_draws := draws\<rparr>)) (case r of
           Inl error \<Rightarrow> act_return (Inl error)
         | Inr (document, changed) \<Rightarrow>
             (if 0 < changed then
                act_bind (save_document G document) (\<lambda>r. act_return (bind_res r (\<lambda>_. Inr changed)))
              else act_return (Inr changed)))))"

subsection \<open>Credential updates\<close>

fun update_first :: "('a \<Rightarrow> bool) \<Rightarrow> ('a \<Rightarrow> 'a) \<Rightarrow> 'a list \<Rightarrow> 'a list" where
  \<comment> \<open>\<^verbatim>\<open>iter_mut().find(p)\<close> and a change of what it found\<close>
  "update_first p f [] = []"
| "update_first p f (x # xs) = (if p x then f x # xs else x # update_first p f xs)"

definition new_credentials :: "string option \<Rightarrow> string option \<Rightarrow> bool option \<Rightarrow> user_record \<Rightarrow> user_record" where
  "new_credentials new_password_hash new_totp_secret must_change_password user = user\<lparr>
     user_password := unwrap_or (user_password user) new_password_hash,
     user_totp_secret := or_else new_totp_secret (user_totp_secret user),
     user_must_change_password := unwrap_or (user_must_change_password user) must_change_password\<rparr>"

definition update_user_credentials ::
  "'d gateway_libs \<Rightarrow> string \<Rightarrow> string option \<Rightarrow> string option \<Rightarrow> bool option
   \<Rightarrow> ('z gateway_scheme, unit gw_result) act" where
  "update_user_credentials G username new_password_hash new_totp_secret must_change_password =
     act_bind (act_get (\<lambda>s. find (\<lambda>candidate. user_name candidate = username) (gw_users s))) (\<lambda>found.
     case found of
       None \<Rightarrow> act_return (Inl (InvalidConfig (''user not found: '' @ username)))
     | Some _ \<Rightarrow>
         act_then (act_modify (\<lambda>s. set_users (update_first (\<lambda>candidate. user_name candidate = username)
             (new_credentials new_password_hash new_totp_secret must_change_password) (gw_users s)) s))
          (act_bind (act_get (\<lambda>s. bind_res
              (load_config_document G (tr_disk s) (ep_config_path (gw_paths s)))
              (\<lambda>document. update_user_record_in_document (gl_doc G) document username
                 new_password_hash new_totp_secret must_change_password))) (\<lambda>r. case r of
             Inl error \<Rightarrow> act_return (Inl error)
           | Inr document \<Rightarrow> save_document G document)))"

subsection \<open>Loading is all or nothing\<close>

lemma read_store_ok:
  "read_store G d paths strict = Inr (config, servers) \<longleftrightarrow>
     (\<exists>c. load_config_file G d (ep_config_path paths) = Inr c \<and> config = apply_runtime_overrides c paths)
     \<and> load_servers_file G d (ep_servers_path paths) = Inr servers
     \<and> validate_store_files (gl_os G) d paths strict = Inr ()
     \<and> config_ok (validation_env G d) config servers"
  by (auto simp: read_store_def Let_def validate_semantics_iff)

lemma strict_files:
  "validate_store_files os d paths True = Inr () \<longleftrightarrow>
     (\<forall>p \<in> {ep_config_path paths, ep_servers_path paths, ep_known_hosts_path paths}
        \<union> set_option (ep_whitelist_path paths). validate_file_security os d p mode_600 True = Inr ())
     \<and> validate_directory_security os d (ep_user_key_root paths) mode_700 True = Inr ()"
  by (auto simp: validate_store_files_def validate_optional_file_security_def mode_600_def mode_700_def
      split: option.split)

lemma reload_run:
  "config_store_reload G strict s =
     (case read_store G (tr_disk s) (gw_paths s) strict of
        Inl error \<Rightarrow> (s, Inr (Inl error))
      | Inr (config, servers) \<Rightarrow>
          (s\<lparr>tr_readings := Suc (tr_readings s), gw_config := \<lparr>rt_config = config, rt_servers = servers,
             rt_loaded_at = tl_utc (gl_tracker G) (tr_readings s)\<rparr>\<rparr>, Inr (Inr ())))"
  by (auto simp: config_store_reload_def utc_now_def act_bind_def split: sum.split prod.split)

text \<open>
  A reload either fails and leaves the running gateway exactly as it is, or puts in force
  the parsed files with the command line's overrides, a configuration that validation accepts;
  in strict mode the configuration, the server list, the known hosts and the whitelist were
  then regular files of mode 600 and the key directory one of mode 700, owned by root and
  reached without symbolic links.
\<close>
theorem reload_all_or_nothing:
  assumes "config_store_reload G strict s = (s', Inr r)"
  shows "case r of
      Inl e \<Rightarrow> s' = s
    | Inr _ \<Rightarrow>
       (\<exists>c servers. load_config_file G (tr_disk s) (ep_config_path (gw_paths s)) = Inr c
        \<and> load_servers_file G (tr_disk s) (ep_servers_path (gw_paths s)) = Inr servers
        \<and> s' = s\<lparr>tr_readings := Suc (tr_readings s), gw_config := \<lparr>
             rt_config = apply_runtime_overrides c (gw_paths s), rt_servers = servers,
             rt_loaded_at = tl_utc (gl_tracker G) (tr_readings s)\<rparr>\<rparr>
        \<and> config_ok (validation_env G (tr_disk s)) (apply_runtime_overrides c (gw_paths s)) servers)
       \<and> (strict \<longrightarrow>
           (\<forall>p \<in> {ep_config_path (gw_paths s), ep_servers_path (gw_paths s), ep_known_hosts_path (gw_paths s)}
              \<union> set_option (ep_whitelist_path (gw_paths s)).
              validate_file_security (gl_os G) (tr_disk s) p 384 True = Inr ())
           \<and> validate_directory_security (gl_os G) (tr_disk s) (ep_user_key_root (gw_paths s)) 448 True = Inr ())"
proof (cases "read_store G (tr_disk s) (gw_paths s) strict")
  case (Inl e)
  with assms show ?thesis by (auto simp: reload_run)
next
  case (Inr cs)
  then obtain config servers where cs: "read_store G (tr_disk s) (gw_paths s) strict = Inr (config, servers)"
    by (cases cs) auto
  have files: "strict \<Longrightarrow> validate_store_files (gl_os G) (tr_disk s) (gw_paths s) True = Inr ()"
    using cs by (auto simp: read_store_ok)
  show ?thesis
    using assms cs files strict_files [of "gl_os G" "tr_disk s" "gw_paths s"]
    by (auto simp: reload_run read_store_ok mode_600_def mode_700_def)
qed

subsection \<open>Credential updates\<close>

lemma update_first_names: "(\<And>x. f (g x) = f x) \<Longrightarrow> map f (update_first p g xs) = map f xs"
  by (induction xs) auto

lemma update_first_distinct:
  "distinct (map f xs) \<Longrightarrow> update_first (\<lambda>x. f x = k) g xs = map (\<lambda>x. if f x = k then g x else x) xs"
proof (induction xs)
  case (Cons a xs)
  have "map (\<lambda>x. if f x = k then g x else x) xs = xs" if "f a = k"
  proof -
    from Cons.prems that have "k \<notin> f ` set xs" by auto
    then show ?thesis by (intro map_idI) auto
  qed
  with Cons show ?case by simp
qed simp

lemma new_credentials_name [simp]: "user_name (new_credentials pw totp flag u) = user_name u"
  by (simp add: new_credentials_def)

lemma set_users_simps [simp]:
  "gw_users (set_users us s) = us" "gw_paths (set_users us s) = gw_paths s"
  "tr_disk (set_users us s) = tr_disk s" "tr_core (set_users us s) = tr_core s"
  "tr_audit (set_users us s) = tr_audit s" "tr_readings (set_users us s) = tr_readings s"
  "tr_settings (set_users us s) = tr_settings s" "gw_draws (set_users us s) = gw_draws s"
  "rt_servers (gw_config (set_users us s)) = rt_servers (gw_config s)"
  by (simp_all add: set_users_def)

lemma save_document_run:
  "save_document G document s =
     (let (d, r) = atomic_write_document G (tl_utc (gl_tracker G) (tr_readings s)) (ep_config_path (gw_paths s))
          document (tr_disk s)
      in (s\<lparr>tr_readings := Suc (tr_readings s), tr_disk := d\<rparr>, Inr r))"
  by (simp add: save_document_def utc_now_def act_bind_def on_disk_def split: prod.split)

definition edited_document ::
  "'d gateway_libs \<Rightarrow> disk \<Rightarrow> path_buf \<Rightarrow> string \<Rightarrow> string option \<Rightarrow> string option \<Rightarrow> bool option \<Rightarrow> 'd gw_result" where
  "edited_document G d path username pw totp flag =
     bind_res (load_config_document G d path)
       (\<lambda>document. update_user_record_in_document (gl_doc G) document username pw totp flag)"

lemma update_user_credentials_run:
  "update_user_credentials G username pw totp flag s =
     (if find (\<lambda>u. user_name u = username) (gw_users s) = None
      then (s, Inr (Inl (InvalidConfig (''user not found: '' @ username))))
      else (let s1 = set_users (update_first (\<lambda>u. user_name u = username) (new_credentials pw totp flag) (gw_users s)) s
            in case edited_document G (tr_disk s) (ep_config_path (gw_paths s)) username pw totp flag of
                 Inl error \<Rightarrow> (s1, Inr (Inl error))
               | Inr document \<Rightarrow> save_document G document s1))"
  by (auto simp: update_user_credentials_def edited_document_def Let_def act_then_def act_bind_def
      split: option.split sum.split)

lemma index_where_Some:
  "index_where p xs = Some i \<longleftrightarrow> i < length xs \<and> p (xs ! i) \<and> (\<forall>j<i. \<not> p (xs ! j))"
proof (induction xs arbitrary: i)
  case (Cons x xs)
  then show ?case by (cases i) (auto simp: less_Suc_eq_0_disj nth_Cons')
qed simp

text \<open>
  C22: A successful update of a user's credentials changes that user's record in memory, each
  given field and nothing else of it, and no other user; and the configuration file is then
  the old document with those entries set in the first \<^verbatim>\<open>[[users]]\<close> table of that name,
  written as a whole, with the file's permissions kept.
\<close>
theorem credential_update_correct:
  assumes "os_laws (gl_os G)" and "canonical path" and "path_parent path = Some parent"
    and "path = ep_config_path (gw_paths s)" and "distinct (map user_name (gw_users s))"
    and run: "update_user_credentials G username pw totp flag s = (s', Inr (Inr ()))"
  shows "gw_users s' = map (\<lambda>u. if user_name u = username then new_credentials pw totp flag u else u) (gw_users s)
    \<and> username \<in> user_name ` set (gw_users s)
    \<and> (\<exists>old document i names. load_config_document G (tr_disk s) path = Inr document
         \<and> dl_user_names (gl_doc G) document = Some names \<and> i < length names \<and> names ! i = Some username
         \<and> (\<forall>j<i. names ! j \<noteq> Some username)
         \<and> replaced_by (tr_disk s') path old (with_final_newline (dl_print (gl_doc G)
             (set_opt (\<lambda>b. dl_set_user (gl_doc G) i ''must_change_password'' (TomlBool b)) flag
             (set_opt (\<lambda>t. dl_set_user (gl_doc G) i ''totp_secret'' (TomlString t)) totp
             (set_opt (\<lambda>h. dl_set_user (gl_doc G) i ''password'' (TomlString h)) pw document))))))"
proof -
  let ?now = "tl_utc (gl_tracker G) (tr_readings s)"
  let ?us = "update_first (\<lambda>u. user_name u = username) (new_credentials pw totp flag) (gw_users s)"
  obtain doc where found: "find (\<lambda>u. user_name u = username) (gw_users s) \<noteq> None"
    and doc: "edited_document G (tr_disk s) path username pw totp flag = Inr doc"
    and saved: "save_document G doc (set_users ?us s) = (s', Inr (Inr ()))"
    using run assms(4)
    by (auto simp: update_user_credentials_run Let_def split: if_splits sum.splits)
  obtain d where written: "atomic_write_document G ?now path doc (tr_disk s) = (d, Inr ())"
    and s': "s' = (set_users ?us s)\<lparr>tr_readings := Suc (tr_readings s), tr_disk := d\<rparr>"
    using saved assms(4) by (auto simp: save_document_run split: prod.splits)
  have "\<exists>old. replaced_by d path old (with_final_newline (dl_print (gl_doc G) doc))"
    using replace_file_atomic [OF assms(1-3) written [unfolded atomic_write_document_def atomic_write_bytes_def] refl refl]
    by auto
  moreover have "username \<in> user_name ` set (gw_users s)"
    using found by (auto simp: find_None_iff)
  moreover obtain document names i where "load_config_document G (tr_disk s) path = Inr document"
    "dl_user_names (gl_doc G) document = Some names" "index_where (\<lambda>nm. nm = Some username) names = Some i"
    "doc = set_opt (\<lambda>b. dl_set_user (gl_doc G) i ''must_change_password'' (TomlBool b)) flag
             (set_opt (\<lambda>t. dl_set_user (gl_doc G) i ''totp_secret'' (TomlString t)) totp
             (set_opt (\<lambda>h. dl_set_user (gl_doc G) i ''password'' (TomlString h)) pw document))"
    using doc by (auto simp: edited_document_def update_user_record_in_document_def)
  ultimately show ?thesis
    using s' update_first_distinct [OF assms(5)] by (auto simp: index_where_Some)
qed


subsection \<open>Bootstrap passwords\<close>

definition hashed_from :: "auth_libs \<Rightarrow> user_record \<Rightarrow> user_record \<Rightarrow> bool" where
  \<comment> \<open>a user before and after the migration\<close>
  "hashed_from A u u' \<longleftrightarrow> (if is_hash_format (user_password u) then u' = u
     else \<exists>m h. al_hash A m (user_password u) = Inr h
       \<and> u' = u\<lparr>user_password := h, user_must_change_password := True\<rparr>)"

lemma migrate_users_ok:
  assumes "migrate_users G draws doc us = (us', draws', Inr (doc', n))"
  shows "n = length (filter (\<lambda>u. \<not> is_hash_format (user_password u)) us)
    \<and> list_all2 (hashed_from (gl_auth G)) us us'"
  using assms
proof (induction us arbitrary: draws doc us' n)
  case (Cons u us)
  show ?case
  proof (cases "is_hash_format (user_password u)")
    case True
    with Cons.prems obtain us1 where "migrate_users G draws doc us = (us1, draws', Inr (doc', n))" "us' = u # us1"
      by (auto split: prod.splits)
    then show ?thesis using Cons.IH True by (simp add: hashed_from_def)
  next
    case False
    with Cons.prems obtain h doc1 us1 r where step: "al_hash (gl_auth G) draws (user_password u) = Inr h"
      "migrate_users G (Suc draws) doc1 us = (us1, draws', r)"
      "us' = u\<lparr>user_password := h, user_must_change_password := True\<rparr> # us1"
      "bind_res r (\<lambda>(document, changed). Inr (document, Suc changed)) = Inr (doc', n)"
      by (auto simp: hash_password_def split: prod.splits sum.splits)
    then obtain m where "r = Inr (doc', m)" "n = Suc m" by auto
    then show ?thesis
      using Cons.IH [of "Suc draws" doc1 us1 m] step False by (auto simp: hashed_from_def)
  qed
qed simp

text \<open>
  A successful migration leaves no password in the clear: every password in memory is in
  the Argon2id format, exactly the passwords that were not are replaced by their hash, their
  owners must change it, nothing else of any user changes, and the number reported is the
  number of passwords replaced; with nothing to replace the file is not touched.
\<close>
theorem migration_hashes_all:
  assumes hash: "\<forall>n pw h. al_hash (gl_auth G) n pw = Inr h \<longrightarrow> is_hash_format h"
    and run: "migrate_bootstrap_passwords G s = (s', Inr (Inr n))"
  shows "n = length (filter (\<lambda>u. \<not> is_hash_format (user_password u)) (gw_users s))
    \<and> list_all2 (\<lambda>u u'. if is_hash_format (user_password u) then u' = u
        else \<exists>m h. al_hash (gl_auth G) m (user_password u) = Inr h
          \<and> u' = u\<lparr>user_password := h, user_must_change_password := True\<rparr>) (gw_users s) (gw_users s')
    \<and> (\<forall>u\<in>set (gw_users s'). is_hash_format (user_password u))
    \<and> (n = 0 \<longrightarrow> tr_disk s' = tr_disk s)"
proof -
  obtain doc us draws doc' where load: "load_config_document G (tr_disk s) (ep_config_path (gw_paths s)) = Inr doc"
    and us: "migrate_users G (gw_draws s) doc (gw_users s) = (us, draws, Inr (doc', n))"
    and rest: "(if 0 < n then act_bind (save_document G doc') (\<lambda>r. act_return (bind_res r (\<lambda>_. Inr n)))
        else act_return (Inr n)) ((set_users us s)\<lparr>gw_draws := draws\<rparr>) = (s', Inr (Inr n))"
    using run
    by (auto simp: migrate_bootstrap_passwords_def act_then_def act_bind_def [of "act_get _"] act_bind_def [of "act_modify _"]
        save_document_run act_bind_def Let_def split: sum.splits prod.splits if_splits)
  have users: "gw_users s' = us" "n = 0 \<longrightarrow> tr_disk s' = tr_disk s"
    using rest by (auto simp: act_bind_def save_document_run Let_def set_users_def split: if_splits prod.splits)
  note all = migrate_users_ok [OF us]
  have "is_hash_format (user_password u')" if "hashed_from (gl_auth G) u u'" for u u'
    using that hash by (auto simp: hashed_from_def split: if_splits)
  then have "\<forall>u\<in>set us. is_hash_format (user_password u)"
    using all by (metis list_all2_conv_all_nth in_set_conv_nth)
  with all users show ?thesis by (simp add: hashed_from_def [abs_def])
qed

subsection \<open>Instances\<close>

definition sample_doc_lib :: "string doc_lib" where
  \<comment> \<open>an instance of the parameters, for the witnesses: a document is its text, one user\<close>
  "sample_doc_lib = \<lparr>dl_parse = Inr, dl_print = id, dl_user_names = (\<lambda>_. Some [Some ''bob'']),
     dl_set_user = (\<lambda>i key v d. d @ key)\<rparr>"

definition sample_gateway_libs :: "string gateway_libs" where
  "sample_gateway_libs = \<lparr>gl_tracker = sample_tracker_libs, gl_kex = documented_as_ref, gl_auth = sample_auth,
     gl_instant = (\<lambda>n. n), gl_dummy_hash = ''$argon2id$dummy'', gl_parse_config = (\<lambda>_. Inr sample_config),
     gl_parse_servers = (\<lambda>_. Inr sample_servers), gl_doc = sample_doc_lib, gl_var = (\<lambda>_. None),
     gl_qr = (\<lambda>_. Inr (1, [True]))\<rparr>"

definition sample_paths :: effective_paths where
  "sample_paths = \<lparr>ep_config_path = ''/c'', ep_servers_path = ''/c'', ep_known_hosts_path = ''/c'',
     ep_user_key_root = ''/k'', ep_audit_log_path = ''/a'', ep_whitelist_path = None,
     ep_per_user_per_server = True, ep_drop_to_menu = False, ep_hide_proxy_ip = False\<rparr>"

definition root_file :: "string \<Rightarrow> file_node" where
  "root_file content = \<lparr>node_kind = RegularFile, node_mode = mode_600, node_uid = 0, node_gid = 0,
     node_content = content\<rparr>"

definition sample_disk :: disk where
  "sample_disk = [''/c'' \<mapsto> root_file ''doc'', ''/k'' \<mapsto> (root_file [])\<lparr>node_kind := Directory, node_mode := mode_700\<rparr>]"

definition sample_gateway :: gateway where
  "sample_gateway = \<lparr>tr_settings = strict_settings\<lparr>fs_persist_state := False\<rparr>, tr_core = [], tr_audit = [],
     tr_disk = sample_disk, tr_readings = 0,
     gw_config = \<lparr>rt_config = apply_runtime_overrides sample_config sample_paths, rt_servers = sample_servers,
       rt_loaded_at = 0\<rparr>,
     gw_paths = sample_paths, gw_limiter = \<lparr>rl_rate_limits = [], rl_ip_rate_limits = []\<rparr>,
     gw_instants = 0, gw_draws = 0, gw_ticks = 0\<rparr>"

lemma sample_gateway_simps [simp]:
  "gl_tracker sample_gateway_libs = sample_tracker_libs" "gl_auth sample_gateway_libs = sample_auth"
  "gl_doc sample_gateway_libs = sample_doc_lib" "gl_dummy_hash sample_gateway_libs = ''$argon2id$dummy''"
  "gl_parse_config sample_gateway_libs = (\<lambda>_. Inr sample_config)"
  "gl_parse_servers sample_gateway_libs = (\<lambda>_. Inr sample_servers)"
  "gl_kex sample_gateway_libs = documented_as_ref"
  "tr_disk sample_gateway = sample_disk" "gw_paths sample_gateway = sample_paths"
  "gw_users sample_gateway = [sample_user]" "tr_readings sample_gateway = 0" "gw_draws sample_gateway = 0"
  by (simp_all add: sample_gateway_libs_def sample_gateway_def sample_config_def)

lemma sample_store_paths:
  "path_components ''/c'' = [RootDir, Normal ''c'']" "path_components ''/k'' = [RootDir, Normal ''k'']"
  by code_simp+

lemma sample_store_path_facts: "canonical ''/c''" "path_parent ''/c'' = Some ''/''"
  by (simp_all add: sample_store_paths canonical_def path_of_def path_push_def path_parent_def starts_with_def)

lemma sample_nodes:
  "os_symlink_metadata sample_os = node_or_missing" "os_metadata sample_os = node_or_missing"
  "node_or_missing sample_disk ''/'' = Inl (IoNotFound ''not found'')"
  "node_or_missing sample_disk ''/c'' = Inr (root_file ''doc'')"
  "node_or_missing sample_disk ''/k'' = Inr ((root_file [])\<lparr>node_kind := Directory, node_mode := mode_700\<rparr>)"
  by (simp_all add: sample_os_def node_or_missing_def sample_disk_def)

lemma sample_store_links:
  "validate_path_has_no_symlinks sample_os sample_disk ''/c'' = Inr ()"
  "validate_path_has_no_symlinks sample_os sample_disk ''/k'' = Inr ()"
  by (simp_all add: validate_path_has_no_symlinks_def sample_store_paths symlink_step_def path_push_def
      starts_with_def sample_nodes Let_def root_file_def)

lemma sample_store_files: "validate_store_files sample_os sample_disk sample_paths True = Inr ()"
proof -
  have "mode_bits mode_600 = mode_600" "mode_bits mode_700 = mode_700"
    by (simp_all add: mode_bits_def mode_600_def mode_700_def)
  then show ?thesis
    by (simp add: strict_files sample_paths_def validate_file_security_def validate_directory_security_def
        sample_store_links sample_nodes validate_mode_and_owner_def root_file_def)
qed

lemma sample_config_valid:
  "config_ok (validation_env sample_gateway_libs sample_disk) (apply_runtime_overrides sample_config sample_paths) sample_servers"
proof -
  have "user_ok sample_auth sample_servers sample_user" "policies_ok sample_config sample_servers"
    "cf_kex_policy sample_config = default_kex_policy" "cf_fail2ban sample_config = None"
    "cf_users sample_config = [sample_user]" "validate_kex_policy documented_as_ref default_kex_policy = Inr ()"
    "sc_min_password_policy (cf_settings sample_config) = None"
    "\<forall>(nm, host)\<in>set sample_servers. name_ok nm \<and> is_valid_host_or_ip host"
    using sample_config_ok by (simp_all add: config_ok_def sample_env_def sample_config_def)
  moreover have "policies_ok (apply_runtime_overrides sample_config sample_paths) sample_servers
      = policies_ok sample_config sample_servers"
    by (simp add: policies_ok_def apply_runtime_overrides_def sample_paths_def) (simp add: sample_config_def)
  ultimately show ?thesis
    by (simp add: config_ok_def validation_env_def) (simp add: sample_servers_def)
qed

lemma sample_read: "os_read sample_os sample_disk ''/c'' = Inr ''doc''"
  by (simp add: sample_os_def node_or_missing_def sample_disk_def root_file_def)

lemma reload_all_or_nothing_witness:
  "\<exists>s'. config_store_reload sample_gateway_libs True sample_gateway = (s', Inr (Inr ()))
     \<and> rt_servers (gw_config s') = sample_servers"
proof -
  have "read_store sample_gateway_libs sample_disk sample_paths True
      = Inr (apply_runtime_overrides sample_config sample_paths, sample_servers)"
    using sample_store_files sample_config_valid sample_read
    by (simp add: read_store_ok load_config_file_def load_servers_file_def)
      (simp add: sample_paths_def)
  then obtain s' where "config_store_reload sample_gateway_libs True sample_gateway = (s', Inr (Inr ()))"
    by (simp add: reload_run)
  with reload_all_or_nothing [OF this] sample_read show ?thesis
    by (auto simp: load_servers_file_def sample_paths_def)
qed

lemma sample_document: "load_config_document sample_gateway_libs sample_disk ''/c'' = Inr ''doc''"
proof -
  have "from_utf8 ''doc'' = Some ''doc''" by code_simp
  then show ?thesis
    by (simp add: load_config_document_def read_to_string_def sample_read sample_doc_lib_def)
qed

lemma sample_document_write:
  "\<exists>d. atomic_write_bytes sample_os 7 ''/c'' bytes sample_disk = (d, Inr ())"
proof -
  have "show_nat 42 = ''42''" "show_nat 7 = ''7''" by code_simp+
  then have t: "temp_path_of sample_os 7 ''centralssh'' ''/'' ''/c'' = ''/.c.tmp.42.7''"
    by (simp add: temp_path_of_def path_file_name_def sample_store_paths timestamp_nanos_def show_int_def
        path_push_def starts_with_def sample_os_def)
  have valid: "CHR 0x00 \<notin> set (from_utf8_lossy ''/.c.tmp.42.7'')" by code_simp
  have "sample_disk ''/.c.tmp.42.7'' = None" "sample_disk ''/c'' = Some (root_file ''doc'')"
    by (simp_all add: sample_disk_def)
  with valid have install: "\<exists>d. install_file sample_os ''/'' ''/c'' ''/.c.tmp.42.7'' (Some (root_file ''doc'')) bytes sample_disk = (d, Inr ())"
    by (simp add: install_file_def keep_owner_def fsync_parent_def prog_bind_def prog_call_def
        prog_return_def sample_os_def change_node_def)
  have "validate_path_has_no_symlinks sample_os sample_disk ''/'' = Inr ()"
    "os_create_dir_all sample_os p d = (d, Inr ())" for p d
    by (simp_all add: validate_path_has_no_symlinks_def symlink_step_def path_push_def saved_path sample_nodes)
      (simp add: sample_os_def)
  with install show ?thesis
    by (simp add: atomic_write_bytes_def replace_file_def sample_nodes sample_store_path_facts t
        prog_bind_def prog_call_def prog_return_def Let_def)
      (simp add: root_file_def)
qed

lemma sample_save:
  assumes "tr_disk s = sample_disk" "tr_readings s = 0" "gw_paths s = sample_paths"
  shows "\<exists>s'. save_document sample_gateway_libs document s = (s', Inr (Inr ()))"
proof -
  obtain d where "atomic_write_bytes sample_os 7 ''/c'' (with_final_newline document) sample_disk = (d, Inr ())"
    using sample_document_write by blast
  then show ?thesis
    using assms by (simp add: save_document_run atomic_write_document_def sample_paths_def sample_doc_lib_def)
qed

lemma sample_update:
  "\<exists>s'. update_user_credentials sample_gateway_libs ''bob'' (Some ''$argon2id$new'') None (Some False) sample_gateway
     = (s', Inr (Inr ()))"
proof -
  have "edited_document sample_gateway_libs sample_disk ''/c'' ''bob'' pw totp flag \<noteq> Inl e" for pw totp flag e
    by (simp add: edited_document_def sample_document update_user_record_in_document_def)
      (simp add: sample_doc_lib_def)
  then obtain doc where "edited_document sample_gateway_libs sample_disk ''/c'' ''bob'' (Some ''$argon2id$new'') None (Some False) = Inr doc"
    by (meson sum.exhaust)
  moreover have "ep_config_path sample_paths = ''/c''" "user_name sample_user = ''bob''"
    by (simp_all add: sample_paths_def sample_user_def)
  ultimately show ?thesis
    using sample_save [of "set_users (update_first (\<lambda>u. user_name u = ''bob'')
        (new_credentials (Some ''$argon2id$new'') None (Some False)) (gw_users sample_gateway)) sample_gateway" doc]
    by (simp add: update_user_credentials_run Let_def)
qed

lemma credential_update_correct_witness:
  "\<exists>s'. update_user_credentials sample_gateway_libs ''bob'' (Some ''$argon2id$new'') None (Some False) sample_gateway
     = (s', Inr (Inr ())) \<and> map user_password (gw_users s') = [''$argon2id$new'']"
proof -
  obtain s' where s': "update_user_credentials sample_gateway_libs ''bob'' (Some ''$argon2id$new'') None (Some False) sample_gateway = (s', Inr (Inr ()))"
    using sample_update by blast
  from credential_update_correct [OF _ sample_store_path_facts _ _ s'] sample_os_laws
  show ?thesis using s' by (simp add: sample_paths_def sample_user_def new_credentials_def)
qed


lemma migration_hashes_all_witness:
  "\<exists>s'. migrate_bootstrap_passwords sample_gateway_libs
      (set_users [sample_user\<lparr>user_password := ''pw''\<rparr>] sample_gateway) = (s', Inr (Inr 1))
     \<and> (\<forall>u\<in>set (gw_users s'). is_hash_format (user_password u))"
proof -
  let ?s = "set_users [sample_user\<lparr>user_password := ''pw''\<rparr>] sample_gateway"
  have users: "migrate_users sample_gateway_libs 0 ''doc'' [sample_user\<lparr>user_password := ''pw''\<rparr>]
    = ([sample_user\<lparr>user_password := ''$argon2id$pw'', user_must_change_password := True\<rparr>], 1,
       Inr (''docpasswordmust_change_password'', 1))"
    by (simp add: is_hash_format_def starts_with_def hash_password_def sample_auth_def
        update_user_record_in_document_def sample_doc_lib_def sample_user_def set_opt_def)
  obtain s' where run: "migrate_bootstrap_passwords sample_gateway_libs ?s = (s', Inr (Inr 1))"
  proof -
    have "ep_config_path sample_paths = ''/c''" by (simp add: sample_paths_def)
    then show thesis
      using that users sample_document sample_save [of "(set_users [sample_user\<lparr>user_password := ''$argon2id$pw'',
          user_must_change_password := True\<rparr>] ?s)\<lparr>gw_draws := 1\<rparr>" "''docpasswordmust_change_password''"]
      by (auto simp: migrate_bootstrap_passwords_def act_then_def act_bind_def simp del: migrate_users.simps)
  qed
  have "\<forall>n pw h. al_hash (gl_auth sample_gateway_libs) n pw = Inr h \<longrightarrow> is_hash_format h"
    by (simp add: sample_auth_def is_hash_format_def starts_with_def)
  from migration_hashes_all [OF this run] run show ?thesis by blast
qed

end
