(* ===== verification/Scp_Policy.thy ===== *)
theory Scp_Policy
  imports Config_Types
begin

text \<open>
  The request policy of a session (\<^verbatim>\<open>src/src/ssh/mod.rs\<close>): which forwarding, subsystem and
  exec requests a policy permits, the recognition of legacy SCP commands and the shell-like
  word splitting it uses.  Characters are UTF-8 sequences.
\<close>

definition local_forwarding_permitted :: "effective_authorization_policy \<Rightarrow> bool" where
  "local_forwarding_permitted policy = eff_allow_local_forwarding policy"

definition remote_forwarding_permitted :: "effective_authorization_policy \<Rightarrow> bool" where
  "remote_forwarding_permitted policy = eff_allow_remote_forwarding policy"

definition subsystem_request_permitted :: "effective_authorization_policy \<Rightarrow> string \<Rightarrow> bool" where
  "subsystem_request_permitted policy nm \<longleftrightarrow> nm \<noteq> ''sftp'' \<or> eff_allow_sftp policy"

subsection \<open>Word splitting\<close>

definition single_quote :: string where "single_quote = [CHR 39]"
definition double_quote :: string where "double_quote = [CHR 34]"
definition backslash :: string where "backslash = [CHR 92]"

fun split_loop :: "string list \<Rightarrow> string list \<Rightarrow> string \<Rightarrow> bool \<Rightarrow> bool \<Rightarrow> string list option" where
  \<comment> \<open>the characters left, the tokens, the current token, inside single or double quotes\<close>
  "split_loop [] tokens current in_single in_double =
     (if in_single \<or> in_double then None
      else Some (if current = [] then tokens else tokens @ [current]))"
| "split_loop (ch # chs) tokens current in_single in_double =
     (if ch = single_quote \<and> \<not> in_double then split_loop chs tokens current (\<not> in_single) in_double
      else if ch = double_quote \<and> \<not> in_single then split_loop chs tokens current in_single (\<not> in_double)
      else if ch = backslash \<and> \<not> in_single then
        (case chs of [] \<Rightarrow> None
         | escaped # rest \<Rightarrow> split_loop rest tokens (current @ escaped) in_single in_double)
      else if is_whitespace ch \<and> \<not> in_single \<and> \<not> in_double then
        (if current = [] then split_loop chs tokens [] in_single in_double
         else split_loop chs (tokens @ [current]) [] in_single in_double)
      else split_loop chs tokens (current @ ch) in_single in_double)"

definition shell_like_split :: "string \<Rightarrow> string list option" where
  "shell_like_split command = split_loop (chars command) [] [] False False"

subsection \<open>Recognising SCP\<close>

definition flag_mode :: "string \<Rightarrow> string option" where
  \<comment> \<open>what one flag character says\<close>
  "flag_mode flag = (if flag = ''t'' then Some ''sink'' else if flag = ''f'' then Some ''source'' else None)"

fun first_mode :: "string list \<Rightarrow> string option" where
  "first_mode [] = None"
| "first_mode (flag # flags) = (case flag_mode flag of Some m \<Rightarrow> Some m | None \<Rightarrow> first_mode flags)"

fun scan_tokens :: "string list \<Rightarrow> string option" where
  "scan_tokens [] = None"
| "scan_tokens (token # tokens) =
     (if token = ''--'' then None
      else if \<not> starts_with token ''-'' \<or> token = ''-'' then scan_tokens tokens
      else if length token = 2 then
        (if token ! 1 = CHR ''t'' then Some ''sink''
         else if token ! 1 = CHR ''f'' then Some ''source''
         else scan_tokens tokens)
      else (case first_mode (chars (drop 1 token)) of
              Some m \<Rightarrow> Some m | None \<Rightarrow> scan_tokens tokens))"

definition classify_scp_exec_request :: "string \<Rightarrow> string option" where
  "classify_scp_exec_request data =
     (case from_utf8 data of
        None \<Rightarrow> None
      | Some text \<Rightarrow>
        (let command = trim text in
         if command = [] then None
         else (case shell_like_split command of
             None \<Rightarrow> None
           | Some [] \<Rightarrow> None
           | Some (executable # args) \<Rightarrow>
               if last (split_on CHR ''/'' executable) \<noteq> ''scp'' then None
               else scan_tokens args)))"

definition validate_exec_request :: "effective_authorization_policy \<Rightarrow> string \<Rightarrow> (string, unit) result" where
  "validate_exec_request policy data =
     (if \<not> eff_allow_scp policy then
        (case classify_scp_exec_request data of Some mode \<Rightarrow> Inl mode | None \<Rightarrow> Inr ())
      else Inr ())"

subsection \<open>What is recognised\<close>

definition option_flags :: "string list \<Rightarrow> string list" where
  \<comment> \<open>the flag characters of the arguments before a double dash, in order\<close>
  "option_flags args = concat (map (\<lambda>a. chars (drop 1 a))
     (filter (\<lambda>a. starts_with a ''-'') (takeWhile (\<lambda>a. a \<noteq> ''--'') args)))"

lemma first_mode_append: "first_mode (xs @ ys) = (case first_mode xs of Some m \<Rightarrow> Some m | None \<Rightarrow> first_mode ys)"
  by (induction xs) (auto split: option.split)

lemma chars_single: "chars [c] = [[c]]"
proof -
  obtain ok n where n: "utf8_step [c] = (ok, n)" by fastforce
  then have "0 < n" using utf8_step_pos [of "[c]"] by simp
  then have "take n [c] = [c]" "drop n [c] = []" by (simp_all add: take_Cons' drop_Cons')
  then show ?thesis by (simp add: chars_def n)
qed

lemma scan_tokens_flags: "scan_tokens args = first_mode (option_flags args)"
proof (induction args)
  case (Cons a args)
  show ?case
  proof (cases "a = ''--'' \<or> \<not> starts_with a ''-'' \<or> a = ''-''")
    case True
    with Cons show ?thesis
      by (auto simp: option_flags_def chars_def)
  next
    case False
    then obtain r where r: "a = CHR ''-'' # r" "r \<noteq> []" by (cases a) auto
    have flags: "option_flags (a # args) = chars r @ option_flags args"
      using False r by (simp add: option_flags_def)
    show ?thesis
    proof (cases "length a = 2")
      case True
      then obtain c where "r = [c]" using r by (cases r) auto
      with False r flags Cons show ?thesis
        by (simp add: chars_single flag_mode_def split: option.split)
    next
      case long: False
      with False r flags Cons show ?thesis
        by (simp add: first_mode_append split: option.split)
    qed
  qed
qed (simp add: option_flags_def)

text \<open>
  C39: An exec request is recognised as legacy SCP exactly if it is UTF-8, splits into words
  whose first has the base name \<^verbatim>\<open>scp\<close>, and some option word before a double dash has the flag
  t or f; the first such flag, in combined or separate form, decides between sink and source.
  With SCP denied exactly these requests are refused, and with SCP allowed none is.
\<close>
theorem scp_requests_recognised:
  "validate_exec_request policy data = Inl mode \<longleftrightarrow> \<not> eff_allow_scp policy
     \<and> (\<exists>executable args. from_utf8 data = Some data \<and> trim data \<noteq> []
          \<and> shell_like_split (trim data) = Some (executable # args)
          \<and> last (split_on CHR ''/'' executable) = ''scp''
          \<and> first_mode (option_flags args) = Some mode)"
  by (auto simp: validate_exec_request_def classify_scp_exec_request_def Let_def scan_tokens_flags
      dest: from_utf8_SomeD split: option.splits list.splits if_splits)

subsection \<open>Quoted words\<close>

definition quotable :: "string \<Rightarrow> bool" where
  "quotable w \<longleftrightarrow> w \<noteq> [] \<and> is_ascii w \<and> CHR 39 \<notin> set w"

definition quote_words :: "string list \<Rightarrow> string" where
  "quote_words ws = join_with '' '' (map sq ws)"

lemma split_loop_quoted:
  assumes "CHR 39 \<notin> set w"
  shows "split_loop (map (\<lambda>c. [c]) w @ rest) tokens current True False
    = split_loop rest tokens (current @ w) True False"
  using assms by (induction w arbitrary: current) (auto simp: single_quote_def double_quote_def backslash_def)

lemma split_loop_word:
  assumes "quotable w"
  shows "split_loop (map (\<lambda>c. [c]) (sq w) @ rest) tokens [] False False
    = split_loop rest tokens w False False"
  using assms split_loop_quoted [of w "[single_quote] @ rest" tokens "[]"]
  by (simp add: quotable_def sq_def single_quote_def double_quote_def)

lemma split_loop_space:
  "w \<noteq> [] \<Longrightarrow> split_loop ([CHR '' ''] # rest) tokens w False False = split_loop rest (tokens @ [w]) [] False False"
  by (simp add: single_quote_def double_quote_def backslash_def is_whitespace_single byte_val_def)

lemma quote_words_split:
  "\<forall>w\<in>set ws. quotable w \<Longrightarrow>
     split_loop (map (\<lambda>c. [c]) (quote_words ws)) tokens [] False False = Some (tokens @ ws)"
proof (induction ws arbitrary: tokens)
  case (Cons w ws)
  show ?case
  proof (cases ws)
    case Nil
    with Cons.prems split_loop_word [of w "[]" tokens] show ?thesis
      by (simp add: quote_words_def quotable_def)
  next
    case (Cons v vs)
    then have "quote_words (w # ws) = sq w @ '' '' @ quote_words ws" by (simp add: quote_words_def)
    then have "map (\<lambda>c. [c]) (quote_words (w # ws))
        = map (\<lambda>c. [c]) (sq w) @ [CHR '' ''] # map (\<lambda>c. [c]) (quote_words ws)" by simp
    moreover have "quotable w" "w \<noteq> []" using Cons.prems by (simp_all add: quotable_def)
    ultimately show ?thesis
      using Cons.IH [of "tokens @ [w]"] Cons.prems
      by (simp only: split_loop_word split_loop_space list.set ball_simps append.assoc append.simps simp_thms)
  qed
qed (simp add: quote_words_def)

lemma quote_words_ascii: "\<forall>w\<in>set ws. quotable w \<Longrightarrow> is_ascii (quote_words ws)"
proof (induction ws rule: induct_list012)
  case (2 w)
  then show ?case by (simp add: quote_words_def quotable_def sq_def byte_val_def)
next
  case (3 v w ws)
  then show ?case by (simp add: quote_words_def quotable_def sq_def byte_val_def)
qed (simp add: quote_words_def)

text \<open>
  Word splitting undoes quoting: any list of non-empty ASCII words without single quotes,
  each put in single quotes and joined by blanks, splits into exactly these words, whatever
  blanks, backslashes and double quotes they contain.
\<close>
theorem shell_split_unquotes:
  assumes "\<forall>w\<in>set ws. quotable w"
  shows "shell_like_split (quote_words ws) = Some ws"
  using quote_words_split [OF assms, of "[]"] quote_words_ascii [OF assms]
  by (simp add: shell_like_split_def chars_ascii)

lemma shell_split_unquotes_witness:
  "shell_like_split (quote_words [''scp'', ''-t'', ''a b'']) = Some [''scp'', ''-t'', ''a b'']"
  by (rule shell_split_unquotes) (simp add: quotable_def byte_val_def)



end
