(* ===== verification/Session_State.thy ===== *)
theory Session_State
  imports Config_Store Scp_Policy
begin

text \<open>
  The state of one client connection (\<^verbatim>\<open>GatewayHandler\<close> in \<^verbatim>\<open>src/src/ssh/mod.rs\<close> and the types
  of \<^verbatim>\<open>src/src/ssh/proxy.rs\<close> it holds), as an extension of the gateway's state, and the
  handler's audit events.  What the handler sends to the client is the list \<^verbatim>\<open>gh_sent\<close>; a
  handler call runs to its end before the next event.
\<close>

subsection \<open>Types\<close>

record selected_target =
  st_name :: string
  st_host :: string

record pending_auth_context =
  pa_user :: user_record
  pa_new_password_hash :: "string option"
  pa_login_password :: "string option"

record password_policy_config =
  pp_enforce :: bool
  pp_min_length :: nat

datatype keyboard_auth_state =
    AwaitPassword string
  | AwaitExistingTotp string string
  | AwaitNewPassword pending_auth_context password_policy_config
  | AwaitConfirmPassword pending_auth_context password_policy_config string
  | AwaitEnrollmentTotp pending_auth_context string
  | AwaitSelection pending_auth_context

type_synonym channel_id = nat

record channel_pty_state =
  pty_term :: string
  pty_col_width :: nat
  pty_row_height :: nat
  pty_pix_width :: nat
  pty_pix_height :: nat
  pty_terminal_modes :: "(nat \<times> nat) list"   \<comment> \<open>opcodes and arguments\<close>

datatype session_request = NoRequest | ShellRequest | ExecRequest string | SubsystemRequest string

datatype menu_escape_state = EscNone | SawEscape | SawCsi

record session_channel_state =
  cs_pty :: "channel_pty_state option"
  cs_request :: session_request
  cs_menu_active :: bool
  cs_input_buffer :: string
  cs_menu_escape_state :: menu_escape_state

definition default_channel_state :: session_channel_state where
  "default_channel_state = \<lparr>cs_pty = None, cs_request = NoRequest, cs_menu_active = False,
     cs_input_buffer = [], cs_menu_escape_state = EscNone\<rparr>"

text \<open>Messages to the client: the calls of \<^verbatim>\<open>russh::server::Session\<close> and its handle.\<close>

datatype client_msg =
    ToData channel_id string
  | ToExtendedData channel_id nat string
  | ToEof channel_id
  | ToClose channel_id
  | ToSuccess channel_id
  | ToFailure channel_id
  | ToXonXoff channel_id bool
  | ToExitStatus channel_id nat
  | ToExitSignal channel_id string bool string string
  | ToDisconnect string

text \<open>The proxied connection: its channel tables, and what it sends to the target.\<close>

record proxy_session =
  px_handle :: nat                                     \<comment> \<open>which connection to a target this is\<close>
  px_username :: string
  px_target_server :: string
  px_session_channels :: "(channel_id, nat) hash_map"  \<comment> \<open>client channel to target channel\<close>
  px_raw_channels :: "(channel_id, nat) hash_map"
  px_last_error :: "string option"
  px_drop_to_menu :: bool

record session = gateway +
  gh_peer_ip :: ip_addr
  gh_peer_port :: "16 word option"
  gh_session_id :: string
  gh_keyboard_auth_state :: "keyboard_auth_state option"
  gh_authenticated_username :: "string option"
  gh_pending_target :: "selected_target option"
  gh_active_policy :: "effective_authorization_policy option"
  gh_proxy_session :: "proxy_session option"
  gh_channel_state :: "(channel_id, session_channel_state) hash_map"
  gh_connection_logged :: bool
  gh_sent :: "client_msg list"

definition new_client :: "gateway \<Rightarrow> (ip_addr \<times> 16 word) option \<Rightarrow> string \<Rightarrow> session" where
  "new_client gw peer_addr uuid = gateway.extend gw
     (session.fields
       (case peer_addr of Some (ip, _) \<Rightarrow> ip | None \<Rightarrow> V4 [0, 0, 0, 0])
       (map_option snd peer_addr)
       uuid None None None None None [] False [])"

subsection \<open>Audit events of a session\<close>

definition session_event ::
  "'z session_scheme \<Rightarrow> int \<Rightarrow> string \<Rightarrow> string option \<Rightarrow> string option \<Rightarrow> string option \<Rightarrow> audit_result
   \<Rightarrow> string option \<Rightarrow> duration option \<Rightarrow> int option \<Rightarrow> audit_event" where
  "session_event s now event_type username target_server auth_method result reason ban_duration ban_until = \<lparr>
     ev_timestamp = now, ev_event_type = event_type, ev_request_id = gh_session_id s,
     ev_remote_ip = Some (display_ip (gh_peer_ip s)), ev_remote_port = gh_peer_port s,
     ev_username = username, ev_target_server = target_server, ev_auth_method = auth_method,
     ev_result = result, ev_reason = reason,
     ev_ban_duration_seconds = map_option (\<lambda>d. d div nanos_per_sec) ban_duration,
     ev_ban_until = ban_until, ev_request_type = None, ev_request_detail = None,
     ev_transport_side = None, ev_kex_algorithm = None, ev_kex_algorithms_offered = None,
     ev_post_quantum = None, ev_hybrid = None, ev_classical_fallback = None, ev_pq_required = None\<rparr>"

definition log_event ::
  "'d gateway_libs \<Rightarrow> string \<Rightarrow> string option \<Rightarrow> string option \<Rightarrow> string option \<Rightarrow> audit_result
   \<Rightarrow> string option \<Rightarrow> duration option \<Rightarrow> int option \<Rightarrow> ('z session_scheme, unit) act" where
  "log_event G event_type username target_server auth_method result reason ban_duration ban_until =
     act_bind (utc_now (gl_tracker G)) (\<lambda>now.
     act_bind (act_get (\<lambda>s. session_event s now event_type username target_server auth_method result
       reason ban_duration ban_until)) audit_log)"

definition log_connection_opened_once :: "'d gateway_libs \<Rightarrow> ('z session_scheme, unit) act" where
  "log_connection_opened_once G =
     act_bind (act_get gh_connection_logged) (\<lambda>logged.
       if logged then act_return ()
       else act_then (act_modify (\<lambda>s. s\<lparr>gh_connection_logged := True\<rparr>))
         (log_event G ''connection_opened'' None None None AuditSuccess None None None))"

definition log_ban_event :: "'d gateway_libs \<Rightarrow> ban_event \<Rightarrow> ('z session_scheme, unit) act" where
  "log_ban_event G b =
     log_event G (case be_kind b of BanCreated \<Rightarrow> ''ban_created'' | BanExtended \<Rightarrow> ''ban_extended'')
       None None None AuditBanned (Some ''fail2ban threshold reached'')
       (Some (be_ban_duration b)) (Some (be_ban_until b))"

definition apply_failure_outcome ::
  "'d gateway_libs \<Rightarrow> failure_outcome \<Rightarrow> string option \<Rightarrow> string option \<Rightarrow> string option
   \<Rightarrow> ('z session_scheme, unit) act" where
  \<comment> \<open>the delay itself only lets time pass\<close>
  "apply_failure_outcome G outcome username target_server auth_method =
     (if fo_whitelisted outcome then
        log_event G ''whitelist_bypass'' username target_server auth_method AuditSuccess
          (Some ''fail2ban bypassed for whitelisted IP'') None None
      else
        act_then (case fo_delay outcome of
            None \<Rightarrow> act_return ()
          | Some delay \<Rightarrow> log_event G ''rate_limit_delay_applied'' username target_server auth_method
              AuditDelayed (Some ''pre-ban tarpit delay applied'') (Some delay) None)
         (case fo_ban_event outcome of
            None \<Rightarrow> act_return ()
          | Some b \<Rightarrow> log_ban_event G b))"

subsection \<open>Lifting results\<close>

definition act_io :: "'a gw_result \<Rightarrow> ('s, 'a) act" where
  \<comment> \<open>\<^verbatim>\<open>map_err(|error| russh::Error::IO(std::io::Error::other(error.to_string())))?\<close>\<close>
  "act_io r = (case r of Inl error \<Rightarrow> act_stop (SshIo (display_error error)) | Inr x \<Rightarrow> act_return x)"

lemma act_io_simps [simp]:
  "act_io (Inl e) = act_stop (SshIo (display_error e))"
  "act_io (Inr x) = act_return x"
  by (simp_all add: act_io_def)

lemma keeps_act_io [keeps_intros]: "keeps P (act_io r)"
  by (cases r) (simp_all add: keeps_intros)

lemma keeps_log_event [keeps_intros]: "tracker_frame P \<Longrightarrow> keeps P (log_event G ty u t m r re d un)"
  unfolding log_event_def by (intro keeps_intros)

lemma keeps_log_ban_event [keeps_intros]: "tracker_frame P \<Longrightarrow> keeps P (log_ban_event G b)"
  unfolding log_ban_event_def by (intro keeps_intros)

lemma keeps_apply_failure_outcome [keeps_intros]:
  "tracker_frame P \<Longrightarrow> keeps P (apply_failure_outcome G out u t m)"
  unfolding apply_failure_outcome_def by (intro keeps_intros)

lemma log_event_run:
  "log_event G ty u t m res reason dur un s =
     (s\<lparr>tr_readings := Suc (tr_readings s), tr_audit := tr_audit s @ [session_event s
        (tl_utc (gl_tracker G) (tr_readings s)) ty u t m res reason dur un]\<rparr>, Inr ())"
  by (simp add: log_event_def utc_now_def act_bind_def audit_log_def session_event_def)

end
