(* ===== verification/Enrollment_Qr.thy ===== *)
theory Enrollment_Qr
  imports Config_Store
begin

text \<open>
  The QR code of a TOTP enrolment (\<^verbatim>\<open>src/src/ssh/mod.rs\<close>, \<^verbatim>\<open>render_enrollment_qr\<close> and what
  decides whether it fits).  Two rows of modules share one line of text: a glyph is a full
  block, a half block or a blank.  The code itself (width and dark modules) is a parameter.
\<close>

definition qr_quiet_zone :: nat where "qr_quiet_zone = 4"
definition qr_dark :: string where "qr_dark = map byte_of [0xE2, 0x96, 0x88]"
definition qr_light :: string where "qr_light = '' ''"
definition qr_top :: string where "qr_top = map byte_of [0xE2, 0x96, 0x80]"
definition qr_bottom :: string where "qr_bottom = map byte_of [0xE2, 0x96, 0x84]"

definition env_text :: "'d gateway_libs \<Rightarrow> string \<Rightarrow> string option" where
  \<comment> \<open>\<^verbatim>\<open>env::var(key).ok()\<close>\<close>
  "env_text G key = Option.bind (gl_var G key) from_utf8"

definition positive_var :: "'d gateway_libs \<Rightarrow> string \<Rightarrow> nat option" where
  "positive_var G key = Option.bind (Option.bind (env_text G key) parse_usize)
     (\<lambda>n. if 0 < n then Some n else None)"

definition terminal_dimensions_from_env :: "'d gateway_libs \<Rightarrow> (nat \<times> nat) option" where
  "terminal_dimensions_from_env G =
     (case (positive_var G ''COLUMNS'', positive_var G ''LINES'') of
        (Some columns, Some rows) \<Rightarrow> Some (columns, rows) | _ \<Rightarrow> None)"

definition to_ascii_uppercase :: "string \<Rightarrow> string" where
  "to_ascii_uppercase s = map (\<lambda>c. if 97 \<le> byte_val c \<and> byte_val c \<le> 122 then byte_of (byte_val c - 32) else c) s"

fun contains_text :: "string \<Rightarrow> string \<Rightarrow> bool" where
  "contains_text [] needle = (needle = [])"
| "contains_text (c # cs) needle = (starts_with (c # cs) needle \<or> contains_text cs needle)"

definition terminal_likely_supports_utf8 :: "'d gateway_libs \<Rightarrow> bool" where
  "terminal_likely_supports_utf8 G = list_ex (\<lambda>key.
     case env_text G key of
       None \<Rightarrow> False
     | Some v \<Rightarrow> (let upper = to_ascii_uppercase v
                 in contains_text upper ''UTF-8'' \<or> contains_text upper ''UTF8''))
     [''LC_ALL'', ''LC_CTYPE'', ''LANG'']"

definition qr_code :: "'d gateway_libs \<Rightarrow> string \<Rightarrow> (nat \<times> bool list) gw_result" where
  "qr_code G url = map_err (\<lambda>e. InvalidConfig (''failed to generate QR: '' @ e)) (gl_qr G url)"

definition enrollment_qr_dimensions :: "'d gateway_libs \<Rightarrow> string \<Rightarrow> (nat \<times> nat) gw_result" where
  "enrollment_qr_dimensions G url =
     bind_res (qr_code G url) (\<lambda>(width, colors).
       let side_modules = width + qr_quiet_zone * 2
       in Inr (side_modules, (side_modules + 1) div 2))"

definition qr_module_is_dark :: "bool list \<Rightarrow> nat \<Rightarrow> nat \<Rightarrow> nat \<Rightarrow> bool" where
  "qr_module_is_dark colors width x y =
     (let src_x = int x - int qr_quiet_zone; src_y = int y - int qr_quiet_zone in
      if src_x < 0 \<or> src_y < 0 \<or> width \<le> nat src_x \<or> width \<le> nat src_y then False
      else colors ! (nat src_y * width + nat src_x))"

definition qr_glyph :: "bool \<Rightarrow> bool \<Rightarrow> string" where
  "qr_glyph upper lower = (if upper \<and> lower then qr_dark else if \<not> upper \<and> \<not> lower then qr_light
     else if upper then qr_top else qr_bottom)"

definition qr_text_rows :: "nat \<Rightarrow> bool list \<Rightarrow> string list list" where
  \<comment> \<open>the glyphs of each line; the lines take the module rows \<^verbatim>\<open>(0..total).step_by(2)\<close>\<close>
  "qr_text_rows width colors =
     (let total = width + qr_quiet_zone * 2 in
      map (\<lambda>r. map (\<lambda>x. qr_glyph (qr_module_is_dark colors width x (2 * r))
                               (qr_module_is_dark colors width x (2 * r + 1))) [0..<total])
        [0..<(total + 1) div 2])"

definition render_enrollment_qr :: "'d gateway_libs \<Rightarrow> string \<Rightarrow> string gw_result" where
  \<comment> \<open>each line ends in a newline, which becomes a carriage return and a newline\<close>
  "render_enrollment_qr G url =
     bind_res (qr_code G url) (\<lambda>(width, colors).
       Inr (concat (map (\<lambda>row. concat row @ crlf) (qr_text_rows width colors))))"

definition render_enrollment_qr_if_terminal_fits :: "'d gateway_libs \<Rightarrow> string \<Rightarrow> string option gw_result" where
  "render_enrollment_qr_if_terminal_fits G url =
     (if \<not> terminal_likely_supports_utf8 G then Inr None
      else (case terminal_dimensions_from_env G of
          Some (columns, rows) \<Rightarrow>
            bind_res (enrollment_qr_dimensions G url) (\<lambda>(required_columns, required_rows).
              if columns < required_columns \<or> rows < required_rows then Inr None
              else bind_res (render_enrollment_qr G url) (\<lambda>qr. Inr (Some qr)))
        | None \<Rightarrow> bind_res (render_enrollment_qr G url) (\<lambda>qr. Inr (Some qr))))"

subsection \<open>What a scanner sees\<close>

definition glyph_modules :: "string \<Rightarrow> bool \<times> bool" where
  \<comment> \<open>the upper and the lower module a glyph shows\<close>
  "glyph_modules g = (g = qr_dark \<or> g = qr_top, g = qr_dark \<or> g = qr_bottom)"

lemma glyph_modules [simp]: "glyph_modules (qr_glyph a b) = (a, b)"
  by (cases a; cases b) (simp_all add: glyph_modules_def qr_glyph_def qr_dark_def qr_light_def qr_top_def
      qr_bottom_def byte_of_def)

definition shown_module :: "string list list \<Rightarrow> nat \<Rightarrow> nat \<Rightarrow> bool" where
  \<comment> \<open>the module a scanner reads at column x of module row y\<close>
  "shown_module text x y = (let m = glyph_modules (text ! (y div 2) ! x) in if even y then fst m else snd m)"

lemma shown_module:
  assumes "x < width + 8" and "y < 2 * ((width + 9) div 2)"
  shows "shown_module (qr_text_rows width colors) x y = qr_module_is_dark colors width x y"
proof -
  have r: "y div 2 < (width + 8 + 1) div 2"
    using assms(2) by (simp add: div_less_iff_less_mult mult.commute add.commute)
  have "qr_text_rows width colors ! (y div 2) ! x
      = qr_glyph (qr_module_is_dark colors width x (2 * (y div 2))) (qr_module_is_dark colors width x (2 * (y div 2) + 1))"
    using r assms(1) by (simp add: qr_text_rows_def Let_def qr_quiet_zone_def del: upt_Suc)
  then show ?thesis
    by (cases "even y") (auto simp: shown_module_def Let_def elim!: evenE oddE)
qed

text \<open>
  C25: The rendered code is the code.  The text has as many lines and columns as announced, a
  scanner that reads the glyphs back finds every module of the code in its place, and around
  it a light border of at least four modules on every side.
\<close>
theorem rendered_qr_scans:
  assumes "qr_code G url = Inr (width, colors)"
  shows "enrollment_qr_dimensions G url = Inr (width + 8, length (qr_text_rows width colors))
    \<and> (\<forall>row\<in>set (qr_text_rows width colors). length row = width + 8)
    \<and> (\<forall>x<width. \<forall>y<width. shown_module (qr_text_rows width colors) (x + 4) (y + 4) = colors ! (y * width + x))
    \<and> (\<forall>x y. x < width + 8 \<longrightarrow> y < 2 * length (qr_text_rows width colors)
         \<longrightarrow> x < 4 \<or> y < 4 \<or> width + 4 \<le> x \<or> width + 4 \<le> y
         \<longrightarrow> \<not> shown_module (qr_text_rows width colors) x y)
    \<and> render_enrollment_qr G url = Inr (concat (map (\<lambda>row. concat row @ crlf) (qr_text_rows width colors)))"
proof -
  have len: "length (qr_text_rows width colors) = (width + 9) div 2"
    by (simp add: qr_text_rows_def Let_def qr_quiet_zone_def del: upt_Suc)
  have inside: "shown_module (qr_text_rows width colors) (x + 4) (y + 4) = colors ! (y * width + x)"
    if "x < width" "y < width" for x y
    using that by (subst shown_module) (auto simp: qr_module_is_dark_def qr_quiet_zone_def)
  have border: "\<not> shown_module (qr_text_rows width colors) x y"
    if "x < width + 8" "y < 2 * length (qr_text_rows width colors)" "x < 4 \<or> y < 4 \<or> width + 4 \<le> x \<or> width + 4 \<le> y" for x y
    using that len by (subst shown_module) (auto simp: qr_module_is_dark_def qr_quiet_zone_def Let_def)
  have rows: "\<forall>row\<in>set (qr_text_rows width colors). length row = width + 8"
    by (auto simp: qr_text_rows_def Let_def qr_quiet_zone_def)
  show ?thesis
    using assms len inside border rows
    by (simp add: enrollment_qr_dimensions_def render_enrollment_qr_def qr_quiet_zone_def)
qed

lemma rendered_qr_scans_witness:
  "shown_module (qr_text_rows 1 [True]) 4 4 \<and> length (qr_text_rows 1 [True]) = 5"
proof -
  have "qr_code sample_gateway_libs ''otpauth://'' = Inr (1, [True])"
    by (simp add: qr_code_def sample_gateway_libs_def)
  from rendered_qr_scans [OF this] show ?thesis
    by (auto simp: enrollment_qr_dimensions_def qr_code_def sample_gateway_libs_def qr_quiet_zone_def)
qed

end
