(* ===== verification/Keyboard_Auth.thy ===== *)
theory Keyboard_Auth
  imports Session_State Enrollment_Qr
begin

text \<open>
  Authentication of a connection (\<^verbatim>\<open>src/src/ssh/mod.rs\<close>, \<^verbatim>\<open>GatewayHandler\<close>): the prompts, the
  keyboard-interactive dialogue from the password to the selection of a server, and the
  methods the gateway refuses.  Each function of the handler is an action on the session.
\<close>

datatype method_kind = KeyboardInteractive

datatype auth_reply =
    AuthAccept
  | AuthReject "method_kind list option" bool
  | AuthPartial string string "(string \<times> bool) list"   \<comment> \<open>name, instructions, prompts with echo\<close>

subsection \<open>Prompts\<close>

definition reject_to_keyboard_interactive :: auth_reply where
  "reject_to_keyboard_interactive = AuthReject (Some [KeyboardInteractive]) False"

definition keyboard_prompt :: "string \<Rightarrow> string \<Rightarrow> bool \<Rightarrow> auth_reply" where
  "keyboard_prompt instructions prompt echo = AuthPartial [] instructions [(prompt, echo)]"

definition password_prompt :: auth_reply where
  "password_prompt = keyboard_prompt [] ''Password: '' False"

definition message_lines :: "string option \<Rightarrow> string" where
  \<comment> \<open>a message and a blank line before the instructions\<close>
  "message_lines message = (case message of None \<Rightarrow> [] | Some m \<Rightarrow> m @ newline @ newline)"

definition new_password_prompt :: "string option \<Rightarrow> auth_reply" where
  "new_password_prompt message = keyboard_prompt
     (message_lines message @ newline @ ''Password change required before target access.'' @ newline)
     ''New password: '' False"

definition confirm_password_prompt :: auth_reply where
  "confirm_password_prompt =
     keyboard_prompt (''Confirm your new password.'' @ newline) ''Confirm password: '' False"

definition totp_prompt :: "string option \<Rightarrow> auth_reply" where
  "totp_prompt message = keyboard_prompt
     (message_lines message @ newline @ ''Enter the current TOTP code.'' @ newline) ''TOTP Code: '' False"

definition enrollment_prompt :: "'d gateway_libs \<Rightarrow> string \<Rightarrow> string \<Rightarrow> string option \<Rightarrow> auth_reply" where
  "enrollment_prompt G secret url message = keyboard_prompt
     (message_lines message
       @ newline @ ''TOTP enrollment is required before target access.'' @ newline
       @ ''Add this account to your authenticator app and enter the resulting code.'' @ newline @ newline
       @ ''Secret: '' @ secret @ newline @ ''URI: '' @ url @ newline @ newline
       @ (case render_enrollment_qr_if_terminal_fits G url of
            Inr (Some qr) \<Rightarrow> ''Scan this QR code with your authenticator app.'' @ newline @ newline @ qr @ newline
          | Inr None \<Rightarrow> ''Terminal is too small for the inline QR code.'' @ newline
              @ ''Use the plaintext secret or URI above.'' @ newline @ newline
          | Inl error \<Rightarrow> ''Unable to render the inline QR code: '' @ display_error error @ newline
              @ ''Use the plaintext secret or URI above.'' @ newline @ newline))
     ''Verification code: '' False"

definition should_prompt_existing_totp :: "user_record option \<Rightarrow> bool" where
  "should_prompt_existing_totp user = (case user of
     None \<Rightarrow> True
   | Some candidate \<Rightarrow> \<not> user_must_change_password candidate \<and> user_totp_secret candidate \<noteq> None)"

definition build_pending_context :: "user_record \<Rightarrow> string option \<Rightarrow> pending_auth_context" where
  "build_pending_context user login_password =
     \<lparr>pa_user = user, pa_new_password_hash = None, pa_login_password = login_password\<rparr>"

definition find_user_record :: "runtime_state \<Rightarrow> string \<Rightarrow> user_record option" where
  "find_user_record snapshot username =
     find (\<lambda>candidate. user_name candidate = username) (cf_users (rt_config snapshot))"

definition allowed_server_entries :: "runtime_state \<Rightarrow> string \<Rightarrow> (string \<times> string) list gw_result" where
  "allowed_server_entries snapshot username =
     bind_res (ok_or AuthorizationDenied (find_user_record snapshot username)) (\<lambda>user.
       let entries = List.map_filter (\<lambda>server_name. map_option (\<lambda>host. (server_name, host))
             (hm_get (rt_servers snapshot) server_name)) (user_allowed_servers user)
       in if entries = [] then Inl AuthorizationDenied else Inr entries)"

definition server_line :: "bool \<Rightarrow> nat \<Rightarrow> string \<times> string \<Rightarrow> string" where
  "server_line hide_proxy_ip index entry = (case entry of (name, host) \<Rightarrow>
     (if hide_proxy_ip then show_nat (index + 1) @ '') '' @ name @ newline
      else show_nat (index + 1) @ '') '' @ name @ '' ('' @ host @ '')'' @ newline))"

definition selection_text :: "bool \<Rightarrow> (string \<times> string) list \<Rightarrow> string option \<Rightarrow> string" where
  "selection_text hide_proxy_ip entries error_message =
     message_lines error_message @ newline @ ''Select a server:'' @ newline @ newline
       @ concat (map (\<lambda>(i, e). server_line hide_proxy_ip i e) (enumerate 0 entries))"

definition selection_prompt ::
  "'d gateway_libs \<Rightarrow> string \<Rightarrow> string option \<Rightarrow> ('z session_scheme, auth_reply gw_result) act" where
  "selection_prompt G username error_message =
     act_bind (act_get (\<lambda>s. allowed_server_entries (gw_config s) username)) (\<lambda>r. case r of
       Inl error \<Rightarrow>
         act_then (log_event G ''authorization_denied'' (Some username) None None AuditDenied
             (Some (display_error error)) None None)
           (act_return (Inl error))
     | Inr entries \<Rightarrow>
         act_bind (act_get (\<lambda>s. ep_hide_proxy_ip (gw_paths s))) (\<lambda>hide_proxy_ip.
         act_return (Inr (keyboard_prompt (selection_text hide_proxy_ip entries error_message)
           ''Enter selection (or 'Q' to quit): '' True))))"

subsection \<open>The engines behind the dialogue\<close>

definition set_auth_state :: "keyboard_auth_state option \<Rightarrow> ('z session_scheme, unit) act" where
  "set_auth_state k = act_modify (\<lambda>s. s\<lparr>gh_keyboard_auth_state := k\<rparr>)"

definition consume_token :: "'d gateway_libs \<Rightarrow> string \<Rightarrow> ('z session_scheme, unit gw_result) act" where
  "consume_token G username s =
     (case consume_rate_limit_token (gl_instant G) (gw_instants s) (gw_limiter s) (gh_peer_ip s) username of
        (limiter, instants, r) \<Rightarrow> (s\<lparr>gw_limiter := limiter, gw_instants := instants\<rparr>, Inr r))"

definition check_totp_code :: "'d gateway_libs \<Rightarrow> string \<Rightarrow> string \<Rightarrow> ('z session_scheme, unit gw_result) act" where
  "check_totp_code G secret code s =
     (s\<lparr>gw_ticks := Suc (gw_ticks s)\<rparr>, Inr (verify_totp_code (gl_auth G) (gw_ticks s) secret code))"

definition check_password :: "'d gateway_libs \<Rightarrow> user_record list \<Rightarrow> string \<Rightarrow> string \<Rightarrow> user_record gw_result" where
  "check_password G users username password =
     verify_password_constant_time (gl_auth G) (gl_dummy_hash G) users username password"

definition check_password_and_totp ::
  "'d gateway_libs \<Rightarrow> user_record list \<Rightarrow> string \<Rightarrow> string \<Rightarrow> string \<Rightarrow> ('z session_scheme, user_record gw_result) act" where
  "check_password_and_totp G users username password code s =
     (s\<lparr>gw_ticks := Suc (gw_ticks s)\<rparr>, Inr (verify_password_and_optional_totp_constant_time (gl_auth G)
        (gl_dummy_hash G) (gw_ticks s) users username password code))"

definition random_draw :: "('z session_scheme, nat) act" where
  "random_draw s = (s\<lparr>gw_draws := Suc (gw_draws s)\<rparr>, Inr (gw_draws s))"

abbreviation keyboard_method :: "string option" where
  "keyboard_method \<equiv> Some ''keyboard_interactive''"

definition log_user :: "'d gateway_libs \<Rightarrow> string \<Rightarrow> string \<Rightarrow> audit_result \<Rightarrow> string option \<Rightarrow> ('z session_scheme, unit) act" where
  \<comment> \<open>an event about a user in the dialogue\<close>
  "log_user G event_type username result reason =
     log_event G event_type (Some username) None keyboard_method result reason None None"

definition count_failure :: "'d gateway_libs \<Rightarrow> string option \<Rightarrow> ('z session_scheme, unit) act" where
  "count_failure G username =
     act_bind (act_get gh_peer_ip) (\<lambda>ip.
     act_bind (tracker_record_failure (gl_tracker G) ip username None) (\<lambda>outcome.
     apply_failure_outcome G outcome username None keyboard_method))"

definition refuse :: "'d gateway_libs \<Rightarrow> string \<Rightarrow> audit_result \<Rightarrow> central_error \<Rightarrow> ('z session_scheme, auth_reply) act" where
  \<comment> \<open>log, count the failure, reject\<close>
  "refuse G username result error =
     act_then (log_user G ''auth_failure'' username result (Some (display_error error)))
       (act_then (count_failure G (Some username)) (act_return reject_to_keyboard_interactive))"

definition password_policy_of :: "runtime_state \<Rightarrow> password_policy_config" where
  "password_policy_of snapshot = (let settings = cf_settings (rt_config snapshot) in
     \<lparr>pp_enforce = unwrap_or True (sc_enforce_password_policy settings),
      pp_min_length = unwrap_or 12 (sc_min_password_policy settings)\<rparr>)"

subsection \<open>The dialogue\<close>

definition start_enrollment :: "'d gateway_libs \<Rightarrow> pending_auth_context \<Rightarrow> ('z session_scheme, auth_reply) act" where
  \<comment> \<open>a fresh secret, its URL and the prompt\<close>
  "start_enrollment G context =
     act_bind random_draw (\<lambda>draw.
     let secret = generate_totp_secret (gl_auth G) draw in
     act_bind (act_io (otpauth_url (gl_auth G) ''CentralSSH'' (user_name (pa_user context)) secret)) (\<lambda>url.
     act_then (set_auth_state (Some (AwaitEnrollmentTotp context secret)))
       (act_return (enrollment_prompt G secret url None))))"

definition advance_after_initial_auth ::
  "'d gateway_libs \<Rightarrow> pending_auth_context \<Rightarrow> password_policy_config \<Rightarrow> ('z session_scheme, auth_reply) act" where
  "advance_after_initial_auth G context password_policy =
     (if user_must_change_password (pa_user context) then
        act_then (set_auth_state (Some (AwaitNewPassword context password_policy)))
          (act_return (new_password_prompt None))
      else if user_totp_secret (pa_user context) \<noteq> None then
        act_then (set_auth_state (Some (AwaitSelection context)))
          (act_bind (selection_prompt G (user_name (pa_user context)) None) act_io)
      else start_enrollment G context)"

definition handle_password_response ::
  "'d gateway_libs \<Rightarrow> string \<Rightarrow> string \<Rightarrow> ('z session_scheme, auth_reply) act" where
  "handle_password_response G username password =
     act_bind (act_get gw_config) (\<lambda>snapshot.
     let matched_user = find_user_record snapshot username in
     if should_prompt_existing_totp matched_user then
       act_then (set_auth_state (Some (AwaitExistingTotp username password)))
         (act_return (totp_prompt None))
     else if matched_user = None then act_return (totp_prompt None)
     else
       act_then (log_user G ''auth_attempt'' username AuditSuccess (Some ''received password response''))
       (act_bind (consume_token G username) (\<lambda>token. case token of
          Inl error \<Rightarrow> refuse G username AuditDenied error
        | Inr _ \<Rightarrow>
          (case check_password G (cf_users (rt_config snapshot)) username password of
             Inl error \<Rightarrow> refuse G username AuditFailure error
           | Inr user \<Rightarrow>
               act_then (log_user G ''auth_password'' username AuditSuccess None)
                 (advance_after_initial_auth G (build_pending_context user None)
                    (password_policy_of snapshot))))))"

definition handle_existing_totp_response ::
  "'d gateway_libs \<Rightarrow> string \<Rightarrow> string \<Rightarrow> string \<Rightarrow> ('z session_scheme, auth_reply) act" where
  "handle_existing_totp_response G username password code =
     act_then (log_user G ''auth_attempt'' username AuditSuccess (Some ''received password and totp response''))
     (act_bind (consume_token G username) (\<lambda>token. case token of
        Inl error \<Rightarrow> refuse G username AuditDenied error
      | Inr _ \<Rightarrow>
        act_bind (act_get gw_config) (\<lambda>snapshot.
        act_bind (check_password_and_totp G (cf_users (rt_config snapshot)) username password (trim code)) (\<lambda>r.
        case r of
          Inr user \<Rightarrow>
            act_then (log_user G ''auth_success'' username AuditSuccess None)
            (act_bind (act_get gh_peer_ip) (\<lambda>ip.
             act_then (tracker_record_success (gl_tracker G) ip)
            (act_then (act_when (user_totp_secret user \<noteq> None)
                (log_user G ''auth_totp'' username AuditSuccess None))
             (advance_after_initial_auth G (build_pending_context user None) (password_policy_of snapshot)))))
        | Inl error \<Rightarrow>
            act_then (log_user G ''auth_failure'' username AuditFailure (Some (display_error error)))
            (act_then (act_when (error \<noteq> TotpInvalid \<and> find_user_record snapshot username = None)
                (log_user G ''unknown_username_attempt'' username AuditFailure (Some ''unknown username'')))
            (act_then (count_failure G (Some username))
               (act_return reject_to_keyboard_interactive)))))))"

definition handle_new_password_response ::
  "pending_auth_context \<Rightarrow> password_policy_config \<Rightarrow> string \<Rightarrow> ('z session_scheme, auth_reply) act" where
  "handle_new_password_response context password_policy new_password =
     act_then (set_auth_state (Some (AwaitConfirmPassword context password_policy new_password)))
       (act_return confirm_password_prompt)"

definition ask_new_password ::
  "pending_auth_context \<Rightarrow> password_policy_config \<Rightarrow> string \<Rightarrow> ('z session_scheme, auth_reply) act" where
  \<comment> \<open>back to the new password, with the reason\<close>
  "ask_new_password context password_policy message =
     act_then (set_auth_state (Some (AwaitNewPassword context password_policy)))
       (act_return (new_password_prompt (Some message)))"

definition policy_message :: "central_error \<Rightarrow> string" where
  "policy_message error = (case error of InvalidConfig message \<Rightarrow> message | other \<Rightarrow> display_error other)"

definition handle_confirm_password_response ::
  "'d gateway_libs \<Rightarrow> pending_auth_context \<Rightarrow> password_policy_config \<Rightarrow> string \<Rightarrow> string
   \<Rightarrow> ('z session_scheme, auth_reply) act" where
  "handle_confirm_password_response G context password_policy candidate_password confirmation =
     (if candidate_password \<noteq> confirmation then
        ask_new_password context password_policy ''Passwords do not match.''
      else
        (let accept = act_bind random_draw (\<lambda>draw.
               act_bind (act_io (hash_password (gl_auth G) draw candidate_password)) (\<lambda>hash.
               start_enrollment G (context\<lparr>pa_new_password_hash := Some hash\<rparr>)))
         in if pp_enforce password_policy then
              (case enforce_password_policy (gl_auth G) candidate_password
                      (user_password (pa_user context)) (pp_min_length password_policy) of
                 Inl error \<Rightarrow> ask_new_password context password_policy (policy_message error)
               | Inr _ \<Rightarrow> accept)
            else if candidate_password = [] then
              ask_new_password context password_policy ''Password must not be empty.''
            else accept))"

definition committed_user :: "pending_auth_context \<Rightarrow> string option \<Rightarrow> user_record" where
  \<comment> \<open>the context's user after the update\<close>
  "committed_user context new_totp_secret =
     (let user = pa_user context;
          user = (case pa_new_password_hash context of
                    Some hash \<Rightarrow> user\<lparr>user_password := hash, user_must_change_password := False\<rparr> | None \<Rightarrow> user)
      in (case new_totp_secret of Some secret \<Rightarrow> user\<lparr>user_totp_secret := Some secret\<rparr> | None \<Rightarrow> user))"

definition commit_pending_updates ::
  "'d gateway_libs \<Rightarrow> pending_auth_context \<Rightarrow> string option \<Rightarrow> ('z session_scheme, pending_auth_context) act" where
  "commit_pending_updates G context new_totp_secret =
     act_bind (update_user_credentials G (user_name (pa_user context)) (pa_new_password_hash context)
        new_totp_secret (Some False)) (\<lambda>r.
     act_bind (act_io r) (\<lambda>_.
     act_then (act_when (pa_new_password_hash context \<noteq> None)
        (log_user G ''password_change'' (user_name (pa_user context)) AuditSuccess None))
     (act_then (act_when (new_totp_secret \<noteq> None)
        (log_user G ''totp_enrollment'' (user_name (pa_user context)) AuditSuccess None))
      (act_return (context\<lparr>pa_user := committed_user context new_totp_secret\<rparr>)))))"

definition finish_enrollment ::
  "'d gateway_libs \<Rightarrow> pending_auth_context \<Rightarrow> string \<Rightarrow> ('z session_scheme, auth_reply) act" where
  \<comment> \<open>the code was right\<close>
  "finish_enrollment G context secret =
     (let username = user_name (pa_user context) in
      act_then (log_user G ''auth_totp'' username AuditSuccess None)
      (act_bind (act_get gh_peer_ip) (\<lambda>ip.
       act_then (tracker_record_success (gl_tracker G) ip)
       (act_bind (commit_pending_updates G context (Some secret)) (\<lambda>context.
        act_then (set_auth_state (Some (AwaitSelection context)))
          (act_bind (selection_prompt G username None) act_io))))))"

definition handle_enrollment_response ::
  "'d gateway_libs \<Rightarrow> pending_auth_context \<Rightarrow> string \<Rightarrow> string \<Rightarrow> ('z session_scheme, auth_reply) act" where
  "handle_enrollment_response G context secret code =
     (let username = user_name (pa_user context) in
      act_bind (check_totp_code G secret (trim code)) (\<lambda>checked. case checked of
        Inl error \<Rightarrow>
          act_then (log_user G ''auth_failure'' username AuditFailure (Some (display_error error)))
          (act_then (count_failure G (Some username))
          (act_bind (act_io (otpauth_url (gl_auth G) ''CentralSSH'' username secret)) (\<lambda>url.
           act_then (set_auth_state (Some (AwaitEnrollmentTotp context secret)))
             (act_return (enrollment_prompt G secret url (Some ''Invalid TOTP code.''))))))
      | Inr _ \<Rightarrow>
          (case pa_login_password context of
             None \<Rightarrow> finish_enrollment G context secret
           | Some login_password \<Rightarrow>
             (let context = context\<lparr>pa_login_password := None\<rparr> in
              act_bind (consume_token G username) (\<lambda>token. case token of
                Inl error \<Rightarrow> refuse G username AuditDenied error
              | Inr _ \<Rightarrow>
                act_bind (act_get gw_users) (\<lambda>users.
                (case check_password G users username login_password of
                   Inl error \<Rightarrow> refuse G username AuditFailure error
                 | Inr _ \<Rightarrow>
                     act_then (log_user G ''auth_success'' username AuditSuccess None)
                       (finish_enrollment G context secret))))))))"

definition selected_index :: "string \<Rightarrow> 'a list \<Rightarrow> nat option" where
  "selected_index selection entries = (case parse_usize (trim selection) of
     Some v \<Rightarrow> if 0 < v \<and> v \<le> length entries then Some (v - 1) else None | None \<Rightarrow> None)"

definition handle_selection_response ::
  "'d gateway_libs \<Rightarrow> pending_auth_context \<Rightarrow> string \<Rightarrow> ('z session_scheme, auth_reply) act" where
  "handle_selection_response G context selection =
     (let username = user_name (pa_user context) in
      if eq_ignore_ascii_case (trim selection) ''q'' then
        act_then (act_modify (\<lambda>s. s\<lparr>gh_keyboard_auth_state := None, gh_authenticated_username := None,
            gh_pending_target := None, gh_active_policy := None\<rparr>))
          (act_stop SshDisconnect)
      else
        act_bind (act_get (\<lambda>s. allowed_server_entries (gw_config s) username)) (\<lambda>r.
        act_bind (act_io r) (\<lambda>entries. case selected_index selection entries of
          None \<Rightarrow>
            act_then (set_auth_state (Some (AwaitSelection context)))
              (act_bind (selection_prompt G username (Some ''Invalid selection.'')) act_io)
        | Some index \<Rightarrow>
            act_then (act_modify (\<lambda>s. s\<lparr>
                gh_pending_target := Some \<lparr>st_name = fst (entries ! index), st_host = snd (entries ! index)\<rparr>,
                gh_authenticated_username := Some username, gh_keyboard_auth_state := None\<rparr>))
              (act_return AuthAccept))))"

subsection \<open>Before every attempt\<close>

definition handle_pre_auth_check ::
  "'d gateway_libs \<Rightarrow> string \<Rightarrow> pre_auth_check \<Rightarrow> ('z session_scheme, auth_reply option) act" where
  "handle_pre_auth_check G auth_method check =
     act_then (act_when (pc_expired_ban check)
       (log_event G ''ban_expired'' None None (Some auth_method) AuditSuccess (Some ''active ban expired'')
          (pc_ban_duration check) (pc_ban_until check)))
     (act_then (act_when (pc_whitelisted check \<and> pc_had_state check)
       (log_event G ''whitelist_bypass'' None None (Some auth_method) AuditSuccess
          (Some ''fail2ban bypassed for whitelisted IP'') None None))
     (if pc_banned check then
        act_then (log_event G ''connection_rejected_banned'' None None (Some auth_method) AuditBanned
            (Some ''active fail2ban ban'') (pc_ban_duration check) (pc_ban_until check))
          (act_return (Some reject_to_keyboard_interactive))
      else act_return None))"

definition enforce_pre_auth_policy :: "'d gateway_libs \<Rightarrow> string \<Rightarrow> ('z session_scheme, auth_reply option) act" where
  "enforce_pre_auth_policy G auth_method =
     act_then (log_connection_opened_once G)
     (act_bind (act_get gh_peer_ip) (\<lambda>ip.
      act_bind (tracker_check_ip (gl_tracker G) ip) (\<lambda>check.
      handle_pre_auth_check G auth_method check)))"

definition refuse_method :: "'d gateway_libs \<Rightarrow> string \<Rightarrow> ('z session_scheme, auth_reply) act" where
  \<comment> \<open>the common body of \<^verbatim>\<open>auth_none\<close>, \<^verbatim>\<open>auth_publickey\<close> and \<^verbatim>\<open>auth_password\<close>\<close>
  "refuse_method G auth_method =
     act_bind (enforce_pre_auth_policy G auth_method) (\<lambda>decision. case decision of
       Some reply \<Rightarrow> act_return reply
     | None \<Rightarrow>
         act_then (log_event G ''protocol_error'' None None (Some auth_method) AuditDenied
             (Some ''unsupported auth method'') None None)
           (act_return reject_to_keyboard_interactive))"

definition auth_none :: "'d gateway_libs \<Rightarrow> ('z session_scheme, auth_reply) act" where
  "auth_none G = refuse_method G ''none''"

definition auth_publickey :: "'d gateway_libs \<Rightarrow> ('z session_scheme, auth_reply) act" where
  "auth_publickey G = refuse_method G ''publickey''"

definition auth_password :: "'d gateway_libs \<Rightarrow> ('z session_scheme, auth_reply) act" where
  "auth_password G = refuse_method G ''password''"

definition dispatch_response ::
  "'d gateway_libs \<Rightarrow> keyboard_auth_state \<Rightarrow> string \<Rightarrow> ('z session_scheme, auth_reply) act" where
  "dispatch_response G state response = (case state of
     AwaitPassword username \<Rightarrow> handle_password_response G username response
   | AwaitExistingTotp username password \<Rightarrow> handle_existing_totp_response G username password response
   | AwaitNewPassword context policy \<Rightarrow> handle_new_password_response context policy response
   | AwaitConfirmPassword context policy candidate \<Rightarrow>
       handle_confirm_password_response G context policy candidate response
   | AwaitEnrollmentTotp context secret \<Rightarrow> handle_enrollment_response G context secret response
   | AwaitSelection context \<Rightarrow> handle_selection_response G context response)"

definition auth_keyboard_interactive ::
  "'d gateway_libs \<Rightarrow> string \<Rightarrow> string list option \<Rightarrow> ('z session_scheme, auth_reply) act" where
  "auth_keyboard_interactive G user response =
     act_bind (enforce_pre_auth_policy G ''keyboard_interactive'') (\<lambda>decision. case decision of
       Some reply \<Rightarrow> act_return reply
     | None \<Rightarrow>
       act_bind (act_get (\<lambda>s. gh_authenticated_username s \<noteq> None \<and> gh_proxy_session s \<noteq> None)) (\<lambda>connected.
       if connected then act_return AuthAccept
       else
         (let username = trim user in
          if username = [] then
            act_then (log_event G ''protocol_error'' None None keyboard_method AuditDenied
                (Some ''empty username'') None None)
              (act_then (count_failure G None) (act_return reject_to_keyboard_interactive))
          else
            act_bind (act_get gh_keyboard_auth_state) (\<lambda>existing.
            (let ask = act_then (set_auth_state (Some (AwaitPassword username))) (act_return password_prompt) in
             case response of
               None \<Rightarrow> ask
             | Some responses \<Rightarrow>
                 (let first_response = (case responses of [] \<Rightarrow> None | r # _ \<Rightarrow> Some (from_utf8_lossy r)) in
                  if existing = None \<and> (first_response = None \<or> first_response = Some []) then ask
                  else act_then (set_auth_state None)
                    (dispatch_response G (unwrap_or (AwaitPassword username) existing)
                       (unwrap_or [] first_response))))))))"

end
