(* ===== verification/Login_Safety.thy ===== *)
theory Login_Safety
  imports Keyboard_Auth Machine
begin

text \<open>
  What a login proves: a client that is let in has shown a password that verifies for an
  account and a TOTP code for it, and was given a target the account may use.  The invariant
  of the dialogue is stated over a history of what the client answered and of the
  configurations the calls saw; other connections, reloads and the channel operations run in
  between.
\<close>

subsection \<open>What an action returns\<close>

definition yields :: "('a \<Rightarrow> bool) \<Rightarrow> ('s, 'a) act \<Rightarrow> bool" where
  "yields R m \<longleftrightarrow> (\<forall>s s' x. m s = (s', Inr x) \<longrightarrow> R x)"

named_theorems yields_intros \<open>results of actions\<close>

lemma yields_basic [yields_intros]:
  "R x \<Longrightarrow> yields R (act_return x)" "yields R (act_stop e)"
  by (simp_all add: yields_def)

lemma yields_bind [yields_intros]: "(\<And>x. yields R (f x)) \<Longrightarrow> yields R (act_bind m f)"
  by (auto simp: yields_def act_bind_def split: prod.splits sum.splits)

lemma yields_bind_result:
  "yields Q m \<Longrightarrow> (\<And>x. Q x \<Longrightarrow> yields R (f x)) \<Longrightarrow> yields R (act_bind m f)"
  by (fastforce simp: yields_def act_bind_def split: prod.splits sum.splits)

lemma yields_then [yields_intros]: "yields R n \<Longrightarrow> yields R (act_then m n)"
  unfolding act_then_def by (rule yields_bind)

lemma yields_cases [yields_intros]:
  "yields R m \<Longrightarrow> yields R n \<Longrightarrow> yields R (if b then m else n)"
  "yields R m \<Longrightarrow> (\<And>y. yields R (f y)) \<Longrightarrow> yields R (case x of None \<Rightarrow> m | Some y \<Rightarrow> f y)"
  "(\<And>e. yields R (g e)) \<Longrightarrow> (\<And>y. yields R (f' y)) \<Longrightarrow> yields R (case r of Inl e \<Rightarrow> g e | Inr y \<Rightarrow> f' y)"
  by (auto split: option.split sum.split)

lemma yields_triple: "keeps P m \<Longrightarrow> yields R m \<Longrightarrow> triple P m (\<lambda>x s. P s \<and> R x) P"
  unfolding keeps_triple triple_def yields_def by (fastforce split: sum.splits)

record login_history =
  lh_responses :: "string list"
  lh_snapshots :: "runtime_state list"

definition password_shown :: "auth_libs \<Rightarrow> login_history \<Rightarrow> user_record \<Rightarrow> bool" where
  "password_shown A h u \<longleftrightarrow> (\<exists>snapshot\<in>set (lh_snapshots h). u \<in> set (cf_users (rt_config snapshot)))
     \<and> al_parse_hash A (user_password u) = Inr () \<and> (\<exists>pw\<in>set (lh_responses h). al_verify A pw (user_password u))"

definition code_shown :: "auth_libs \<Rightarrow> login_history \<Rightarrow> string \<Rightarrow> bool" where
  "code_shown A h secret \<longleftrightarrow> (\<exists>code\<in>set (lh_responses h). \<exists>tick. code_accepted A tick secret (trim code))"

lemma code_shownI:
  "code \<in> set (lh_responses h) \<Longrightarrow> code_accepted A tick secret (trim code) \<Longrightarrow> code_shown A h secret"
  by (auto simp: code_shown_def)

definition must_enroll :: "user_record \<Rightarrow> bool" where
  "must_enroll u \<longleftrightarrow> user_must_change_password u \<or> user_totp_secret u = None"

definition half_way :: "auth_libs \<Rightarrow> login_history \<Rightarrow> string \<Rightarrow> bool" where
  \<comment> \<open>the password of an account that has to enroll\<close>
  "half_way A h nm \<longleftrightarrow> (\<exists>u. user_name u = nm \<and> password_shown A h u \<and> must_enroll u)"

definition admitted :: "auth_libs \<Rightarrow> login_history \<Rightarrow> string \<Rightarrow> bool" where
  "admitted A h nm \<longleftrightarrow> (\<exists>u. user_name u = nm \<and> password_shown A h u \<and>
     (if must_enroll u then \<exists>draw. code_shown A h (generate_totp_secret A draw)
      else \<exists>secret. user_totp_secret u = Some secret \<and> code_shown A h secret))"

definition granted :: "login_history \<Rightarrow> string \<Rightarrow> selected_target \<Rightarrow> bool" where
  \<comment> \<open>the target was among the servers of the account\<close>
  "granted h nm t \<longleftrightarrow> (\<exists>snapshot\<in>set (lh_snapshots h). \<exists>entries.
     allowed_server_entries snapshot nm = Inr entries \<and> (st_name t, st_host t) \<in> set entries)"

definition state_ok :: "auth_libs \<Rightarrow> login_history \<Rightarrow> keyboard_auth_state \<Rightarrow> bool" where
  "state_ok A h k = (case k of
     AwaitPassword _ \<Rightarrow> True
   | AwaitExistingTotp _ password \<Rightarrow> password \<in> set (lh_responses h)
   | AwaitNewPassword context _ \<Rightarrow> half_way A h (user_name (pa_user context))
   | AwaitConfirmPassword context _ _ \<Rightarrow> half_way A h (user_name (pa_user context))
   | AwaitEnrollmentTotp context secret \<Rightarrow> half_way A h (user_name (pa_user context))
       \<and> (\<exists>draw. secret = generate_totp_secret A draw)
   | AwaitSelection context \<Rightarrow> admitted A h (user_name (pa_user context)))"

definition login_inv :: "auth_libs \<Rightarrow> login_history \<Rightarrow> 'z session_scheme \<Rightarrow> bool" where
  "login_inv A h s \<longleftrightarrow> distinct (map user_name (gw_users s))
     \<and> (\<forall>k. gh_keyboard_auth_state s = Some k \<longrightarrow> state_ok A h k)
     \<and> (\<forall>nm. gh_authenticated_username s = Some nm \<longrightarrow> admitted A h nm
          \<and> (\<exists>t. gh_pending_target s = Some t \<and> granted h nm t))"

lemma login_frame [keeps_intros]: "tracker_frame (login_inv A h)"
  by (rule tracker_frameI) (simp_all add: login_inv_def)

lemma login_inv_more:
  "login_inv A h s \<Longrightarrow> login_inv A h (s\<lparr>gw_limiter := l, gw_instants := i\<rparr>)"
  "login_inv A h s \<Longrightarrow> login_inv A h (s\<lparr>gw_ticks := t\<rparr>)"
  "login_inv A h s \<Longrightarrow> login_inv A h (s\<lparr>gw_draws := t\<rparr>)"
  "login_inv A h s \<Longrightarrow> login_inv A h (s\<lparr>gh_connection_logged := b\<rparr>)"
  by (simp_all add: login_inv_def)

lemma login_inv_clear:
  "login_inv A h s \<Longrightarrow> login_inv A h (s\<lparr>gh_keyboard_auth_state := None\<rparr>)"
  "login_inv A h s \<Longrightarrow> login_inv A h (s\<lparr>gh_keyboard_auth_state := None, gh_authenticated_username := None,
     gh_pending_target := None, gh_active_policy := None\<rparr>)"
  by (simp_all add: login_inv_def)

definition log_frame :: "('z session_scheme \<Rightarrow> bool) \<Rightarrow> bool" where
  \<comment> \<open>properties of the session that the tracker and the audit trail do not touch\<close>
  "log_frame P \<longleftrightarrow> tracker_frame P \<and> (\<forall>s b. P s \<longrightarrow> P (s\<lparr>gh_connection_logged := b\<rparr>))"

definition snapshot_frame :: "('z session_scheme \<Rightarrow> bool) \<Rightarrow> bool" where
  \<comment> \<open>nor the limiter, the clock of the codes and the random numbers\<close>
  "snapshot_frame P \<longleftrightarrow> log_frame P \<and> (\<forall>s. P s \<longrightarrow> (\<forall>l i. P (s\<lparr>gw_limiter := l, gw_instants := i\<rparr>))
     \<and> (\<forall>t. P (s\<lparr>gw_ticks := t\<rparr>)) \<and> (\<forall>d. P (s\<lparr>gw_draws := d\<rparr>)))"

lemma snapshot_frame_log: "snapshot_frame P \<Longrightarrow> log_frame P"
  and snapshot_frame_tracker: "snapshot_frame P \<Longrightarrow> tracker_frame P"
  by (simp_all add: snapshot_frame_def log_frame_def)

lemma snapshot_frame_login: "snapshot_frame (login_inv A h)"
  by (simp add: snapshot_frame_def log_frame_def login_frame login_inv_more)

lemma snapshot_frame_config: "snapshot_frame (\<lambda>s. login_inv A h s \<and> gw_config s = c)"
  using login_frame [of A h] by (auto simp: snapshot_frame_def log_frame_def login_inv_more tracker_frame_def)

lemma keeps_engines [keeps_intros]:
  assumes "snapshot_frame P"
  shows "keeps P (consume_token G u)" "keeps P (check_totp_code G sec code)"
    "keeps P (check_password_and_totp G us nm pw code)" "keeps P random_draw"
  using assms
  by (auto simp: keeps_def snapshot_frame_def consume_token_def check_totp_code_def
      check_password_and_totp_def random_draw_def split: prod.split)

lemma keeps_bookkeeping [keeps_intros]:
  assumes "log_frame P"
  shows "keeps P (log_user G ty u r re)" "keeps P (count_failure G uo)" "keeps P (refuse G u r e)"
    "keeps P (selection_prompt G u m)" "keeps P (log_connection_opened_once G)"
    "keeps P (handle_pre_auth_check G am check)" "keeps P (enforce_pre_auth_policy G am)"
    "keeps P (refuse_method G am)"
proof -
  have "tracker_frame P" using assms by (simp add: log_frame_def)
  note frame = assms this
  show *: "keeps P (log_user G ty u r re)" "keeps P (count_failure G uo)" for ty u r re uo
    unfolding log_user_def count_failure_def by (intro keeps_intros frame)+
  show "keeps P (refuse G u r e)" unfolding refuse_def by (intro keeps_intros frame *)
  show "keeps P (selection_prompt G u m)" unfolding selection_prompt_def by (intro keeps_intros frame)
  show opened: "keeps P (log_connection_opened_once G)"
    unfolding log_connection_opened_once_def
    by (intro keeps_intros keeps_modify frame) (use assms in \<open>simp add: log_frame_def\<close>)
  show pre: "keeps P (handle_pre_auth_check G am check)" for check
    unfolding handle_pre_auth_check_def by (intro keeps_intros frame)
  show policy: "keeps P (enforce_pre_auth_policy G am)"
    unfolding enforce_pre_auth_policy_def by (intro keeps_intros frame opened pre)
  show "keeps P (refuse_method G am)"
    unfolding refuse_method_def by (intro keeps_intros frame policy)
qed


subsection \<open>The dialogue keeps the invariant\<close>

lemma keeps_set_auth_state:
  "(\<And>k. ko = Some k \<Longrightarrow> state_ok A h k) \<Longrightarrow> keeps (login_inv A h) (set_auth_state ko)"
  unfolding set_auth_state_def by (rule keeps_modify) (simp add: login_inv_def)

lemma keeps_set_auth_state_at:
  "(\<And>k. ko = Some k \<Longrightarrow> state_ok A h k) \<Longrightarrow> keeps (\<lambda>s. login_inv A h s \<and> gw_config s = c) (set_auth_state ko)"
  unfolding set_auth_state_def by (rule keeps_modify) (auto simp: login_inv_def)

lemmas login_intros = keeps_intros snapshot_frame_login snapshot_frame_config login_frame
  snapshot_frame_tracker [OF snapshot_frame_config] snapshot_frame_log [OF snapshot_frame_login]
  snapshot_frame_log [OF snapshot_frame_config]

lemma keeps_start_enrollment:
  assumes "half_way (gl_auth G) h (user_name (pa_user context))"
  shows "keeps (login_inv (gl_auth G) h) (start_enrollment G context)"
    and "keeps (\<lambda>s. login_inv (gl_auth G) h s \<and> gw_config s = c) (start_enrollment G context)"
  unfolding start_enrollment_def Let_def
  by (intro login_intros keeps_set_auth_state keeps_set_auth_state_at; use assms in \<open>auto simp: state_ok_def\<close>)+

lemma half_wayI: "password_shown A h u \<Longrightarrow> must_enroll u \<Longrightarrow> half_way A h (user_name u)"
  by (auto simp: half_way_def)

lemma keeps_advance:
  assumes shown: "password_shown (gl_auth G) h (pa_user context)"
    and code: "\<not> must_enroll (pa_user context) \<Longrightarrow> \<exists>secret. user_totp_secret (pa_user context) = Some secret
      \<and> code_shown (gl_auth G) h secret"
  shows "keeps (\<lambda>s. login_inv (gl_auth G) h s \<and> gw_config s = c) (advance_after_initial_auth G context policy)"
proof -
  let ?u = "pa_user context"
  have half: "must_enroll ?u \<Longrightarrow> half_way (gl_auth G) h (user_name ?u)" using shown by (rule half_wayI)
  have full: "\<not> must_enroll ?u \<Longrightarrow> admitted (gl_auth G) h (user_name ?u)"
    using shown code by (auto simp: admitted_def)
  show ?thesis
    unfolding advance_after_initial_auth_def
  proof (split if_split, intro conjI impI, goal_cases)
    case 1
    then show ?case
      by (intro login_intros keeps_set_auth_state_at) (use half in \<open>auto simp: state_ok_def must_enroll_def\<close>)
  next
    case 2
    show ?case
    proof (split if_split, intro conjI impI, goal_cases)
      case 1
      then show ?case using 2 full
        by (intro login_intros keeps_set_auth_state_at) (auto simp: state_ok_def must_enroll_def)
    next
      case 2
      then show ?case using half by (intro keeps_start_enrollment) (simp add: must_enroll_def)
    qed
  qed
qed

lemma keeps_sum_eq:
  "(\<And>e. x = Inl e \<Longrightarrow> keeps P (f e)) \<Longrightarrow> (\<And>y. x = Inr y \<Longrightarrow> keeps P (g y))
   \<Longrightarrow> keeps P (case x of Inl e \<Rightarrow> f e | Inr y \<Rightarrow> g y)"
  by (cases x) auto

lemma keeps_fst: "keeps P m \<Longrightarrow> P s \<Longrightarrow> P (fst (m s))"
  by (simp add: keeps_def)

lemma keeps_at: "keeps (\<lambda>s. P s \<and> gw_config s = c) m \<Longrightarrow> P s \<Longrightarrow> gw_config s = c \<Longrightarrow> P (fst (m s))"
  by (simp add: keeps_def)

lemma keeps_bind_get_config:
  assumes "keeps (\<lambda>s. P s \<and> gw_config s = c) (f c)"
  shows "keeps (\<lambda>s. P s \<and> gw_config s = c) (act_bind (act_get gw_config) f)"
  using assms by (auto simp: keeps_def)

lemma keeps_handle_password:
  assumes seen: "c \<in> set (lh_snapshots h)" and names: "distinct (map user_name (cf_users (rt_config c)))"
    and pw: "password \<in> set (lh_responses h)"
  shows "keeps (\<lambda>s. login_inv (gl_auth G) h s \<and> gw_config s = c) (handle_password_response G username password)"
proof -
  have advance: "keeps (\<lambda>s. login_inv (gl_auth G) h s \<and> gw_config s = c)
      (advance_after_initial_auth G (build_pending_context u None) policy)"
    if ok: "check_password G (cf_users (rt_config c)) username password = Inr u"
      and enroll: "\<not> should_prompt_existing_totp (find_user_record c username)" for u policy
  proof (rule keeps_advance)
    have u: "u \<in> set (cf_users (rt_config c))" "user_name u = username"
        "al_parse_hash (gl_auth G) (user_password u) = Inr ()" "al_verify (gl_auth G) password (user_password u)"
      using password_verified [OF names] ok unfolding check_password_def by blast+
    show "password_shown (gl_auth G) h (pa_user (build_pending_context u None))"
      using u seen pw by (auto simp: password_shown_def build_pending_context_def)
    have "find_user_record c username = Some u"
      using find_Some_distinct_iff [OF names] u by (simp add: find_user_record_def)
    then have "must_enroll u" using enroll by (auto simp: should_prompt_existing_totp_def must_enroll_def)
    then show "\<not> must_enroll (pa_user (build_pending_context u None)) \<Longrightarrow>
      \<exists>secret. user_totp_secret (pa_user (build_pending_context u None)) = Some secret
        \<and> code_shown (gl_auth G) h secret"
      by (simp add: build_pending_context_def)
  qed
  show ?thesis
    unfolding handle_password_response_def Let_def
  proof (rule keeps_bind_get_config, split if_split, intro conjI impI, goal_cases)
    case 1
    show ?case by (intro login_intros keeps_set_auth_state_at) (use pw in \<open>auto simp: state_ok_def\<close>)
  next
    case 2
    then show ?case by (intro keeps_sum_eq login_intros advance)
  qed
qed


lemma keeps_bind_result:
  "triple P m (\<lambda>x s. P s \<and> R x) P \<Longrightarrow> (\<And>x. R x \<Longrightarrow> keeps P (f x)) \<Longrightarrow> keeps P (act_bind m f)"
  unfolding keeps_triple by (rule triple_bind) (auto intro: triple_case_pre [THEN triple_pre])

lemma keeps_handle_existing_totp:
  assumes seen: "c \<in> set (lh_snapshots h)" and names: "distinct (map user_name (cf_users (rt_config c)))"
    and pw: "password \<in> set (lh_responses h)" and code: "code \<in> set (lh_responses h)"
  shows "keeps (\<lambda>s. login_inv (gl_auth G) h s \<and> gw_config s = c)
    (handle_existing_totp_response G username password code)"
proof -
  let ?P = "\<lambda>s. login_inv (gl_auth G) h s \<and> gw_config s = c"
  let ?R = "\<lambda>r. \<forall>u. r = Inr u \<longrightarrow> password_shown (gl_auth G) h u
    \<and> (\<forall>secret. user_totp_secret u = Some secret \<longrightarrow> code_shown (gl_auth G) h secret)"
  have shown: "password_shown (gl_auth G) h u"
    if "verify_password_constant_time (gl_auth G) (gl_dummy_hash G) (cf_users (rt_config c)) username password = Inr u" for u
    using that password_verified [OF names] seen pw unfolding password_shown_def by blast
  have both: "?R (verify_password_and_optional_totp_constant_time (gl_auth G) (gl_dummy_hash G) tick
      (cf_users (rt_config c)) username password (trim code))" for tick
    using shown code
    by (auto simp: verify_password_and_optional_totp_constant_time_def verify_totp_code_iff
        intro: code_shownI split: option.splits)
  have checked: "triple ?P (check_password_and_totp G (cf_users (rt_config c)) username password (trim code))
      (\<lambda>r s. ?P s \<and> ?R r) ?P"
    using both by (auto simp: triple_def check_password_and_totp_def login_inv_more)
  have advance: "keeps ?P (advance_after_initial_auth G (build_pending_context u None) policy)"
    if "?R r" "r = Inr u" for r u policy
    using that by (intro keeps_advance) (auto simp: build_pending_context_def must_enroll_def)
  show ?thesis
    unfolding handle_existing_totp_response_def
    by (intro keeps_bind_get_config keeps_sum_eq keeps_bind_result [OF checked] login_intros advance; assumption)
qed


lemma keeps_update_credentials: "keeps (login_inv A h) (update_user_credentials G u pw totp flag)"
proof -
  have names: "keeps (login_inv A h) (act_modify (\<lambda>s. set_users (update_first p
      (new_credentials pw totp flag) (gw_users s)) s))" for p
    by (rule keeps_modify)
      (simp add: login_inv_def update_first_names [of user_name] set_users_def)
  have save: "keeps (login_inv A h) (save_document G d)" for d
    unfolding save_document_def by (intro login_intros)
  show ?thesis unfolding update_user_credentials_def by (intro login_intros names save)
qed

lemma keeps_finish_enrollment:
  assumes "admitted (gl_auth G) h (user_name (pa_user context))"
  shows "keeps (login_inv (gl_auth G) h) (finish_enrollment G context secret)"
proof -
  have name: "user_name (committed_user c totp) = user_name (pa_user c)" for c totp
    by (simp add: committed_user_def Let_def split: option.split)
  have "keeps (login_inv (gl_auth G) h) (commit_pending_updates G context totp)" for totp
    unfolding commit_pending_updates_def
    by (intro keeps_update_credentials login_intros)
  moreover have "yields (\<lambda>c. user_name (pa_user c) = user_name (pa_user context))
      (commit_pending_updates G context totp)" for totp
    unfolding commit_pending_updates_def by (intro yields_intros) (simp add: name)
  ultimately have commit: "triple (login_inv (gl_auth G) h) (commit_pending_updates G context totp)
      (\<lambda>c s. login_inv (gl_auth G) h s \<and> user_name (pa_user c) = user_name (pa_user context))
      (login_inv (gl_auth G) h)" for totp
    by (rule yields_triple)
  show ?thesis
    unfolding finish_enrollment_def Let_def
    by (intro keeps_bind_result [OF commit] login_intros keeps_set_auth_state)
      (use assms in \<open>auto simp: state_ok_def\<close>)
qed

lemma keeps_handle_enrollment:
  assumes half: "half_way (gl_auth G) h (user_name (pa_user context))"
    and drawn: "\<exists>draw. secret = generate_totp_secret (gl_auth G) draw"
    and code: "code \<in> set (lh_responses h)"
  shows "keeps (login_inv (gl_auth G) h) (handle_enrollment_response G context secret code)"
proof -
  let ?P = "login_inv (gl_auth G) h"
  have checked: "triple ?P (check_totp_code G secret (trim code))
      (\<lambda>r s. ?P s \<and> (\<forall>y. r = Inr y \<longrightarrow> admitted (gl_auth G) h (user_name (pa_user context)))) ?P"
    using half drawn code
    by (auto simp: triple_def check_totp_code_def login_inv_more verify_totp_code_iff half_way_def admitted_def
        intro: code_shownI)
  have finish: "keeps ?P (finish_enrollment G context' secret)"
    if "user_name (pa_user context') = user_name (pa_user context)"
      "\<forall>y. r = Inr y \<longrightarrow> admitted (gl_auth G) h (user_name (pa_user context))" "r = Inr z" for context' r z
    using that by (intro keeps_finish_enrollment) simp
  show ?thesis
    unfolding handle_enrollment_response_def Let_def
    by (intro keeps_bind_result [OF checked] keeps_sum_eq login_intros keeps_set_auth_state finish)
      (use half drawn in \<open>auto simp: state_ok_def\<close>)
qed


lemma keeps_handle_new_password:
  "half_way A h (user_name (pa_user context))
   \<Longrightarrow> keeps (login_inv A h) (handle_new_password_response context policy response)"
  unfolding handle_new_password_response_def
  by (intro login_intros keeps_set_auth_state) (auto simp: state_ok_def)

lemma keeps_handle_confirm:
  assumes half: "half_way (gl_auth G) h (user_name (pa_user context))"
  shows "keeps (login_inv (gl_auth G) h) (handle_confirm_password_response G context policy candidate response)"
proof -
  have again: "keeps (login_inv (gl_auth G) h) (ask_new_password context policy message)" for message
    unfolding ask_new_password_def
    by (intro login_intros keeps_set_auth_state) (use half in \<open>auto simp: state_ok_def\<close>)
  have enroll: "keeps (login_inv (gl_auth G) h)
      (start_enrollment G (context\<lparr>pa_new_password_hash := hash\<rparr>))" for hash
    using half by (intro keeps_start_enrollment) simp
  show ?thesis
    unfolding handle_confirm_password_response_def Let_def by (intro login_intros again enroll)
qed

lemma handle_selection_run:
  "handle_selection_response G context selection s =
     (let nm = user_name (pa_user context) in
      if eq_ignore_ascii_case (trim selection) ''q'' then
        (s\<lparr>gh_keyboard_auth_state := None, gh_authenticated_username := None, gh_pending_target := None,
           gh_active_policy := None\<rparr>, Inl SshDisconnect)
      else case allowed_server_entries (gw_config s) nm of
        Inl error \<Rightarrow> (s, Inl (SshIo (display_error error)))
      | Inr entries \<Rightarrow> (case selected_index selection entries of
          None \<Rightarrow> act_then (set_auth_state (Some (AwaitSelection context)))
            (act_bind (selection_prompt G nm (Some ''Invalid selection.'')) act_io) s
        | Some i \<Rightarrow> (s\<lparr>gh_pending_target := Some \<lparr>st_name = fst (entries ! i), st_host = snd (entries ! i)\<rparr>,
            gh_authenticated_username := Some nm, gh_keyboard_auth_state := None\<rparr>, Inr AuthAccept)))"
  by (auto simp: handle_selection_response_def Let_def split: sum.split option.split)

lemma selected_index_less: "selected_index selection entries = Some i \<Longrightarrow> i < length entries"
  by (auto simp: selected_index_def split: option.splits if_splits)

lemma keeps_handle_selection:
  assumes seen: "c \<in> set (lh_snapshots h)" and adm: "admitted (gl_auth G) h (user_name (pa_user context))"
    and inv: "login_inv (gl_auth G) h s" "gw_config s = c"
  shows "login_inv (gl_auth G) h (fst (handle_selection_response G context response s))"
proof -
  let ?nm = "user_name (pa_user context)"
  have retry: "keeps (login_inv (gl_auth G) h) (act_then (set_auth_state (Some (AwaitSelection context)))
      (act_bind (selection_prompt G ?nm m) act_io))" for m
    by (intro login_intros keeps_set_auth_state) (use adm in \<open>auto simp: state_ok_def\<close>)
  have choose: "keeps (login_inv (gl_auth G) h)
      (act_then (act_modify (\<lambda>s. s\<lparr>
         gh_pending_target := Some \<lparr>st_name = fst (entries ! i), st_host = snd (entries ! i)\<rparr>,
         gh_authenticated_username := Some ?nm, gh_keyboard_auth_state := None\<rparr>)) (act_return AuthAccept))"
    if "allowed_server_entries c ?nm = Inr entries" "i < length entries" for entries i
  proof -
    have "granted h ?nm \<lparr>st_name = fst (entries ! i), st_host = snd (entries ! i)\<rparr>"
      unfolding granted_def using that seen by (intro bexI [of _ c] exI [of _ entries]) simp_all
    then show ?thesis using adm by (intro login_intros keeps_modify) (simp add: login_inv_def)
  qed
  show ?thesis
    using inv retry [unfolded keeps_def, of "Some ''Invalid selection.''"] choose [unfolded keeps_def]
    by (auto simp: handle_selection_run Let_def login_inv_clear
        dest: selected_index_less split: sum.split option.split)
qed

lemma login_dispatch:
  assumes seen: "c \<in> set (lh_snapshots h)" and response: "response \<in> set (lh_responses h)"
    and ok: "state_ok (gl_auth G) h state" and inv: "login_inv (gl_auth G) h s" "gw_config s = c"
  shows "login_inv (gl_auth G) h (fst (dispatch_response G state response s))"
proof -
  have names: "distinct (map user_name (cf_users (rt_config c)))" using inv by (auto simp: login_inv_def)
  show ?thesis
  proof (cases state)
    case (AwaitPassword nm)
    from keeps_at [OF keeps_handle_password [OF seen names response] inv] AwaitPassword show ?thesis
      by (simp add: dispatch_response_def)
  next
    case (AwaitExistingTotp nm password)
    with ok have "password \<in> set (lh_responses h)" by (simp add: state_ok_def)
    from keeps_at [OF keeps_handle_existing_totp [OF seen names this response] inv] AwaitExistingTotp
    show ?thesis by (simp add: dispatch_response_def)
  next
    case (AwaitNewPassword ctx policy)
    with ok have "half_way (gl_auth G) h (user_name (pa_user ctx))" by (simp add: state_ok_def)
    from keeps_fst [OF keeps_handle_new_password [OF this] inv(1)] AwaitNewPassword
    show ?thesis by (simp add: dispatch_response_def)
  next
    case (AwaitConfirmPassword ctx policy candidate)
    with ok have "half_way (gl_auth G) h (user_name (pa_user ctx))" by (simp add: state_ok_def)
    from keeps_fst [OF keeps_handle_confirm [OF this] inv(1)] AwaitConfirmPassword
    show ?thesis by (simp add: dispatch_response_def)
  next
    case (AwaitEnrollmentTotp ctx secret)
    with ok have "half_way (gl_auth G) h (user_name (pa_user ctx))"
        "\<exists>draw. secret = generate_totp_secret (gl_auth G) draw"
      by (auto simp: state_ok_def)
    from keeps_fst [OF keeps_handle_enrollment [OF this response] inv(1)] AwaitEnrollmentTotp
    show ?thesis by (simp add: dispatch_response_def)
  next
    case (AwaitSelection ctx)
    with ok have "admitted (gl_auth G) h (user_name (pa_user ctx))" by (simp add: state_ok_def)
    from keeps_handle_selection [OF seen this inv] AwaitSelection
    show ?thesis by (simp add: dispatch_response_def)
  qed
qed

subsection \<open>A call of the dialogue\<close>

definition answers :: "string list option \<Rightarrow> string list" where
  \<comment> \<open>what a call takes from the client's responses\<close>
  "answers response = (case response of None \<Rightarrow> [] | Some [] \<Rightarrow> [[]] | Some (r # _) \<Rightarrow> [from_utf8_lossy r])"

definition seen :: "login_history \<Rightarrow> 'z session_scheme \<Rightarrow> string list option \<Rightarrow> login_history" where
  "seen h s response = \<lparr>lh_responses = lh_responses h @ answers response,
     lh_snapshots = lh_snapshots h @ [gw_config s]\<rparr>"

lemma login_inv_mono:
  assumes "login_inv A h s" "set (lh_responses h) \<subseteq> set (lh_responses h')" "set (lh_snapshots h) \<subseteq> set (lh_snapshots h')"
  shows "login_inv A h' s"
proof -
  have shown: "password_shown A h u \<Longrightarrow> password_shown A h' u" for u
    using assms(2,3) by (auto simp: password_shown_def)
  have code: "code_shown A h sec \<Longrightarrow> code_shown A h' sec" for sec using assms(2) by (auto simp: code_shown_def)
  have half: "half_way A h nm \<Longrightarrow> half_way A h' nm" for nm using shown by (auto simp: half_way_def)
  have adm: "admitted A h nm \<Longrightarrow> admitted A h' nm" for nm
    unfolding admitted_def using shown code by (metis (full_types))
  have grant: "granted h nm t \<Longrightarrow> granted h' nm t" for nm t using assms(3) by (auto simp: granted_def)
  have "state_ok A h k \<Longrightarrow> state_ok A h' k" for k
    using half adm assms(2) by (auto simp: state_ok_def split: keyboard_auth_state.splits)
  with adm grant assms(1) show ?thesis unfolding login_inv_def by blast
qed

lemma login_inv_seen: "login_inv A h s \<Longrightarrow> login_inv A (seen h s' response) s"
  by (erule login_inv_mono) (auto simp: seen_def)

definition starts_over :: "keyboard_auth_state option \<Rightarrow> string list option \<Rightarrow> bool" where
  \<comment> \<open>a call without an answer, or with an empty one where nothing was asked\<close>
  "starts_over existing response \<longleftrightarrow> response = None \<or> existing = None \<and> hd (answers response) = []"

lemma set_auth_state_run: "act_then (set_auth_state k) m s = m (s\<lparr>gh_keyboard_auth_state := k\<rparr>)"
  by (simp add: set_auth_state_def)

lemma keyboard_run:
  assumes "enforce_pre_auth_policy G ''keyboard_interactive'' s = (s1, r)"
  shows "auth_keyboard_interactive G user response s = (case r of
      Inl e \<Rightarrow> (s1, Inl e)
    | Inr (Some reply) \<Rightarrow> (s1, Inr reply)
    | Inr None \<Rightarrow>
        if gh_authenticated_username s1 \<noteq> None \<and> gh_proxy_session s1 \<noteq> None then (s1, Inr AuthAccept)
        else if trim user = [] then
          act_then (log_event G ''protocol_error'' None None keyboard_method AuditDenied
              (Some ''empty username'') None None)
            (act_then (count_failure G None) (act_return reject_to_keyboard_interactive)) s1
        else if starts_over (gh_keyboard_auth_state s1) response then
          (s1\<lparr>gh_keyboard_auth_state := Some (AwaitPassword (trim user))\<rparr>, Inr password_prompt)
        else dispatch_response G (unwrap_or (AwaitPassword (trim user)) (gh_keyboard_auth_state s1))
          (hd (answers response)) (s1\<lparr>gh_keyboard_auth_state := None\<rparr>))"
  by (cases r)
    (auto simp: auth_keyboard_interactive_def act_bind_def [of "enforce_pre_auth_policy _ _"] assms Let_def
      set_auth_state_run starts_over_def answers_def split: option.split list.split)

lemma hd_answers: "response \<noteq> None \<Longrightarrow> hd (answers response) \<in> set (answers response)"
  by (auto simp: answers_def split: option.split list.split)

lemma login_call:
  assumes inv: "login_inv (gl_auth G) h s"
  shows "login_inv (gl_auth G) (seen h s response) (fst (auth_keyboard_interactive G user response s))"
proof -
  let ?h = "seen h s response" and ?c = "gw_config s" and ?A = "gl_auth G"
  let ?P = "\<lambda>s. login_inv ?A ?h s \<and> gw_config s = ?c"
  have start: "?P s" using login_inv_seen [OF inv] by simp
  have c: "?c \<in> set (lh_snapshots ?h)" by (simp add: seen_def)
  have empty: "keeps (login_inv ?A ?h) (act_then (log_event G ''protocol_error'' None None keyboard_method AuditDenied
      (Some ''empty username'') None None) (act_then (count_failure G None) (act_return reject_to_keyboard_interactive)))"
    by (intro login_intros)
  obtain s1 r where policy: "enforce_pre_auth_policy G ''keyboard_interactive'' s = (s1, r)" by force
  have s1: "?P s1"
    using keeps_run [OF keeps_bookkeeping(7) [OF snapshot_frame_log [OF snapshot_frame_config]] start policy] .
  have dispatch: "login_inv ?A ?h (fst (dispatch_response G
      (unwrap_or (AwaitPassword nm) (gh_keyboard_auth_state s1)) (hd (answers response))
      (s1\<lparr>gh_keyboard_auth_state := None\<rparr>)))" if "response \<noteq> None" for nm
  proof -
    have "hd (answers response) \<in> set (lh_responses ?h)" using hd_answers [OF that] by (simp add: seen_def)
    moreover have "state_ok ?A ?h (unwrap_or (AwaitPassword nm) (gh_keyboard_auth_state s1))"
      using s1 by (cases "gh_keyboard_auth_state s1") (auto simp: login_inv_def state_ok_def)
    ultimately show ?thesis using s1 by (simp add: login_dispatch [OF c] login_inv_clear)
  qed
  have asked: "login_inv ?A ?h (s1\<lparr>gh_keyboard_auth_state := Some (AwaitPassword nm)\<rparr>)" for nm
    using s1 by (auto simp: login_inv_def state_ok_def)
  show ?thesis
    using s1 dispatch asked empty [unfolded keeps_def]
    by (auto simp: keyboard_run [OF policy] starts_over_def split: sum.split option.split)
qed


subsection \<open>Only the selection lets a client in\<close>

lemma refuses:
  "yields (\<lambda>r. r \<noteq> AuthAccept) (refuse G u res e)"
  "yields (\<lambda>r. r \<noteq> AuthAccept) (start_enrollment G context)"
  unfolding refuse_def start_enrollment_def Let_def
  by (intro yields_intros; simp add: reject_to_keyboard_interactive_def enrollment_prompt_def keyboard_prompt_def)+

lemma menu_refuses: "yields (\<lambda>r. r \<noteq> AuthAccept) (act_bind (selection_prompt G u m) act_io)"
proof (rule yields_bind_result)
  show "yields (\<lambda>r. \<forall>x. r = Inr x \<longrightarrow> x \<noteq> AuthAccept) (selection_prompt G u m)"
    unfolding selection_prompt_def by (intro yields_intros) (simp_all add: keyboard_prompt_def)
  show "\<forall>x. r = Inr x \<longrightarrow> x \<noteq> AuthAccept \<Longrightarrow> yields (\<lambda>r. r \<noteq> AuthAccept) (act_io r)" for r
    by (cases r) (auto simp: yields_def)
qed

lemma advance_refuses: "yields (\<lambda>r. r \<noteq> AuthAccept) (advance_after_initial_auth G context policy)"
  unfolding advance_after_initial_auth_def
  by (intro yields_intros refuses menu_refuses) (simp add: new_password_prompt_def keyboard_prompt_def)

lemma handlers_refuse:
  "yields (\<lambda>r. r \<noteq> AuthAccept) (handle_password_response G u pw)"
  "yields (\<lambda>r. r \<noteq> AuthAccept) (handle_existing_totp_response G u pw code)"
  "yields (\<lambda>r. r \<noteq> AuthAccept) (handle_new_password_response context policy response)"
  "yields (\<lambda>r. r \<noteq> AuthAccept) (handle_confirm_password_response G context policy candidate response)"
  "yields (\<lambda>r. r \<noteq> AuthAccept) (handle_enrollment_response G context secret code)"
  unfolding handle_password_response_def handle_existing_totp_response_def handle_new_password_response_def
    handle_confirm_password_response_def handle_enrollment_response_def finish_enrollment_def
    ask_new_password_def Let_def
  by (intro yields_intros refuses menu_refuses advance_refuses;
      simp add: totp_prompt_def new_password_prompt_def confirm_password_prompt_def enrollment_prompt_def
        reject_to_keyboard_interactive_def keyboard_prompt_def)+

lemma policy_refuses: "yields (\<lambda>d. d \<noteq> Some AuthAccept) (enforce_pre_auth_policy G am)"
  unfolding enforce_pre_auth_policy_def handle_pre_auth_check_def
  by (intro yields_intros) (simp_all add: reject_to_keyboard_interactive_def)

lemma yieldsD: "yields R m \<Longrightarrow> m s = (s', Inr x) \<Longrightarrow> R x"
  by (auto simp: yields_def)

lemma selection_accepts:
  assumes "handle_selection_response G context selection s = (s', Inr AuthAccept)"
  shows "gh_authenticated_username s' \<noteq> None"
proof -
  have "act_then (set_auth_state k) (act_bind (selection_prompt G u m) act_io) s \<noteq> (s', Inr AuthAccept)" for k u m
    using yieldsD [OF yields_then [OF menu_refuses]] by blast
  with assms show ?thesis
    by (auto simp: handle_selection_run Let_def split: if_splits sum.splits option.splits)
qed

lemma dispatch_accepts:
  assumes "dispatch_response G state response s = (s', Inr AuthAccept)"
  shows "gh_authenticated_username s' \<noteq> None"
  using assms handlers_refuse [THEN yieldsD] selection_accepts
  by (cases state) (fastforce simp: dispatch_response_def)+

lemma accepted_is_authenticated:
  assumes "auth_keyboard_interactive G user response s = (s', Inr AuthAccept)"
  shows "gh_authenticated_username s' \<noteq> None"
proof -
  obtain s1 r where policy: "enforce_pre_auth_policy G ''keyboard_interactive'' s = (s1, r)" by force
  have "r \<noteq> Inr (Some AuthAccept)" using yieldsD [OF policy_refuses] policy by blast
  moreover have "act_then m (act_then n (act_return reject_to_keyboard_interactive)) s1 \<noteq> (s', Inr AuthAccept)"
      for m n :: "('a session_scheme, unit) act"
  proof -
    have "yields (\<lambda>r. r \<noteq> AuthAccept) (act_then m (act_then n (act_return reject_to_keyboard_interactive)))"
      by (intro yields_intros) (simp add: reject_to_keyboard_interactive_def)
    then show ?thesis by (auto dest: yieldsD)
  qed
  moreover have "password_prompt \<noteq> AuthAccept" by (simp add: password_prompt_def keyboard_prompt_def)
  ultimately show ?thesis
    using assms dispatch_accepts
    by (fastforce simp: keyboard_run [OF policy] split: sum.splits option.splits if_splits)
qed

subsection \<open>The machine\<close>

datatype login_event = Answer string "string list option" | Probe | Elsewhere

definition same_login :: "session \<Rightarrow> session \<Rightarrow> bool" where
  "same_login s s' \<longleftrightarrow> gh_keyboard_auth_state s' = gh_keyboard_auth_state s
     \<and> gh_authenticated_username s' = gh_authenticated_username s \<and> gh_pending_target s' = gh_pending_target s"

inductive login_step :: "'d gateway_libs \<Rightarrow> session \<times> login_history \<Rightarrow> login_event \<Rightarrow> session \<times> login_history \<Rightarrow> bool"
  for G :: "'d gateway_libs" where
  answer: "auth_keyboard_interactive G user response s = (s', r)
    \<Longrightarrow> login_step G (s, h) (Answer user response) (s', seen h s response)"
| probe: "m \<in> {auth_none G, auth_publickey G, auth_password G} \<Longrightarrow> m s = (s', r)
    \<Longrightarrow> login_step G (s, h) Probe (s', h)"
| elsewhere: "same_login s s' \<Longrightarrow> distinct (map user_name (gw_users s'))
    \<Longrightarrow> login_step G (s, h) Elsewhere (s', h)"

inductive_cases login_stepE: "login_step G sh e sh'"

definition login_start :: "session \<times> login_history \<Rightarrow> bool" where
  "login_start sh \<longleftrightarrow> (\<exists>gw addr uuid. distinct (map user_name (gw_users gw))
     \<and> sh = (new_client gw addr uuid, \<lparr>lh_responses = [], lh_snapshots = []\<rparr>))"

interpretation login: machine_invariant login_start "login_step G" "\<lambda>(s, h). login_inv (gl_auth G) h s" for G
proof
  fix sh assume "login_start sh"
  then show "case sh of (s, h) \<Rightarrow> login_inv (gl_auth G) h s"
    by (auto simp: login_start_def login_inv_def new_client_def gateway.defs session.defs)
next
  fix sh e sh' assume inv: "case sh of (s, h) \<Rightarrow> login_inv (gl_auth G) h s" and "login_step G sh e sh'"
  from this(2) show "case sh' of (s, h) \<Rightarrow> login_inv (gl_auth G) h s"
  proof (cases rule: login_step.cases)
    case (answer user response s s' r h)
    then show ?thesis using login_call [of G h s response user] inv by simp
  next
    case (probe m s s' r h)
    have "keeps (login_inv (gl_auth G) h) m"
      using probe by (auto simp: auth_none_def auth_publickey_def auth_password_def intro: keeps_bookkeeping snapshot_frame_log snapshot_frame_login)
    then show ?thesis using probe inv keeps_run by fastforce
  next
    case (elsewhere s s' h)
    then show ?thesis using inv by (simp add: login_inv_def same_login_def)
  qed
qed


text \<open>
  C1: Whoever is let in has proved two factors.  Whatever calls a client makes, and whatever
  other connections, reloads and channel operations do in between, an accepted
  keyboard-interactive call means: for the account now recorded, an answer of this connection
  verified as the password of its record in a configuration in force at one of the calls, an
  answer was a valid code for the TOTP secret of that record or, where the record required
  enrollment (no secret, or a password change due), for a secret generated by the gateway; and
  the target was one of the servers a configuration in force allowed the account.
\<close>
theorem accept_needs_both_factors:
  assumes "reach login_start (login_step G) (s, h)"
    and "auth_keyboard_interactive G user response s = (s', Inr AuthAccept)"
  shows "\<exists>nm t. gh_authenticated_username s' = Some nm \<and> gh_pending_target s' = Some t
    \<and> admitted (gl_auth G) (seen h s response) nm \<and> granted (seen h s response) nm t"
proof -
  have "login_inv (gl_auth G) h s" using login.reach_inv [OF assms(1)] by simp
  from login_call [OF this, of response user] have "login_inv (gl_auth G) (seen h s response) s'"
    using assms(2) by simp
  then show ?thesis using accepted_is_authenticated [OF assms(2)] by (auto simp: login_inv_def)
qed

end
