(* ===== verification/Login_Progress.thy ===== *)
theory Login_Progress
  imports Login_Safety
begin

text \<open>
  What the dialogue does for a client that may log in, and what it does to one that may not.
\<close>

subsection \<open>An address that is let through\<close>

definition lets_in :: "tracker_libs \<Rightarrow> ip_addr \<Rightarrow> 'z tracker_scheme \<Rightarrow> bool" where
  \<comment> \<open>no ban of the address runs now or later\<close>
  "lets_in T ip s \<longleftrightarrow> hm_wf (tr_core s) \<and> (\<not> fs_enabled (tr_settings s) \<or> is_whitelisted (tl_net T) (tr_settings s) ip
     \<or> (\<forall>n\<ge>tr_readings s. active_ban (tr_core s) ip (tl_utc T n) = None))"

lemma snapshot_unbanned:
  assumes "hm_wf core" "active_ban core ip t = None"
  shows "active_ban (fst (snapshot_for_persistence C core now st)) ip t = None"
  using snapshot_get [OF assms(1), where ip = ip and C = C and now = now and s = st] assms(2)
  by (auto simp: active_ban_def same_but_window_def split: option.splits)

lemma persist_lets_in:
  assumes "lets_in T ip s" "persist_if_enabled T st s = (s', Inr u)"
  shows "lets_in T ip s'"
  using persist_core [OF assms(2)] assms(1) snapshot_unbanned snapshot_wf
  by (auto simp: lets_in_def split: if_splits)

lemma success_passes:
  assumes fits: "\<And>d. chrono_fits (tl_chrono T) d" and "lets_in T ip s"
  shows "\<exists>s'. tracker_record_success T ip s = (s', Inr ()) \<and> lets_in T ip s'"
proof -
  let ?s = "s\<lparr>tr_readings := Suc (tr_readings s),
    tr_core := record_success (tl_net T) (tr_core s) ip (tl_utc T (tr_readings s)) (tr_settings s)\<rparr>"
  obtain s' where run: "persist_if_enabled T (tr_settings s) ?s = (s', Inr ())"
    using persist_total [OF fits] by blast
  have "lets_in T ip ?s" using assms(2) core_wf_after(3)
    by (auto simp: lets_in_def active_ban_success)
  then have "lets_in T ip s'" using run by (rule persist_lets_in)
  with run show ?thesis
    by (simp add: tracker_record_success_def utc_now_def act_bind_def act_then_def)
qed

lemma check_passes:
  assumes fits: "\<And>d. chrono_fits (tl_chrono T) d" and "lets_in T ip s"
  shows "\<exists>s' r. tracker_check_ip T ip s = (s', Inr r) \<and> \<not> pc_banned r \<and> lets_in T ip s'"
proof -
  let ?now = "tl_utc T (tr_readings s)" and ?st = "tr_settings s"
  obtain core r where c: "check_ip (tl_chrono T) (tl_net T) (tr_core s) ip ?now ?st = (core, Some r)"
    using check_ip_total [OF fits] by blast
  let ?s = "s\<lparr>tr_readings := Suc (tr_readings s), tr_core := core\<rparr>"
  have wf: "hm_wf core" using core_wf_after(2) c assms(2) by (metis fst_conv lets_in_def)
  have "\<not> pc_banned r \<and> lets_in T ip ?s"
  proof (cases "fs_enabled ?st \<and> \<not> is_whitelisted (tl_net T) ?st ip")
    case True
    with assms(2) have none: "active_ban (tr_core s) ip ?now = None" by (auto simp: lets_in_def)
    with check_ip_guarded(2,7) [OF _ _ c] True wf show ?thesis
      by (auto simp: lets_in_def active_ban_def split: option.splits bind_splits)
  next
    case False
    with c check_ip_unguarded [of ?st "tl_net T" ip] assms(2) show ?thesis
      by (auto simp: lets_in_def idle_check_def)
  qed
  moreover obtain s' where run: "act_when (pc_expired_ban r \<or> pc_banned r) (persist_if_enabled T ?st) ?s = (s', Inr ())"
    using persist_total [OF fits] by (cases "pc_expired_ban r \<or> pc_banned r") auto
  moreover have "lets_in T ip ?s \<Longrightarrow> lets_in T ip s'"
    using run by (cases "pc_expired_ban r \<or> pc_banned r") (auto dest: persist_lets_in)
  ultimately show ?thesis using c
    by (simp add: tracker_check_ip_def utc_now_def act_bind_def act_then_def on_core_def act_update_def)
qed


definition dialogue :: "'z session_scheme \<Rightarrow> _" where
  \<comment> \<open>what the tracker and the audit trail leave alone\<close>
  "dialogue s = ((tr_settings s, gw_config s, gw_paths s, gw_limiter s, gw_instants s, gw_draws s, gw_ticks s),
     gh_peer_ip s, gh_keyboard_auth_state s, gh_authenticated_username s, gh_pending_target s, gh_active_policy s,
     gh_proxy_session s, gh_channel_state s, gh_sent s)"

lemma dialogue_frame: "log_frame (\<lambda>t. dialogue t = d)"
  by (simp add: log_frame_def tracker_frame_def dialogue_def)

lemma dialogue_tracker: "tracker_frame (\<lambda>t. dialogue t = d)"
  by (rule dialogue_frame [unfolded log_frame_def, THEN conjunct1])

lemma lets_in_log: "lets_in T ip s \<Longrightarrow> lets_in T ip (s\<lparr>tr_readings := Suc (tr_readings s), tr_audit := a\<rparr>)"
  by (auto simp: lets_in_def)

lemma log_lets_in: "lets_in T ip s \<Longrightarrow> \<exists>s'. log_event G ty u t m r re d un s = (s', Inr ()) \<and> lets_in T ip s'"
  by (simp add: log_event_run lets_in_log)

lemma when_log_lets_in:
  "lets_in T ip s \<Longrightarrow> \<exists>s'. act_when b (log_event G ty u t m r re d un) s = (s', Inr ()) \<and> lets_in T ip s'"
  by (cases b) (simp_all add: log_lets_in)

lemma policy_passes:
  assumes fits: "\<And>d. chrono_fits (tl_chrono (gl_tracker G)) d"
    and "lets_in (gl_tracker G) (gh_peer_ip s) s"
  shows "\<exists>s1. enforce_pre_auth_policy G am s = (s1, Inr None) \<and> dialogue s1 = dialogue s
    \<and> lets_in (gl_tracker G) (gh_peer_ip s) s1"
proof -
  let ?T = "gl_tracker G" and ?ip = "gh_peer_ip s"
  have opened: "\<exists>s'. log_connection_opened_once G s = (s', Inr ()) \<and> lets_in ?T ?ip s'"
  proof (cases "gh_connection_logged s")
    case False
    have "lets_in ?T ?ip (s\<lparr>gh_connection_logged := True\<rparr>)" using assms(2) by (simp add: lets_in_def)
    from log_lets_in [OF this] False show ?thesis by (simp add: log_connection_opened_once_def)
  qed (use assms(2) in \<open>simp add: log_connection_opened_once_def\<close>)
  then obtain s1 where s1: "log_connection_opened_once G s = (s1, Inr ())" "lets_in ?T ?ip s1" by blast
  have ip: "gh_peer_ip s1 = ?ip"
    using keeps_run [OF keeps_bookkeeping(5) [OF dialogue_frame] refl s1(1)] by (simp add: dialogue_def)
  obtain s2 r where s2: "tracker_check_ip ?T ?ip s1 = (s2, Inr r)" "\<not> pc_banned r" "lets_in ?T ?ip s2"
    using check_passes [OF fits s1(2)] by blast
  obtain s3 where s3: "act_when (pc_expired_ban r) (log_event G ''ban_expired'' None None (Some am) AuditSuccess
      (Some ''active ban expired'') (pc_ban_duration r) (pc_ban_until r)) s2 = (s3, Inr ())" "lets_in ?T ?ip s3"
    using when_log_lets_in [OF s2(3)] by blast
  obtain s4 where s4: "act_when (pc_whitelisted r \<and> pc_had_state r) (log_event G ''whitelist_bypass'' None None
      (Some am) AuditSuccess (Some ''fail2ban bypassed for whitelisted IP'') None None) s3 = (s4, Inr ())"
      "lets_in ?T ?ip s4"
    using when_log_lets_in [OF s3(2)] by blast
  have "enforce_pre_auth_policy G am s = (s4, Inr None)"
    using s1(1) s2(1,2) s3(1) s4(1) ip
    by (simp add: enforce_pre_auth_policy_def handle_pre_auth_check_def act_bind_def act_then_def act_get_def)
  with s4(2) keeps_run [OF keeps_bookkeeping(7) [OF dialogue_frame] refl this] show ?thesis by simp
qed


subsection \<open>A valid login\<close>

lemma answer_passes:
  assumes fits: "\<And>d. chrono_fits (tl_chrono (gl_tracker G)) d" and pass: "lets_in (gl_tracker G) (gh_peer_ip s) s"
    and "gh_authenticated_username s = None" "trim user \<noteq> []"
  obtains s1 where "dialogue s1 = dialogue s" "lets_in (gl_tracker G) (gh_peer_ip s) s1"
    "auth_keyboard_interactive G user response s =
       (if starts_over (gh_keyboard_auth_state s) response
        then (s1\<lparr>gh_keyboard_auth_state := Some (AwaitPassword (trim user))\<rparr>, Inr password_prompt)
        else dispatch_response G (unwrap_or (AwaitPassword (trim user)) (gh_keyboard_auth_state s))
          (hd (answers response)) (s1\<lparr>gh_keyboard_auth_state := None\<rparr>))"
proof -
  obtain s1 where s1: "enforce_pre_auth_policy G ''keyboard_interactive'' s = (s1, Inr None)"
      "dialogue s1 = dialogue s" "lets_in (gl_tracker G) (gh_peer_ip s) s1"
    using policy_passes [OF fits pass] by blast
  from that [OF s1(2,3)] keyboard_run [OF s1(1), of user response] s1(2) assms(3,4) show ?thesis
    by (simp add: dialogue_def)
qed

lemma lets_in_gateway:
  "lets_in T ip (s\<lparr>gh_keyboard_auth_state := k\<rparr>) = lets_in T ip s"
  "lets_in T ip (s\<lparr>gw_limiter := l, gw_instants := i\<rparr>) = lets_in T ip s"
  "lets_in T ip (s\<lparr>gw_ticks := n\<rparr>) = lets_in T ip s"
  by (simp_all add: lets_in_def)

lemma menu_shown:
  assumes "allowed_server_entries (gw_config s) nm = Inr entries"
  shows "act_bind (selection_prompt G nm m) act_io s
    = (s, Inr (keyboard_prompt (selection_text (ep_hide_proxy_ip (gw_paths s)) entries m)
        ''Enter selection (or 'Q' to quit): '' True))"
  using assms by (simp add: selection_prompt_def act_bind_def)

lemma log_user_passes:
  "lets_in T ip s \<Longrightarrow> \<exists>s'. log_user G ty u r re s = (s', Inr ()) \<and> lets_in T ip s' \<and> dialogue s' = dialogue s"
  by (simp add: log_user_def log_event_run lets_in_log) (simp add: dialogue_def)

lemma existing_totp_completes:
  assumes fits: "\<And>d. chrono_fits (tl_chrono (gl_tracker G)) d" and pass: "lets_in (gl_tracker G) (gh_peer_ip s) s"
    and token: "consume_rate_limit_token (gl_instant G) (gw_instants s) (gw_limiter s) (gh_peer_ip s) nm = (l, i, Inr ())"
    and ok: "verify_password_and_optional_totp_constant_time (gl_auth G) (gl_dummy_hash G) (gw_ticks s)
      (gw_users s) nm pw (trim code) = Inr u"
    and u: "\<not> must_enroll u" "user_name u = nm" and entries: "allowed_server_entries (gw_config s) nm = Inr entries"
  shows "\<exists>s'. handle_existing_totp_response G nm pw code s
      = (s', Inr (keyboard_prompt (selection_text (ep_hide_proxy_ip (gw_paths s)) entries None)
          ''Enter selection (or 'Q' to quit): '' True))
    \<and> gh_keyboard_auth_state s' = Some (AwaitSelection (build_pending_context u None))
    \<and> gw_config s' = gw_config s \<and> gh_peer_ip s' = gh_peer_ip s
    \<and> gh_authenticated_username s' = gh_authenticated_username s \<and> lets_in (gl_tracker G) (gh_peer_ip s) s'"
proof -
  let ?T = "gl_tracker G" and ?ip = "gh_peer_ip s"
  obtain s1 where s1: "log_user G ''auth_attempt'' nm AuditSuccess (Some ''received password and totp response'') s
      = (s1, Inr ())" "lets_in ?T ?ip s1" "dialogue s1 = dialogue s"
    using log_user_passes [OF pass] by blast
  let ?s2 = "s1\<lparr>gw_limiter := l, gw_instants := i, gw_ticks := Suc (gw_ticks s)\<rparr>"
  have pass2: "lets_in ?T ?ip ?s2" using s1(2) by (simp add: lets_in_def)
  have "consume_token G nm s1 = (s1\<lparr>gw_limiter := l, gw_instants := i\<rparr>, Inr (Inr ()))"
    using token s1(3) by (simp add: consume_token_def dialogue_def)
  moreover have "check_password_and_totp G (gw_users s1) nm pw (trim code) (s1\<lparr>gw_limiter := l, gw_instants := i\<rparr>)
      = (?s2, Inr (Inr u))"
    using ok s1(3) by (simp add: check_password_and_totp_def dialogue_def)
  moreover obtain s3 where s3: "log_user G ''auth_success'' nm AuditSuccess None ?s2 = (s3, Inr ())"
      "lets_in ?T ?ip s3" "dialogue s3 = dialogue ?s2"
    using log_user_passes [OF pass2] by blast
  moreover obtain s4 where s4: "tracker_record_success ?T ?ip s3 = (s4, Inr ())" "lets_in ?T ?ip s4"
    using success_passes [OF fits s3(2)] by blast
  moreover have d4: "dialogue s4 = dialogue s3"
    using keeps_run [OF keeps_tracker_record_success [OF dialogue_tracker] refl s4(1)] .
  moreover obtain s5 where s5: "log_user G ''auth_totp'' nm AuditSuccess None s4 = (s5, Inr ())"
      "lets_in ?T ?ip s5" "dialogue s5 = dialogue s4"
    using log_user_passes [OF s4(2)] by blast
  ultimately have "handle_existing_totp_response G nm pw code s
      = advance_after_initial_auth G (build_pending_context u None) (password_policy_of (gw_config s)) s5"
    using s1(1,3) u
    by (simp add: handle_existing_totp_response_def act_bind_def act_then_def act_get_def dialogue_def must_enroll_def)
  also have "\<dots> = (s5\<lparr>gh_keyboard_auth_state := Some (AwaitSelection (build_pending_context u None))\<rparr>,
      Inr (keyboard_prompt (selection_text (ep_hide_proxy_ip (gw_paths s)) entries None)
          ''Enter selection (or 'Q' to quit): '' True))"
    using s1(3) s3(3) d4 s5(3) u entries
    by (simp add: advance_after_initial_auth_def build_pending_context_def must_enroll_def set_auth_state_run
        menu_shown dialogue_def)
  finally show ?thesis
    using s1(3) s3(3) d4 s5(2,3) by (simp add: dialogue_def lets_in_gateway)
qed


lemma selected_index_show:
  "k < length entries \<Longrightarrow> Suc k < usize_limit \<Longrightarrow> selected_index (show_nat (Suc k)) entries = Some k"
  by (simp add: selected_index_def parse_show_nat)

lemma show_nat_utf8: "from_utf8_lossy (show_nat n) = show_nat n"
  using show_nat_digits [of n] by (intro from_utf8_lossy_ascii) (auto simp: list_all_iff is_digit_def is_ascii_def)

lemma show_nat_not_quit: "\<not> eq_ignore_ascii_case (show_nat n) ''q''"
proof
  assume "eq_ignore_ascii_case (show_nat n) ''q''"
  then have "to_ascii_lower_byte (hd (show_nat n)) = to_ascii_lower_byte (CHR ''q'')"
    by (cases "show_nat n") (auto simp: eq_ignore_ascii_case_def to_ascii_lowercase_def)
  then show False
    using show_nat_hd_digit [of n]
    by (auto simp: to_ascii_lower_byte_def is_digit_def byte_val_def byte_of_def split: if_splits)
qed

definition valid_login :: "'d gateway_libs \<Rightarrow> 'z session_scheme \<Rightarrow> string \<Rightarrow> string \<Rightarrow> string \<Rightarrow> (string \<times> string) list \<Rightarrow> bool" where
  \<comment> \<open>a client whose address is not banned and not over its rate, an account with a password and
    a TOTP secret whose password and current code are given, and a menu that is not empty\<close>
  "valid_login G s nm pw code entries \<longleftrightarrow>
     lets_in (gl_tracker G) (gh_peer_ip s) s \<and> gh_authenticated_username s = None
     \<and> distinct (map user_name (gw_users s)) \<and> nm \<noteq> [] \<and> trim nm = nm
     \<and> (\<exists>l i. consume_rate_limit_token (gl_instant G) (gw_instants s) (gw_limiter s) (gh_peer_ip s) nm = (l, i, Inr ()))
     \<and> (\<exists>u\<in>set (gw_users s). user_name u = nm \<and> \<not> user_must_change_password u
          \<and> al_parse_hash (gl_auth G) (user_password u) = Inr () \<and> al_verify (gl_auth G) pw (user_password u)
          \<and> (\<exists>secret. user_totp_secret u = Some secret \<and> code_accepted (gl_auth G) (gw_ticks s) secret (trim code)))
     \<and> allowed_server_entries (gw_config s) nm = Inr entries"

lemma login_run:
  assumes fits: "\<And>d. chrono_fits (tl_chrono (gl_tracker G)) d" and valid: "valid_login G s nm pw code entries"
    and utf8: "from_utf8_lossy pw = pw" "from_utf8_lossy code = code"
    and k: "k < length entries" "Suc k < usize_limit"
  obtains s1 s2 s3 s4 where
    "auth_keyboard_interactive G nm None s = (s1, Inr password_prompt)"
    "auth_keyboard_interactive G nm (Some [pw]) s1 = (s2, Inr (totp_prompt None))"
    "auth_keyboard_interactive G nm (Some [code]) s2
       = (s3, Inr (keyboard_prompt (selection_text (ep_hide_proxy_ip (gw_paths s)) entries None)
           ''Enter selection (or 'Q' to quit): '' True))"
    "auth_keyboard_interactive G nm (Some [show_nat (Suc k)]) s3 = (s4, Inr AuthAccept)"
    "gh_authenticated_username s4 = Some nm"
    "gh_pending_target s4 = Some \<lparr>st_name = fst (entries ! k), st_host = snd (entries ! k)\<rparr>"
proof -
  let ?T = "gl_tracker G" and ?ip = "gh_peer_ip s"
  from valid obtain u secret l i where pass: "lets_in ?T ?ip s" and no: "gh_authenticated_username s = None"
    and names: "distinct (map user_name (gw_users s))" and nm: "nm \<noteq> []" "trim nm = nm"
    and token: "consume_rate_limit_token (gl_instant G) (gw_instants s) (gw_limiter s) ?ip nm = (l, i, Inr ())"
    and u: "u \<in> set (gw_users s)" "user_name u = nm" "\<not> user_must_change_password u" "user_totp_secret u = Some secret"
    and pw: "al_parse_hash (gl_auth G) (user_password u) = Inr ()" "al_verify (gl_auth G) pw (user_password u)"
    and code: "code_accepted (gl_auth G) (gw_ticks s) secret (trim code)"
    and entries: "allowed_server_entries (gw_config s) nm = Inr entries"
    unfolding valid_login_def by blast
  have found: "find_user_record (gw_config s) nm = Some u"
    using u(1,2) find_Some_distinct_iff [OF names] by (simp add: find_user_record_def)
  have ok: "verify_password_and_optional_totp_constant_time (gl_auth G) (gl_dummy_hash G) (gw_ticks s)
      (gw_users s) nm pw (trim code) = Inr u"
    using password_verified [OF names, of "gl_auth G" "gl_dummy_hash G" nm pw u] u pw code
    by (simp add: verify_password_and_optional_totp_constant_time_def verify_totp_code_iff)
  have start: "starts_over x None" for x by (simp add: starts_over_def)
  have go: "\<not> starts_over (Some x) (Some ys)" for x ys by (simp add: starts_over_def)
  obtain t1 where t1: "dialogue t1 = dialogue s" "lets_in ?T ?ip t1"
      "auth_keyboard_interactive G nm None s
        = (t1\<lparr>gh_keyboard_auth_state := Some (AwaitPassword nm)\<rparr>, Inr password_prompt)"
    using answer_passes [OF fits pass no, of nm None] nm start by (metis (no_types))
  let ?s1 = "t1\<lparr>gh_keyboard_auth_state := Some (AwaitPassword nm)\<rparr>"
  have "lets_in ?T (gh_peer_ip ?s1) ?s1" "gh_authenticated_username ?s1 = None"
    using t1(1,2) no by (simp_all add: lets_in_gateway dialogue_def)
  from answer_passes [OF fits this, of nm "Some [pw]"] obtain t2 where
      t2: "dialogue t2 = dialogue ?s1" "lets_in ?T ?ip t2"
      "auth_keyboard_interactive G nm (Some [pw]) ?s1
        = handle_password_response G nm pw (t2\<lparr>gh_keyboard_auth_state := None\<rparr>)"
    using t1(1) nm go utf8 by (auto simp: dispatch_response_def answers_def dialogue_def)
  let ?s2 = "t2\<lparr>gh_keyboard_auth_state := Some (AwaitExistingTotp nm pw)\<rparr>"
  have r2: "auth_keyboard_interactive G nm (Some [pw]) ?s1 = (?s2, Inr (totp_prompt None))"
    using t2 t1(1) found u
    by (simp add: handle_password_response_def dialogue_def should_prompt_existing_totp_def set_auth_state_run)
  have "lets_in ?T (gh_peer_ip ?s2) ?s2" "gh_authenticated_username ?s2 = None"
    using t1(1) t2(1,2) no by (simp_all add: lets_in_gateway dialogue_def)
  from answer_passes [OF fits this, of nm "Some [code]"] obtain t3 where
      t3: "dialogue t3 = dialogue ?s2" "lets_in ?T ?ip t3"
      "auth_keyboard_interactive G nm (Some [code]) ?s2
        = handle_existing_totp_response G nm pw code (t3\<lparr>gh_keyboard_auth_state := None\<rparr>)"
    using t1(1) t2(1) nm go utf8 by (auto simp: dispatch_response_def answers_def dialogue_def)
  obtain s3 where s3: "handle_existing_totp_response G nm pw code (t3\<lparr>gh_keyboard_auth_state := None\<rparr>)
      = (s3, Inr (keyboard_prompt (selection_text (ep_hide_proxy_ip (gw_paths s)) entries None)
          ''Enter selection (or 'Q' to quit): '' True))"
      "gh_keyboard_auth_state s3 = Some (AwaitSelection (build_pending_context u None))"
      "gw_config s3 = gw_config s" "gh_peer_ip s3 = ?ip" "gh_authenticated_username s3 = None" "lets_in ?T ?ip s3"
    using existing_totp_completes [OF fits, of "t3\<lparr>gh_keyboard_auth_state := None\<rparr>" nm l i pw code u entries]
      t1(1) t2(1) t3(1,2) token ok u entries no
    by (auto simp: dialogue_def lets_in_gateway must_enroll_def)
  have "lets_in ?T (gh_peer_ip s3) s3" using s3(4,6) by simp
  from answer_passes [OF fits this s3(5), of nm "Some [show_nat (Suc k)]"] obtain t4 where
      t4: "dialogue t4 = dialogue s3"
      "auth_keyboard_interactive G nm (Some [show_nat (Suc k)]) s3
        = handle_selection_response G (build_pending_context u None) (show_nat (Suc k)) (t4\<lparr>gh_keyboard_auth_state := None\<rparr>)"
    using nm go s3(2) by (simp add: dispatch_response_def answers_def show_nat_utf8 del: show_nat.simps) blast
  have "handle_selection_response G (build_pending_context u None) (show_nat (Suc k)) (t4\<lparr>gh_keyboard_auth_state := None\<rparr>)
    = (t4\<lparr>gh_keyboard_auth_state := None, gh_pending_target := Some \<lparr>st_name = fst (entries ! k), st_host = snd (entries ! k)\<rparr>,
         gh_authenticated_username := Some nm\<rparr>, Inr AuthAccept)"
    using t4(1) s3(3) entries u k
    by (simp add: handle_selection_run Let_def build_pending_context_def dialogue_def show_nat_not_quit selected_index_show)
  with that [OF t1(3) r2] t3(3) s3(1) t4(2) show ?thesis by simp
qed


text \<open>
  C7: A valid login always completes.  For a client whose address is not banned and not over
  its rate, the password prompt, the password of an enrolled account, its current code and the
  number of a line of the menu lead in four calls to acceptance, with the account and the
  target of that line recorded; no file system failure and no state of the ban table prevents it.
\<close>
theorem valid_login_completes:
  assumes fits: "\<And>d. chrono_fits (tl_chrono (gl_tracker G)) d" and valid: "valid_login G s nm pw code entries"
    and utf8: "from_utf8_lossy pw = pw" "from_utf8_lossy code = code"
    and k: "k < length entries" "Suc k < usize_limit"
  shows "\<exists>s1 s2 s3 s4. auth_keyboard_interactive G nm None s = (s1, Inr password_prompt)
    \<and> auth_keyboard_interactive G nm (Some [pw]) s1 = (s2, Inr (totp_prompt None))
    \<and> auth_keyboard_interactive G nm (Some [code]) s2
       = (s3, Inr (keyboard_prompt (selection_text (ep_hide_proxy_ip (gw_paths s)) entries None)
           ''Enter selection (or 'Q' to quit): '' True))
    \<and> auth_keyboard_interactive G nm (Some [show_nat (Suc k)]) s3 = (s4, Inr AuthAccept)
    \<and> gh_authenticated_username s4 = Some nm
    \<and> gh_pending_target s4 = Some \<lparr>st_name = fst (entries ! k), st_host = snd (entries ! k)\<rparr>"
  by (rule login_run [OF assms]) blast

subsection \<open>Instances\<close>

definition still_libs :: "string gateway_libs" where
  \<comment> \<open>an instance of the parameters, for the witnesses: no time passes\<close>
  "still_libs = sample_gateway_libs\<lparr>gl_instant := \<lambda>_. 0\<rparr>"

definition sample_client :: session where
  "sample_client = new_client sample_gateway (Some (V4 [10, 0, 0, 1], 22)) ''id''"

lemma fresh_limiter_grants:
  "\<exists>l i. consume_rate_limit_token (\<lambda>_. 0) n \<lparr>rl_rate_limits = [], rl_ip_rate_limits = []\<rparr> ip u = (l, i, Inr ())"
proof -
  have "f_le (as_secs_f64 0) (Fin 0)" 
    using f64_of_nat [of 0] f64_of_nat [of nanos_per_sec] by (simp add: as_secs_f64_def nanos_per_sec_def)
  then show ?thesis
    by (auto simp: consume_rate_limit_token_def consume_ip_rate_limit_token_def consume_bucket_token_def
      prune_buckets_def hm_get_def hm_contains_def hm_retain_def new_bucket_def consume_one_def refill_def
      rate_limit_max_entries_def user_rate_limit_capacity_def ip_rate_limit_capacity_def Let_def)
qed

lemma sample_client_valid: "valid_login still_libs sample_client ''bob'' ''pw'' ''123456'' [(''web'', ''10.0.0.5'')]"
proof -
  have trim: "trim ''bob'' = ''bob''" "trim ''123456'' = ''123456''" by code_simp+
  show ?thesis
    using fresh_limiter_grants
    by (simp add: valid_login_def sample_client_def still_libs_def new_client_def gateway.defs session.defs
        sample_gateway_def lets_in_def active_ban_def hm_get_def hm_wf_def sample_config_def sample_user_def
        sample_auth_def code_accepted_def trim allowed_server_entries_def find_user_record_def sample_servers_def
        apply_runtime_overrides_def sample_paths_def)
qed

lemma still_libs_fit: "chrono_fits (tl_chrono (gl_tracker still_libs)) d"
  by (simp add: still_libs_def sample_tracker_libs_def sample_chrono_ok)


lemma sample_answers:
  "from_utf8_lossy ''pw'' = ''pw''" "from_utf8_lossy ''123456'' = ''123456''" "Suc 0 < usize_limit"
  by code_simp (code_simp, simp add: usize_limit_def)

lemma valid_login_completes_witness:
  "\<exists>(s3 :: session) s4. auth_keyboard_interactive still_libs ''bob'' (Some [show_nat (Suc 0)]) s3 = (s4, Inr AuthAccept)
    \<and> gh_pending_target s4 = Some \<lparr>st_name = ''web'', st_host = ''10.0.0.5''\<rparr>"
proof -
  have "0 < length [(''web'', ''10.0.0.5'')]" by simp
  from valid_login_completes [OF still_libs_fit sample_client_valid sample_answers(1,2) this sample_answers(3)]
  obtain s3 s4 :: session where "auth_keyboard_interactive still_libs ''bob'' (Some [show_nat (Suc 0)]) s3 = (s4, Inr AuthAccept)"
    "gh_pending_target s4 = Some \<lparr>st_name = fst ([(''web'', ''10.0.0.5'')] ! 0), st_host = snd ([(''web'', ''10.0.0.5'')] ! 0)\<rparr>"
    by (elim exE conjE) (rule that; assumption)
  then show ?thesis by (intro exI conjI) (assumption, simp)
qed

lemma sample_client_start: "login_start (sample_client, \<lparr>lh_responses = [], lh_snapshots = []\<rparr>)"
proof -
  have "distinct (map user_name (gw_users sample_gateway))"
    by (simp add: sample_gateway_def sample_config_def apply_runtime_overrides_def)
  then show ?thesis unfolding login_start_def sample_client_def by blast
qed

lemma login_answered:
  "reach login_start (login_step G) (s, h) \<Longrightarrow> auth_keyboard_interactive G user response s = (s', r)
   \<Longrightarrow> reach login_start (login_step G) (s', seen h s response)"
  by (erule reach_step) (rule login_step.answer)

lemma accept_needs_both_factors_witness:
  "\<exists>s h s'. reach login_start (login_step still_libs) (s, h)
    \<and> auth_keyboard_interactive still_libs ''bob'' (Some [show_nat (Suc 0)]) s = (s', Inr AuthAccept)
    \<and> admitted (gl_auth still_libs) (seen h s (Some [show_nat (Suc 0)])) ''bob''"
proof -
  have one: "0 < length [(''web'', ''10.0.0.5'')]" by simp
  obtain s1 s2 s3 s4 r2 r3 where run:
    "auth_keyboard_interactive still_libs ''bob'' None sample_client = (s1, Inr password_prompt)"
    "auth_keyboard_interactive still_libs ''bob'' (Some [''pw'']) s1 = (s2, r2)"
    "auth_keyboard_interactive still_libs ''bob'' (Some [''123456'']) s2 = (s3, r3)"
    "auth_keyboard_interactive still_libs ''bob'' (Some [show_nat (Suc 0)]) s3 = (s4, Inr AuthAccept)"
    "gh_authenticated_username s4 = Some ''bob''"
    by (rule login_run [OF still_libs_fit sample_client_valid sample_answers(1,2) one sample_answers(3)])
      (rule that; assumption)
  obtain h where r: "reach login_start (login_step still_libs) (s3, h)"
    by (rule that [OF login_answered [OF login_answered [OF login_answered [OF reach_init [where init = login_start, OF sample_client_start]]]]])
      (rule run(1-3))+
  obtain nm where "Some ''bob'' = Some nm" "admitted (gl_auth still_libs) (seen h s3 (Some [show_nat (Suc 0)])) nm"
    using accept_needs_both_factors [OF r run(4), unfolded run(5)] by (elim exE conjE) (rule that)
  then have "admitted (gl_auth still_libs) (seen h s3 (Some [show_nat (Suc 0)])) ''bob''"
    by (simp only: option.inject)
  with r run(4) show ?thesis by (intro exI conjI)
qed

end
