(* ===== verification/Login_Refusals.thy ===== *)
theory Login_Refusals
  imports Login_Progress
begin

text \<open>
  What the dialogue does to a client it does not let in: a banned address, a method other than
  keyboard-interactive, and refused credentials.
\<close>

subsection \<open>Banned addresses\<close>

definition banned_now :: "tracker_libs \<Rightarrow> ip_addr \<Rightarrow> 'z tracker_scheme \<Rightarrow> bool" where
  \<comment> \<open>a ban of the address in force at the next two readings of the clock\<close>
  "banned_now T ip s \<longleftrightarrow> fs_enabled (tr_settings s) \<and> \<not> is_whitelisted (tl_net T) (tr_settings s) ip
     \<and> (\<forall>n\<in>{tr_readings s, Suc (tr_readings s)}. active_ban (tr_core s) ip (tl_utc T n) \<noteq> None)"

lemma check_banned:
  assumes fits: "\<And>d. chrono_fits (tl_chrono T) d" and "fs_enabled (tr_settings s)"
    "\<not> is_whitelisted (tl_net T) (tr_settings s) ip" "active_ban (tr_core s) ip (tl_utc T (tr_readings s)) \<noteq> None"
  shows "\<exists>s' r. tracker_check_ip T ip s = (s', Inr r) \<and> pc_banned r"
proof -
  obtain s' r where run: "tracker_check_ip T ip s = (s', Inr r)" using tracker_check_ip_total [OF fits] by blast
  obtain core where c: "check_ip (tl_chrono T) (tl_net T) (tr_core s) ip (tl_utc T (tr_readings s)) (tr_settings s) = (core, Some r)"
    by (rule tracker_check_ip_run [OF run])
  have "pc_banned r" using assms(2-4) check_ip_guarded(2) [OF _ _ c] by simp
  with run show ?thesis by blast
qed

lemma policy_blocks:
  assumes fits: "\<And>d. chrono_fits (tl_chrono (gl_tracker G)) d"
    and ban: "banned_now (gl_tracker G) (gh_peer_ip s) s"
  shows "\<exists>s1. enforce_pre_auth_policy G am s = (s1, Inr (Some reject_to_keyboard_interactive)) \<and> dialogue s1 = dialogue s"
proof -
  obtain s1 where s1: "log_connection_opened_once G s = (s1, Inr ())" "tr_core s1 = tr_core s"
      "tr_readings s1 \<in> {tr_readings s, Suc (tr_readings s)}"
    by (cases "gh_connection_logged s") (simp_all add: log_connection_opened_once_def log_event_run)
  have same: "dialogue s1 = dialogue s"
    using keeps_run [OF keeps_bookkeeping(5) [OF dialogue_frame] refl s1(1)] .
  then obtain s2 r where s2: "tracker_check_ip (gl_tracker G) (gh_peer_ip s) s1 = (s2, Inr r)" "pc_banned r"
    using check_banned [OF fits, of s1 "gh_peer_ip s"] ban s1(2,3) by (auto simp: banned_now_def dialogue_def)
  have log: "\<exists>s'. act_when b (log_event G ty u t m res reason dur un) s = (s', Inr ())"
      for b ty u t m res reason dur un and s :: "'b session_scheme"
    by (cases b) (simp_all add: log_event_run)
  have "\<exists>s'. handle_pre_auth_check G am r s2 = (s', Inr (Some reject_to_keyboard_interactive))"
  proof -
    obtain s3 where "act_when (pc_expired_ban r) (log_event G ''ban_expired'' None None (Some am) AuditSuccess
        (Some ''active ban expired'') (pc_ban_duration r) (pc_ban_until r)) s2 = (s3, Inr ())"
      using log by blast
    moreover obtain s4 where "act_when (pc_whitelisted r \<and> pc_had_state r) (log_event G ''whitelist_bypass'' None None
        (Some am) AuditSuccess (Some ''fail2ban bypassed for whitelisted IP'') None None) s3 = (s4, Inr ())"
      using log by blast
    ultimately show ?thesis
      using s2(2) by (simp add: handle_pre_auth_check_def act_bind_def act_then_def log_event_run)
  qed
  then obtain s' where "enforce_pre_auth_policy G am s = (s', Inr (Some reject_to_keyboard_interactive))"
    using s1(1) s2(1) same
    by (auto simp: enforce_pre_auth_policy_def act_bind_def act_then_def act_get_def dialogue_def)
  with keeps_run [OF keeps_bookkeeping(7) [OF dialogue_frame] refl this] show ?thesis by blast
qed

text \<open>
  C8: A banned address gets nowhere.  While a ban of its address is in force, every
  authentication call, whatever the method, the user name and the response, is answered with a
  refusal, and neither the dialogue nor the configuration, the rate limiter, the clock of the
  codes or the proxied connection change: no password is checked and no token is spent.
\<close>
theorem banned_address_rejected:
  assumes fits: "\<And>d. chrono_fits (tl_chrono (gl_tracker G)) d"
    and ban: "banned_now (gl_tracker G) (gh_peer_ip s) s"
    and call: "m \<in> {auth_none G, auth_publickey G, auth_password G, auth_keyboard_interactive G user response}"
  shows "\<exists>s'. m s = (s', Inr reject_to_keyboard_interactive) \<and> dialogue s' = dialogue s"
proof -
  have "\<exists>s'. refuse_method G am s = (s', Inr reject_to_keyboard_interactive) \<and> dialogue s' = dialogue s" for am
    using policy_blocks [OF fits ban, of am] by (auto simp: refuse_method_def act_bind_def)
  moreover obtain s1 where "enforce_pre_auth_policy G ''keyboard_interactive'' s
      = (s1, Inr (Some reject_to_keyboard_interactive))" "dialogue s1 = dialogue s"
    using policy_blocks [OF fits ban] by blast
  then have "auth_keyboard_interactive G user response s = (s1, Inr reject_to_keyboard_interactive)
      \<and> dialogue s1 = dialogue s"
    by (simp add: keyboard_run)
  ultimately show ?thesis using call by (auto simp: auth_none_def auth_publickey_def auth_password_def)
qed

definition banned_client :: session where
  "banned_client = sample_client\<lparr>tr_core := [(gh_peer_ip sample_client, banned_entry)]\<rparr>"

lemma banned_address_rejected_witness:
  "snd (auth_keyboard_interactive still_libs ''bob'' (Some [''pw'']) banned_client) = Inr reject_to_keyboard_interactive"
proof -
  have "banned_now (gl_tracker still_libs) (gh_peer_ip banned_client) banned_client"
    by (simp add: banned_now_def banned_client_def sample_client_def new_client_def gateway.defs session.defs
        sample_gateway_def still_libs_def sample_tracker_libs_def strict_settings_def default_fail2ban_settings_def
        is_whitelisted_def default_whitelist_def sample_libs_def active_ban_def hm_get_def banned_entry_def from_secs_def nanos_per_sec_def)
  from banned_address_rejected [OF still_libs_fit this, of _ "''bob''" "Some [''pw'']"] show ?thesis by fastforce
qed

subsection \<open>Other methods\<close>

text \<open>
  Trying a method costs nothing.  A client that may log in and first tries the methods
  none, publickey or password is refused with keyboard-interactive as the way to go on, its
  dialogue and its rate are untouched, and it may still log in afterwards.
\<close>
theorem probing_is_harmless:
  assumes fits: "\<And>d. chrono_fits (tl_chrono (gl_tracker G)) d"
    and pass: "lets_in (gl_tracker G) (gh_peer_ip s) s"
    and call: "m \<in> {auth_none G, auth_publickey G, auth_password G}"
  shows "\<exists>s'. m s = (s', Inr reject_to_keyboard_interactive) \<and> dialogue s' = dialogue s
    \<and> lets_in (gl_tracker G) (gh_peer_ip s') s'"
proof -
  have "\<exists>s'. refuse_method G am s = (s', Inr reject_to_keyboard_interactive) \<and> dialogue s' = dialogue s
      \<and> lets_in (gl_tracker G) (gh_peer_ip s') s'" for am
  proof -
    obtain s1 where s1: "enforce_pre_auth_policy G am s = (s1, Inr None)" "dialogue s1 = dialogue s"
        "lets_in (gl_tracker G) (gh_peer_ip s) s1"
      using policy_passes [OF fits pass] by blast
    then have "gh_peer_ip s1 = gh_peer_ip s" by (simp add: dialogue_def)
    with s1 show ?thesis
      by (simp add: refuse_method_def act_bind_def act_then_def log_event_run lets_in_log)
        (simp add: dialogue_def)
  qed
  then show ?thesis using call by (auto simp: auth_none_def auth_publickey_def auth_password_def)
qed

lemma probing_is_harmless_witness:
  "snd (auth_none still_libs sample_client) = Inr reject_to_keyboard_interactive"
proof -
  have "lets_in (gl_tracker still_libs) (gh_peer_ip sample_client) sample_client"
    using sample_client_valid by (simp add: valid_login_def)
  from probing_is_harmless [OF still_libs_fit this, of "auth_none still_libs"] show ?thesis by auto
qed

subsection \<open>Refused credentials\<close>

definition failure_counted :: "'d gateway_libs \<Rightarrow> abuse_core \<Rightarrow> fail2ban_settings \<Rightarrow> ip_addr \<Rightarrow> 'z session_scheme \<Rightarrow> bool" where
  \<comment> \<open>the core is the given one with one more failure of the address, as saved or not\<close>
  "failure_counted G core settings ip s \<longleftrightarrow> (\<exists>user now core' out.
     record_failure (tl_chrono (gl_tracker G)) (tl_net (gl_tracker G)) core ip user None now settings = (core', Some out)
     \<and> (if fs_persist_state settings then \<exists>now'. tr_core s = fst (snapshot_for_persistence (tl_chrono (gl_tracker G)) core' now' settings)
        else tr_core s = core'))"

definition before :: "abuse_core \<Rightarrow> fail2ban_settings \<Rightarrow> ip_addr \<Rightarrow> 'z session_scheme \<Rightarrow> bool" where
  "before core settings ip s \<longleftrightarrow> tr_core s = core \<and> tr_settings s = settings \<and> gh_peer_ip s = ip"

lemma before_keeps:
  "keeps (before c st ip) (log_event G ty u t m res reason dur un)" "keeps (before c st ip) (log_user G ty' u' res reason)"
  "keeps (before c st ip) (set_auth_state k)" "keeps (before c st ip) (consume_token G u')"
  "keeps (before c st ip) (check_totp_code G sec code)" "keeps (before c st ip) (check_password_and_totp G us u' pw code)"
  by (auto simp: keeps_def before_def log_user_def log_event_run set_auth_state_def consume_token_def check_totp_code_def
      check_password_and_totp_def split: prod.split)

lemma counted_keeps:
  "keeps (failure_counted G c st ip) (log_event G ty u t m res reason dur un)"
  "keeps (failure_counted G c st ip) (apply_failure_outcome G out u' t m)"
proof -
  show *: "keeps (failure_counted G c st ip) (log_event G ty u t m res reason dur un)"
    for ty u t m res reason dur un
    by (simp add: keeps_def log_event_run failure_counted_def)
  show "keeps (failure_counted G c st ip) (apply_failure_outcome G out u' t m)"
    unfolding apply_failure_outcome_def log_ban_event_def by (intro keeps_intros *)
qed

lemma count_failure_counts:
  "triple (before c st ip) (count_failure G u) (\<lambda>_. failure_counted G c st ip) (\<lambda>_. True)"
  unfolding triple_def
proof (intro allI impI)
  fix s s' r assume b: "before c st ip s" and run: "count_failure G u s = (s', r)"
  show "case r of Inl x \<Rightarrow> True | Inr x \<Rightarrow> failure_counted G c st ip s'"
  proof (cases r)
    case (Inr x)
    with run b obtain s1 out where s1: "tracker_record_failure (gl_tracker G) ip u None s = (s1, Inr out)"
        "apply_failure_outcome G out u None keyboard_method s1 = (s', Inr x)"
      by (auto simp: count_failure_def act_bind_def act_get_def before_def split: prod.splits sum.splits)
    obtain core s0 where rec: "record_failure (tl_chrono (gl_tracker G)) (tl_net (gl_tracker G)) (tr_core s) ip u None
        (tl_utc (gl_tracker G) (tr_readings s)) (tr_settings s) = (core, Some out)"
      "s0 = s\<lparr>tr_readings := Suc (tr_readings s), tr_core := core\<rparr>"
      "persist_if_enabled (gl_tracker G) (tr_settings s) s0 = (s1, Inr ())"
      by (rule tracker_record_failure_run [OF s1(1)])
    have "failure_counted G c st ip s1"
      unfolding failure_counted_def
      using rec(1,2) b persist_core [OF rec(3)]
      by (intro exI [of _ u] exI [of _ "tl_utc (gl_tracker G) (tr_readings s)"] exI [of _ core] exI [of _ out])
        (auto simp: before_def)
    with keeps_run [OF counted_keeps(2) _ s1(2)] Inr show ?thesis by simp
  qed simp
qed

definition counts :: "'d gateway_libs \<Rightarrow> ('z session_scheme, auth_reply) act \<Rightarrow> bool" where
  \<comment> \<open>an action whose refusals are counted\<close>
  "counts G m \<longleftrightarrow> (\<forall>c st ip. triple (before c st ip) m
     (\<lambda>r s. r = reject_to_keyboard_interactive \<longrightarrow> failure_counted G c st ip s) (\<lambda>_. True))"

named_theorems counts_intros \<open>actions whose refusals are counted\<close>

lemma triple_keeps: "keeps P m \<Longrightarrow> triple P m (\<lambda>_. P) (\<lambda>_. True)"
  by (auto simp: triple_def split: sum.split intro: keeps_run)

lemma counts_then [counts_intros]:
  "(\<And>c st ip. keeps (before c st ip) m) \<Longrightarrow> counts G n \<Longrightarrow> counts G (act_then m n)"
  unfolding counts_def by (blast intro: triple_then triple_keeps)

lemma counts_bind [counts_intros]:
  "(\<And>c st ip. keeps (before c st ip) m) \<Longrightarrow> (\<And>x. counts G (f x)) \<Longrightarrow> counts G (act_bind m f)"
  unfolding counts_def by (blast intro: triple_bind triple_keeps)

lemma counts_failure [counts_intros]:
  "counts G (act_then (count_failure G u) (act_return r))"
  unfolding counts_def
  by (intro allI, rule triple_then [OF count_failure_counts]) (simp add: triple_def)

lemma counts_cases [counts_intros]:
  "counts G m \<Longrightarrow> counts G n \<Longrightarrow> counts G (if b then m else n)"
  "counts G m \<Longrightarrow> (\<And>y. counts G (f y)) \<Longrightarrow> counts G (case x of None \<Rightarrow> m | Some y \<Rightarrow> f y)"
  "(\<And>e. counts G (g e)) \<Longrightarrow> (\<And>y. counts G (f' y)) \<Longrightarrow> counts G (case r of Inl e \<Rightarrow> g e | Inr y \<Rightarrow> f' y)"
  by (auto split: option.split sum.split)

lemma counts_never: "yields (\<lambda>r. r \<noteq> reject_to_keyboard_interactive) m \<Longrightarrow> counts G m"
  unfolding counts_def triple_def yields_def by (auto split: sum.split)


lemmas counts_rules = counts_intros before_keeps keeps_basic

lemma never_rejects:
  "yields (\<lambda>r. r \<noteq> reject_to_keyboard_interactive) (start_enrollment G context)"
  "yields (\<lambda>r. r \<noteq> reject_to_keyboard_interactive) (act_bind (selection_prompt G u m) act_io)"
  "yields (\<lambda>r. r \<noteq> reject_to_keyboard_interactive) (advance_after_initial_auth G context policy)"
  "yields (\<lambda>r. r \<noteq> reject_to_keyboard_interactive) (finish_enrollment G context secret)"
  "yields (\<lambda>r. r \<noteq> reject_to_keyboard_interactive) (handle_new_password_response context policy response)"
  "yields (\<lambda>r. r \<noteq> reject_to_keyboard_interactive) (handle_confirm_password_response G context policy candidate response)"
  "yields (\<lambda>r. r \<noteq> reject_to_keyboard_interactive) (handle_selection_response G context response)"
proof -
  note prompts = keyboard_prompt_def reject_to_keyboard_interactive_def enrollment_prompt_def new_password_prompt_def
    confirm_password_prompt_def
  show start: "yields (\<lambda>r. r \<noteq> reject_to_keyboard_interactive) (start_enrollment G ctx)" for ctx
    unfolding start_enrollment_def Let_def by (intro yields_intros) (simp add: prompts)
  show menu: "yields (\<lambda>r. r \<noteq> reject_to_keyboard_interactive) (act_bind (selection_prompt G u m) act_io)" for u m
  proof (rule yields_bind_result)
    show "yields (\<lambda>r. \<forall>x. r = Inr x \<longrightarrow> x \<noteq> reject_to_keyboard_interactive) (selection_prompt G u m)"
      unfolding selection_prompt_def by (intro yields_intros) (simp_all add: prompts)
    show "\<forall>x. r = Inr x \<longrightarrow> x \<noteq> reject_to_keyboard_interactive
        \<Longrightarrow> yields (\<lambda>r. r \<noteq> reject_to_keyboard_interactive) (act_io r)" for r
      by (cases r) (auto simp: yields_def)
  qed
  show "yields (\<lambda>r. r \<noteq> reject_to_keyboard_interactive) (advance_after_initial_auth G context policy)"
    unfolding advance_after_initial_auth_def by (intro yields_intros start menu) (simp add: prompts)
  show "yields (\<lambda>r. r \<noteq> reject_to_keyboard_interactive) (finish_enrollment G context secret)"
    unfolding finish_enrollment_def Let_def by (intro yields_intros menu)
  show "yields (\<lambda>r. r \<noteq> reject_to_keyboard_interactive) (handle_new_password_response context policy response)"
    unfolding handle_new_password_response_def by (intro yields_intros) (simp add: prompts)
  show "yields (\<lambda>r. r \<noteq> reject_to_keyboard_interactive) (handle_confirm_password_response G context policy candidate response)"
    unfolding handle_confirm_password_response_def ask_new_password_def Let_def
    by (intro yields_intros start) (simp_all add: prompts)
  show "yields (\<lambda>r. r \<noteq> reject_to_keyboard_interactive) (handle_selection_response G context response)"
    unfolding handle_selection_response_def Let_def
    by (intro yields_intros menu) (simp add: prompts)
qed

lemma refusals_count:
  "counts G (refuse G u res e)" "counts G (handle_password_response G u pw)"
  "counts G (handle_existing_totp_response G u pw code)" "counts G (handle_enrollment_response G context secret code)"
proof -
  show refuse: "counts G (refuse G u res e)" for u res e
    unfolding refuse_def by (intro counts_rules)
  have totp: "yields (\<lambda>r. r \<noteq> reject_to_keyboard_interactive) (act_return (totp_prompt m))" for m
    by (intro yields_intros) (simp add: totp_prompt_def keyboard_prompt_def reject_to_keyboard_interactive_def)
  show "counts G (handle_password_response G u pw)"
    unfolding handle_password_response_def Let_def
    by (intro counts_rules refuse counts_never [OF never_rejects(3)] counts_never [OF totp])
  have after: "counts G (act_then (log_user G ty u' AuditSuccess None) (act_bind (act_get gh_peer_ip)
      (\<lambda>ip. act_then (tracker_record_success (gl_tracker G) ip) (act_then n (advance_after_initial_auth G c p)))))"
    for ty u' n c p
    by (intro counts_never yields_intros never_rejects)
  show "counts G (handle_existing_totp_response G u pw code)"
    unfolding handle_existing_totp_response_def
    by (intro counts_rules refuse after keeps_when)
  have wrong: "counts G (act_then (count_failure G u') (act_bind (act_io r) (\<lambda>url. act_then (set_auth_state k)
      (act_return (enrollment_prompt G secret url m)))))" for u' k m and r :: "string gw_result"
    by (intro counts_never yields_intros)
      (simp add: enrollment_prompt_def keyboard_prompt_def reject_to_keyboard_interactive_def)
  show "counts G (handle_enrollment_response G context secret code)"
    unfolding handle_enrollment_response_def Let_def
    by (intro counts_rules refuse wrong counts_never [OF never_rejects(4)])
qed

lemma dispatch_counts: "counts G (dispatch_response G state response)"
  by (cases state) (simp_all add: dispatch_response_def refusals_count counts_never never_rejects)

text \<open>
  C9: Every refusal of credentials is counted.  Whenever an answer of the dialogue is refused
  (a wrong password, a wrong code, a rate limit exceeded, a password that no longer fits after
  enrollment), the tracker has recorded one more failure of the address, and nothing else
  happened to the ban table in between; the refusal cannot be had without the failure.
\<close>
theorem refusals_are_counted:
  assumes "dispatch_response G state response s = (s', Inr reject_to_keyboard_interactive)"
  shows "failure_counted G (tr_core s) (tr_settings s) (gh_peer_ip s) s'"
proof -
  have "triple (before (tr_core s) (tr_settings s) (gh_peer_ip s)) (dispatch_response G state response)
    (\<lambda>r s'. r = reject_to_keyboard_interactive \<longrightarrow> failure_counted G (tr_core s) (tr_settings s) (gh_peer_ip s) s') (\<lambda>_. True)"
    using dispatch_counts unfolding counts_def by blast
  from triple_run [OF this _ assms] show ?thesis by (simp add: before_def)
qed


lemma strict_failure_total:
  "\<exists>core out. record_failure sample_chrono sample_libs [] sample_ip (Some ''bob'') None now strict_settings = (core, Some out)"
proof -
  have "compute_ban_duration strict_settings 0 = Some (from_secs 600)"
    using default_backoff_exact [of 0] by (simp add: compute_ban_duration_def strict_settings_def)
  then show ?thesis
    using strict_settings_facts
    by (simp add: record_failure_def Let_def prune_failures_fits sample_chrono_ok note_failure_def
        hm_entry_or_def hm_get_def default_entry_def push_recent_value_def saturating_succ_def)
      (simp add: strict_settings_def sample_chrono_def)
qed

lemma log_total: "\<exists>s'. log_event G ty u t m r re d un s = (s', Inr ()) \<and> before (tr_core s) (tr_settings s) (gh_peer_ip s) s'"
  by (simp add: log_event_run before_def)

lemma outcome_total: "\<exists>s'. apply_failure_outcome G out u t m s = (s', Inr ())"
  by (simp add: apply_failure_outcome_def log_ban_event_def act_then_def act_bind_def log_event_run split: option.split)

lemma count_failure_total:
  assumes fits: "\<And>d. chrono_fits (tl_chrono (gl_tracker G)) d"
    and "record_failure (tl_chrono (gl_tracker G)) (tl_net (gl_tracker G)) (tr_core s) (gh_peer_ip s) u None
      (tl_utc (gl_tracker G) (tr_readings s)) (tr_settings s) = (core, Some out)"
  shows "\<exists>s'. count_failure G u s = (s', Inr ())"
proof -
  obtain s1 where "tracker_record_failure (gl_tracker G) (gh_peer_ip s) u None s = (s1, Inr out)"
    using tracker_record_failure_total [OF fits assms(2)] by blast
  moreover obtain s2 where "apply_failure_outcome G out u None keyboard_method s1 = (s2, Inr ())"
    using outcome_total by blast
  ultimately show ?thesis by (simp add: count_failure_def act_bind_def act_get_def)
qed

lemma wrong_answers_refused:
  assumes fits: "\<And>d. chrono_fits (tl_chrono (gl_tracker G)) d"
    and total: "\<And>now. \<exists>core out. record_failure (tl_chrono (gl_tracker G)) (tl_net (gl_tracker G)) (tr_core s)
      (gh_peer_ip s) (Some nm) None now (tr_settings s) = (core, Some out)"
    and token: "consume_rate_limit_token (gl_instant G) (gw_instants s) (gw_limiter s) (gh_peer_ip s) nm = (l, i, Inr ())"
    and bad: "verify_password_and_optional_totp_constant_time (gl_auth G) (gl_dummy_hash G) (gw_ticks s)
      (gw_users s) nm pw (trim code) = Inl e"
  shows "\<exists>s'. handle_existing_totp_response G nm pw code s = (s', Inr reject_to_keyboard_interactive)"
proof -
  let ?P = "before (tr_core s) (tr_settings s) (gh_peer_ip s)"
  obtain s1 where s1: "log_user G ''auth_attempt'' nm AuditSuccess (Some ''received password and totp response'') s
      = (s1, Inr ())" "?P s1" "dialogue s1 = dialogue s"
    by (simp add: log_user_def log_event_run before_def dialogue_def)
  let ?s2 = "s1\<lparr>gw_limiter := l, gw_instants := i, gw_ticks := Suc (gw_ticks s)\<rparr>"
  have "consume_token G nm s1 = (s1\<lparr>gw_limiter := l, gw_instants := i\<rparr>, Inr (Inr ()))"
    using token s1(3) by (simp add: consume_token_def dialogue_def)
  moreover have "check_password_and_totp G (gw_users s1) nm pw (trim code) (s1\<lparr>gw_limiter := l, gw_instants := i\<rparr>)
      = (?s2, Inr (Inl e))"
    using bad s1(3) by (simp add: check_password_and_totp_def dialogue_def)
  moreover obtain s3 where "log_user G ''auth_failure'' nm AuditFailure (Some (display_error e)) ?s2 = (s3, Inr ())" "?P s3"
    using s1(2) by (simp add: log_user_def log_event_run before_def)
  moreover obtain s4 where s4: "act_when (e \<noteq> TotpInvalid \<and> find_user_record (gw_config s1) nm = None)
      (log_user G ''unknown_username_attempt'' nm AuditFailure (Some ''unknown username'')) s3 = (s4, Inr ())" "?P s4"
    using \<open>?P s3\<close> by (cases "e \<noteq> TotpInvalid \<and> find_user_record (gw_config s1) nm = None")
      (auto simp: log_user_def log_event_run before_def)
  moreover obtain s5 where "count_failure G (Some nm) s4 = (s5, Inr ())"
    using total count_failure_total [OF fits, of s4 "Some nm"] s4(2) unfolding before_def by metis
  ultimately show ?thesis
    using s1(1) by (simp add: handle_existing_totp_response_def act_bind_def act_then_def act_get_def)
qed

definition stranger :: session where
  "stranger = (new_client sample_gateway (Some (sample_ip, 22)) ''id'')\<lparr>tr_settings := strict_settings\<rparr>"

lemma refusals_are_counted_witness:
  "\<exists>s'. dispatch_response still_libs (AwaitExistingTotp ''bob'' ''pw'') ''000000'' stranger
      = (s', Inr reject_to_keyboard_interactive)
    \<and> failure_counted still_libs (tr_core stranger) (tr_settings stranger) (gh_peer_ip stranger) s'"
proof -
  have fields: "tr_core stranger = []" "tr_settings stranger = strict_settings" "gh_peer_ip stranger = sample_ip"
      "gw_limiter stranger = \<lparr>rl_rate_limits = [], rl_ip_rate_limits = []\<rparr>" "gw_users stranger = [sample_user]"
      "tl_chrono (gl_tracker still_libs) = sample_chrono" "tl_net (gl_tracker still_libs) = sample_libs"
      "gl_instant still_libs = (\<lambda>_. 0)" "gl_auth still_libs = sample_auth"
    by (simp_all add: stranger_def new_client_def gateway.defs session.defs sample_gateway_def still_libs_def
        sample_tracker_libs_def sample_config_def apply_runtime_overrides_def)
  have code: "trim ''000000'' = ''000000''" by code_simp
  obtain e where bad: "verify_password_and_optional_totp_constant_time (gl_auth still_libs) (gl_dummy_hash still_libs)
      (gw_ticks stranger) (gw_users stranger) ''bob'' ''pw'' (trim ''000000'') = Inl e"
    using password_verified [of "[sample_user]"] code
    by (simp add: fields verify_password_and_optional_totp_constant_time_def verify_password_constant_time_def
        sample_user_def sample_auth_def verify_totp_code_def build_totp_from_secret_def new_totp_def make_totp_def)
  obtain l i where "consume_rate_limit_token (gl_instant still_libs) (gw_instants stranger) (gw_limiter stranger)
      (gh_peer_ip stranger) ''bob'' = (l, i, Inr ())"
    using fresh_limiter_grants unfolding fields by blast
  note token = this
  have total: "\<exists>core out. record_failure (tl_chrono (gl_tracker still_libs)) (tl_net (gl_tracker still_libs))
      (tr_core stranger) (gh_peer_ip stranger) (Some ''bob'') None now (tr_settings stranger) = (core, Some out)" for now
    unfolding fields by (rule strict_failure_total)
  obtain s' where s': "handle_existing_totp_response still_libs ''bob'' ''pw'' ''000000'' stranger
      = (s', Inr reject_to_keyboard_interactive)"
    using wrong_answers_refused [OF still_libs_fit total token bad] by blast
  then have "dispatch_response still_libs (AwaitExistingTotp ''bob'' ''pw'') ''000000'' stranger
      = (s', Inr reject_to_keyboard_interactive)" by (simp add: dispatch_response_def)
  then show ?thesis using refusals_are_counted by blast
qed

end
