(* ===== verification/Enrollment_Flow.thy ===== *)
theory Enrollment_Flow
  imports Login_Refusals
begin

text \<open>
  Changing the password and enrolling the code during a login: when the new password is taken,
  and what a confirmed code commits.
\<close>

lemma act_io_run:
  "act_bind (act_io r) f s = (case r of Inl e \<Rightarrow> (s, Inl (SshIo (display_error e))) | Inr x \<Rightarrow> f x s)"
  by (cases r) simp_all

lemma start_enrollment_run:
  "start_enrollment G context s =
     (let secret = generate_totp_secret (gl_auth G) (gw_draws s); s1 = s\<lparr>gw_draws := Suc (gw_draws s)\<rparr>
      in case otpauth_url (gl_auth G) ''CentralSSH'' (user_name (pa_user context)) secret of
           Inl e \<Rightarrow> (s1, Inl (SshIo (display_error e)))
         | Inr url \<Rightarrow> (s1\<lparr>gh_keyboard_auth_state := Some (AwaitEnrollmentTotp context secret)\<rparr>,
             Inr (enrollment_prompt G secret url None)))"
  by (simp add: start_enrollment_def act_bind_def [of random_draw] random_draw_def Let_def act_io_run set_auth_state_run
      split: sum.split)

text \<open>
  C13: A new password is taken only if it was repeated exactly and, where the policy is
  enforced, has at least the configured number of bytes (at most 256 being asked), at most 256
  and does not verify against the old hash; without enforcement it must not be empty.  The
  dialogue then goes on to a fresh enrollment with the hash of that password; otherwise it asks
  for a new password again with a reason, and nothing else changes.
\<close>
theorem new_password_checked:
  assumes run: "handle_confirm_password_response G context policy candidate confirmation s = (s', Inr reply)"
  shows "if candidate = confirmation
      \<and> (if pp_enforce policy
         then min (pp_min_length policy) 256 \<le> length candidate \<and> length candidate \<le> 256
           \<and> al_parse_hash (gl_auth G) (user_password (pa_user context)) = Inr ()
           \<and> \<not> al_verify (gl_auth G) candidate (user_password (pa_user context))
         else candidate \<noteq> [])
    then \<exists>hash. hash_password (gl_auth G) (gw_draws s) candidate = Inr hash
      \<and> gh_keyboard_auth_state s' = Some (AwaitEnrollmentTotp (context\<lparr>pa_new_password_hash := Some hash\<rparr>)
          (generate_totp_secret (gl_auth G) (Suc (gw_draws s))))
      \<and> gw_config s' = gw_config s
    else s' = s\<lparr>gh_keyboard_auth_state := Some (AwaitNewPassword context policy)\<rparr>
      \<and> (\<exists>message. reply = new_password_prompt (Some message))"
proof -
  have policy: "enforce_password_policy (gl_auth G) candidate (user_password (pa_user context)) (pp_min_length policy) = Inr ()
    \<longleftrightarrow> min (pp_min_length policy) 256 \<le> length candidate \<and> length candidate \<le> 256
      \<and> al_parse_hash (gl_auth G) (user_password (pa_user context)) = Inr ()
      \<and> \<not> al_verify (gl_auth G) candidate (user_password (pa_user context))"
    by (auto simp: enforce_password_policy_def Let_def split: if_splits)
  have take: "\<exists>hash. hash_password (gl_auth G) (gw_draws s) candidate = Inr hash
      \<and> gh_keyboard_auth_state s' = Some (AwaitEnrollmentTotp (context\<lparr>pa_new_password_hash := Some hash\<rparr>)
          (generate_totp_secret (gl_auth G) (Suc (gw_draws s)))) \<and> gw_config s' = gw_config s"
    if "act_bind random_draw (\<lambda>draw. act_bind (act_io (hash_password (gl_auth G) draw candidate)) (\<lambda>hash.
         start_enrollment G (context\<lparr>pa_new_password_hash := Some hash\<rparr>))) s = (s', Inr reply)"
    using that by (auto simp: act_bind_def [of random_draw] random_draw_def act_io_run start_enrollment_run Let_def
        split: sum.splits)
  show ?thesis
  proof (cases "candidate = confirmation \<and> (if pp_enforce policy then
      enforce_password_policy (gl_auth G) candidate (user_password (pa_user context)) (pp_min_length policy) = Inr ()
      else candidate \<noteq> [])")
    case True
    with run take policy show ?thesis by (simp add: handle_confirm_password_response_def Let_def split: if_splits)
  next
    case False
    with run policy show ?thesis
      by (auto simp: handle_confirm_password_response_def Let_def ask_new_password_def set_auth_state_run
          split: if_splits sum.splits)
  qed
qed

lemma new_password_checked_witness:
  "\<exists>reply s'. handle_confirm_password_response sample_gateway_libs (build_pending_context sample_user None)
      \<lparr>pp_enforce = True, pp_min_length = 4\<rparr> ''secret'' ''secret'' sample_client = (s', Inr reply)
    \<and> gh_keyboard_auth_state s' = Some (AwaitEnrollmentTotp
        ((build_pending_context sample_user None)\<lparr>pa_new_password_hash := Some ''$argon2id$secret''\<rparr>)
        (generate_totp_secret sample_auth 1))"
proof -
  let ?c = "build_pending_context sample_user None" and ?p = "\<lparr>pp_enforce = True, pp_min_length = 4\<rparr>"
  have draws: "gw_draws sample_client = 0"
    by (simp add: sample_client_def new_client_def gateway.defs session.defs sample_gateway_def)
  obtain reply s' where run: "handle_confirm_password_response sample_gateway_libs ?c ?p ''secret'' ''secret'' sample_client
      = (s', Inr reply)"
    by (auto simp: handle_confirm_password_response_def Let_def enforce_password_policy_def build_pending_context_def
        sample_user_def sample_auth_def act_bind_def [of random_draw] random_draw_def act_io_run hash_password_def
        start_enrollment_run otpauth_url_def build_totp_from_secret_def new_totp_def make_totp_def)
  from new_password_checked [OF run] run show ?thesis
    by (auto simp: build_pending_context_def sample_user_def sample_auth_def hash_password_def draws)
qed

subsection \<open>Confirmed codes\<close>

lemma failure_counted_state:
  "failure_counted G c st ip (s\<lparr>gh_keyboard_auth_state := k\<rparr>) = failure_counted G c st ip s"
  by (simp add: failure_counted_def)

lemma config_frames:
  "tracker_frame (\<lambda>t. gw_config t = c)" "log_frame (\<lambda>t. gw_config t = c)" "snapshot_frame (\<lambda>t. gw_config t = c)"
  by (simp_all add: tracker_frame_def log_frame_def snapshot_frame_def)

lemma commit_run:
  assumes "commit_pending_updates G context (Some secret) s = (s', Inr context')"
  shows "\<exists>s1. update_user_credentials G (user_name (pa_user context)) (pa_new_password_hash context)
      (Some secret) (Some False) s = (s1, Inr (Inr ()))
    \<and> gw_config s' = gw_config s1 \<and> context' = context\<lparr>pa_user := committed_user context (Some secret)\<rparr>"
proof -
  let ?nm = "user_name (pa_user context)"
  let ?rest = "act_then (act_when (pa_new_password_hash context \<noteq> None)
        (log_user G ''password_change'' ?nm AuditSuccess None))
      (act_then (act_when (Some secret \<noteq> None) (log_user G ''totp_enrollment'' ?nm AuditSuccess None))
        (act_return (context\<lparr>pa_user := committed_user context (Some secret)\<rparr>)))"
  obtain s1 r where s1: "update_user_credentials G ?nm (pa_new_password_hash context) (Some secret) (Some False) s = (s1, Inr r)"
    and io: "act_bind (act_io r) (\<lambda>_. ?rest) s1 = (s', Inr context')"
    by (rule act_bind_cases [OF assms [unfolded commit_pending_updates_def]]) auto
  from io have r: "r = Inr ()" and rest: "?rest s1 = (s', Inr context')"
    by (auto simp: act_io_run split: sum.splits)
  have kept: "keeps (\<lambda>t. gw_config t = gw_config s1) ?rest" by (intro keeps_intros config_frames)
  have "gw_config s' = gw_config s1" using keeps_run [OF kept refl rest] .
  moreover have "context' = context\<lparr>pa_user := committed_user context (Some secret)\<rparr>"
    using rest by (auto elim!: act_then_cases)
  ultimately show ?thesis using s1 r by blast
qed

lemma menu_keeps_login:
  assumes "act_bind (selection_prompt G nm m) act_io s = (s', r)"
  shows "gw_config s' = gw_config s \<and> gh_keyboard_auth_state s' = gh_keyboard_auth_state s"
proof -
  have "log_frame (\<lambda>t. gw_config t = gw_config s \<and> gh_keyboard_auth_state t = gh_keyboard_auth_state s)"
    by (simp add: log_frame_def tracker_frame_def)
  from keeps_run [OF keeps_bind [OF keeps_bookkeeping(4) [OF this] keeps_act_io] _ assms] show ?thesis by simp
qed

lemma finish_run:
  fixes s :: "'z session_scheme"
  assumes "finish_enrollment G context secret s = (s', Inr reply)"
  shows "\<exists>s1 s2 :: 'z session_scheme. gw_config s1 = gw_config s
    \<and> update_user_credentials G (user_name (pa_user context)) (pa_new_password_hash context)
        (Some secret) (Some False) s1 = (s2, Inr (Inr ())) \<and> gw_config s' = gw_config s2
    \<and> gh_keyboard_auth_state s' = Some (AwaitSelection (context\<lparr>pa_user := committed_user context (Some secret)\<rparr>))"
proof -
  let ?nm = "user_name (pa_user context)" and ?P = "\<lambda>t. gw_config t = gw_config s"
  let ?menu = "\<lambda>c. act_then (set_auth_state (Some (AwaitSelection c))) (act_bind (selection_prompt G ?nm None) act_io)"
  obtain sa where sa: "log_user G ''auth_totp'' ?nm AuditSuccess None s = (sa, Inr ())" "?P sa"
    by (simp add: log_user_def log_event_run)
  let ?tail = "act_bind (commit_pending_updates G context (Some secret)) ?menu"
  have "act_then (tracker_record_success (gl_tracker G) (gh_peer_ip sa)) ?tail sa = (s', Inr reply)"
    using assms sa(1) by (simp add: finish_enrollment_def Let_def act_bind_run)
  then obtain sb where sb: "tracker_record_success (gl_tracker G) (gh_peer_ip sa) sa = (sb, Inr ())"
    and rest: "?tail sb = (s', Inr reply)"
    by (cases rule: act_then_cases) auto
  have "?P sb" using keeps_run [OF keeps_tracker_record_success [OF config_frames(1)] _ sb] sa(2) by blast
  moreover obtain sc context' where sc: "commit_pending_updates G context (Some secret) sb = (sc, Inr context')"
    and last: "?menu context' sc = (s', Inr reply)"
    by (rule act_bind_cases [OF rest]) auto
  moreover have "gw_config s' = gw_config sc \<and> gh_keyboard_auth_state s' = Some (AwaitSelection context')"
    using menu_keeps_login [of G ?nm None "sc\<lparr>gh_keyboard_auth_state := Some (AwaitSelection context')\<rparr>"] last
    by (simp add: set_auth_state_run)
  moreover obtain s1 where "update_user_credentials G ?nm (pa_new_password_hash context) (Some secret) (Some False) sb
      = (s1, Inr (Inr ()))" "gw_config sc = gw_config s1"
      "context' = context\<lparr>pa_user := committed_user context (Some secret)\<rparr>"
    using commit_run [OF sc] by blast
  ultimately show ?thesis by - (rule exI [of _ sb], rule exI [of _ s1], simp)
qed

text \<open>
  C12: The code decides what enrollment commits.  A code that is not valid for the secret on
  offer changes no account, keeps the secret and counts as a failure of the address; a valid
  one puts the new password hash, if one was set, and the secret in force for the account
  (lifting the obligation to change the password) through a successful update of the
  credentials, before the menu is offered with the account as it now is.
\<close>
theorem enrollment_commits:
  fixes s :: "'z session_scheme"
  assumes run: "handle_enrollment_response G context secret code s = (s', Inr reply)"
    and fresh: "pa_login_password context = None"
  shows "if code_accepted (gl_auth G) (gw_ticks s) secret (trim code)
    then (\<exists>s1 s2 :: 'z session_scheme. gw_config s1 = gw_config s
        \<and> update_user_credentials G (user_name (pa_user context)) (pa_new_password_hash context)
            (Some secret) (Some False) s1 = (s2, Inr (Inr ())) \<and> gw_config s' = gw_config s2)
      \<and> gw_users s' = update_first (\<lambda>u. user_name u = user_name (pa_user context))
          (new_credentials (pa_new_password_hash context) (Some secret) (Some False)) (gw_users s)
      \<and> gh_keyboard_auth_state s' = Some (AwaitSelection (context\<lparr>pa_user := committed_user context (Some secret)\<rparr>))
    else gw_config s' = gw_config s \<and> gh_keyboard_auth_state s' = Some (AwaitEnrollmentTotp context secret)
      \<and> failure_counted G (tr_core s) (tr_settings s) (gh_peer_ip s) s'"
proof (cases "verify_totp_code (gl_auth G) (gw_ticks s) secret (trim code)")
  case (Inr x)
  let ?s0 = "s\<lparr>gw_ticks := Suc (gw_ticks s)\<rparr>"
  have "finish_enrollment G context secret ?s0 = (s', Inr reply)"
    using run fresh Inr by (simp add: handle_enrollment_response_def Let_def check_totp_code_def act_bind_def [of "check_totp_code _ _ _"])
  from finish_run [OF this] obtain s1 s2 :: "'z session_scheme" where s12: "gw_config s1 = gw_config s"
      "update_user_credentials G (user_name (pa_user context)) (pa_new_password_hash context)
        (Some secret) (Some False) s1 = (s2, Inr (Inr ()))" "gw_config s' = gw_config s2"
      "gh_keyboard_auth_state s' = Some (AwaitSelection (context\<lparr>pa_user := committed_user context (Some secret)\<rparr>))"
    by auto
  have "gw_users s2 = update_first (\<lambda>u. user_name u = user_name (pa_user context))
      (new_credentials (pa_new_password_hash context) (Some secret) (Some False)) (gw_users s1)"
    using s12(2) by (auto simp: update_user_credentials_run Let_def save_document_run split: if_splits sum.splits prod.splits)
  with s12 Inr show ?thesis by (auto simp: verify_totp_code_iff [symmetric])
next
  case (Inl e)
  let ?s0 = "s\<lparr>gw_ticks := Suc (gw_ticks s)\<rparr>" and ?nm = "user_name (pa_user context)"
  obtain s1 where s1: "log_user G ''auth_failure'' ?nm AuditFailure (Some (display_error e)) ?s0 = (s1, Inr ())"
      "before (tr_core s) (tr_settings s) (gh_peer_ip s) s1" "gw_config s1 = gw_config s"
    by (simp add: log_user_def log_event_run before_def)
  let ?ask = "act_bind (act_io (otpauth_url (gl_auth G) ''CentralSSH'' ?nm secret)) (\<lambda>url.
      act_then (set_auth_state (Some (AwaitEnrollmentTotp context secret)))
        (act_return (enrollment_prompt G secret url (Some ''Invalid TOTP code.''))))"
  have "act_then (count_failure G (Some ?nm)) ?ask s1 = (s', Inr reply)"
    using run Inl s1(1)
    by (simp add: handle_enrollment_response_def Let_def check_totp_code_def act_bind_def [of "check_totp_code _ _ _"]
        act_bind_run)
  then obtain s2 where s2: "count_failure G (Some ?nm) s1 = (s2, Inr ())" and rest: "?ask s2 = (s', Inr reply)"
    by (cases rule: act_then_cases) auto
  have "failure_counted G (tr_core s) (tr_settings s) (gh_peer_ip s) s2"
    using triple_run [OF count_failure_counts s1(2) s2] by simp
  moreover have "gw_config s2 = gw_config s"
    using keeps_run [OF keeps_bookkeeping(2) [OF config_frames(2)] s1(3) s2] .
  ultimately show ?thesis
    using rest Inl by (auto simp: act_io_run set_auth_state_run failure_counted_state verify_totp_code_iff [symmetric]
        split: sum.splits)
qed


lemma enrollment_commits_witness:
  "\<exists>s' reply. handle_enrollment_response still_libs (build_pending_context sample_user None) ''S'' ''000000'' stranger
      = (s', Inr reply)
    \<and> gh_keyboard_auth_state s' = Some (AwaitEnrollmentTotp (build_pending_context sample_user None) ''S'')
    \<and> failure_counted still_libs (tr_core stranger) (tr_settings stranger) (gh_peer_ip stranger) s'"
proof -
  let ?c = "build_pending_context sample_user None" and ?G = still_libs
  have code: "trim ''000000'' = ''000000''" by code_simp
  have wrong: "\<not> code_accepted (gl_auth ?G) n ''S'' (trim ''000000'')" for n
    by (simp add: code code_accepted_def still_libs_def sample_auth_def)
  then obtain e where e: "verify_totp_code (gl_auth ?G) (gw_ticks stranger) ''S'' (trim ''000000'') = Inl e"
    by (cases "verify_totp_code (gl_auth ?G) (gw_ticks stranger) ''S'' (trim ''000000'')")
      (auto simp: verify_totp_code_iff [symmetric])
  let ?s0 = "stranger\<lparr>gw_ticks := Suc (gw_ticks stranger)\<rparr>"
  obtain s1 where s1: "log_user ?G ''auth_failure'' ''bob'' AuditFailure (Some (display_error e)) ?s0 = (s1, Inr ())"
      "tr_core s1 = [] \<and> tr_settings s1 = strict_settings \<and> gh_peer_ip s1 = sample_ip"
    by (simp add: log_user_def log_event_run stranger_def new_client_def gateway.defs session.defs sample_gateway_def)
  have "tl_chrono (gl_tracker ?G) = sample_chrono" "tl_net (gl_tracker ?G) = sample_libs"
    by (simp_all add: still_libs_def sample_tracker_libs_def)
  then obtain s2 where "count_failure ?G (Some ''bob'') s1 = (s2, Inr ())"
    using count_failure_total [OF still_libs_fit] strict_failure_total s1(2) by metis
  moreover obtain url where "otpauth_url (gl_auth ?G) ''CentralSSH'' ''bob'' ''S'' = Inr url"
    by (simp add: still_libs_def sample_auth_def otpauth_url_def build_totp_from_secret_def new_totp_def)
  ultimately obtain s' reply where run: "handle_enrollment_response ?G ?c ''S'' ''000000'' stranger = (s', Inr reply)"
    using e s1(1)
    by (simp add: handle_enrollment_response_def Let_def check_totp_code_def act_bind_def act_then_def act_io_def
        set_auth_state_def build_pending_context_def sample_user_def)
  from enrollment_commits [OF run] run wrong show ?thesis by (simp add: build_pending_context_def)
qed

end
