(* ===== verification/Key_Files.thy ===== *)
theory Key_Files
  imports Os_Files Config_Validation
begin

text \<open>
  The users' key files and the host key (\<^verbatim>\<open>src/src/keys/mod.rs\<close> and the host key functions of
  \<^verbatim>\<open>src/src/ssh/mod.rs\<close>): where a key is looked up, the checks before it is used, and the
  creation of missing directories and key pairs.  Key generation and the OpenSSH encodings are
  parameters, as is \<^verbatim>\<open>fs::create_dir\<close>.
\<close>

record 'k key_libs =
  kl_os :: os_ops
  kl_create_dir :: "path_buf \<Rightarrow> unit os_call"          \<comment> \<open>\<^verbatim>\<open>fs::create_dir\<close>\<close>
  kl_random :: "nat \<Rightarrow> string + 'k"                    \<comment> \<open>the n-th \<^verbatim>\<open>PrivateKey::random\<close>\<close>
  kl_to_openssh :: "'k \<Rightarrow> string + string"
  kl_public_to_openssh :: "'k \<Rightarrow> string + string"
  kl_read_openssh_file :: "disk \<Rightarrow> path_buf \<Rightarrow> string + 'k"

record key_bootstrap_report =
  kr_created_user_dirs :: nat
  kr_created_server_dirs :: nat
  kr_created_private_keys :: nat
  kr_created_public_keys :: nat

definition private_key_filename :: string where "private_key_filename = ''id_ed25519''"
definition public_key_filename :: string where "public_key_filename = ''id_ed25519.pub''"
definition mode_644 :: nat where "mode_644 = 420"

definition path_exists :: "os_ops \<Rightarrow> disk \<Rightarrow> path_buf \<Rightarrow> bool" where
  \<comment> \<open>\<^verbatim>\<open>Path::exists\<close>\<close>
  "path_exists os d path \<longleftrightarrow> is_ok (os_metadata os d path)"

definition validate_component :: "string \<Rightarrow> string \<Rightarrow> unit gw_result" where
  "validate_component value label =
     (if value = [] \<or> 64 < length value then
        Inl (InvalidConfig (''invalid '' @ label @ '': length must be 1-64 characters''))
      else if \<not> all_chars component_char value then
        Inl (InvalidConfig (''invalid '' @ label @ '': only [a-zA-Z0-9._-] are allowed''))
      else Inr ())"

definition validate_existing_regular_directory :: "os_ops \<Rightarrow> disk \<Rightarrow> path_buf \<Rightarrow> unit gw_result" where
  "validate_existing_regular_directory os d path =
     bind_res (validate_path_has_no_symlinks os d path) (\<lambda>_.
     bind_res (map_err Io (os_symlink_metadata os d path)) (\<lambda>metadata.
       if node_kind metadata = SymbolicLink \<or> node_kind metadata \<noteq> Directory
       then Inl (SecurityPolicy path ''expected a real directory'') else Inr ()))"

definition validate_existing_regular_file :: "os_ops \<Rightarrow> disk \<Rightarrow> path_buf \<Rightarrow> unit gw_result" where
  "validate_existing_regular_file os d path =
     bind_res (validate_path_has_no_symlinks os d path) (\<lambda>_.
     bind_res (map_err Io (os_symlink_metadata os d path)) (\<lambda>metadata.
       if node_kind metadata = SymbolicLink \<or> node_kind metadata \<noteq> RegularFile
       then Inl (SecurityPolicy path ''expected a real file'') else Inr ()))"

definition key_dir_of :: "path_buf \<Rightarrow> string \<Rightarrow> string \<Rightarrow> bool \<Rightarrow> path_buf" where
  "key_dir_of user_key_root username server_name per_user_per_server =
     (let user_dir = path_push user_key_root username
      in if per_user_per_server then path_push user_dir server_name else user_dir)"

definition resolve_user_server_private_key_path ::
  "os_ops \<Rightarrow> disk \<Rightarrow> path_buf \<Rightarrow> string \<Rightarrow> string \<Rightarrow> bool \<Rightarrow> bool \<Rightarrow> path_buf gw_result" where
  "resolve_user_server_private_key_path os d user_key_root username server_name
       per_user_per_server enforce_strict_security =
     bind_res (validate_component username ''username'') (\<lambda>_.
     bind_res (validate_component server_name ''server name'') (\<lambda>_.
     let user_dir = path_push user_key_root username;
         key_dir = key_dir_of user_key_root username server_name per_user_per_server;
         private_key_path = path_push key_dir private_key_filename;
         checks = (if enforce_strict_security then
             [validate_directory_security os d user_key_root mode_700 True,
              validate_directory_security os d user_dir mode_700 True]
             @ (if per_user_per_server then [validate_directory_security os d key_dir mode_700 True] else [])
             @ [validate_file_security os d private_key_path mode_600 True]
           else
             [validate_existing_regular_directory os d user_key_root,
              validate_existing_regular_directory os d user_dir]
             @ (if per_user_per_server then [validate_existing_regular_directory os d key_dir] else [])
             @ [validate_existing_regular_file os d private_key_path])
     in bind_res (try_each id checks) (\<lambda>_. Inr private_key_path)))"

subsection \<open>Creating what is missing\<close>

definition prog_read :: "(disk \<Rightarrow> 'a gw_result) \<Rightarrow> 'a disk_prog" where
  "prog_read f d = (d, f d)"

definition ensure_real_directory :: "'k key_libs \<Rightarrow> path_buf \<Rightarrow> bool disk_prog" where
  \<comment> \<open>whether the directory was created\<close>
  "ensure_real_directory K path =
     prog_bind (prog_read (\<lambda>d. validate_path_has_no_symlinks (kl_os K) d path)) (\<lambda>_.
     prog_bind (prog_read (\<lambda>d. Inr (path_exists (kl_os K) d path))) (\<lambda>exists.
       if exists then
         prog_read (\<lambda>d. bind_res (map_err Io (os_symlink_metadata (kl_os K) d path)) (\<lambda>metadata.
           if node_kind metadata = SymbolicLink \<or> node_kind metadata \<noteq> Directory
           then Inl (SecurityPolicy path ''expected a real directory'') else Inr False))
       else
         prog_bind (case path_parent path of
             None \<Rightarrow> prog_return (Inr ())
           | Some parent \<Rightarrow>
               prog_bind (prog_read (\<lambda>d. validate_path_has_no_symlinks (kl_os K) d parent))
                 (\<lambda>_. prog_call (os_create_dir_all (kl_os K) parent))) (\<lambda>_.
         prog_bind (prog_call (kl_create_dir K path)) (\<lambda>_.
         prog_bind (prog_call (os_set_permissions (kl_os K) path mode_700)) (\<lambda>_.
         prog_return (Inr True))))))"

definition ensure_user_key_root_directory :: "'k key_libs \<Rightarrow> path_buf \<Rightarrow> bool disk_prog" where
  "ensure_user_key_root_directory K user_key_root = ensure_real_directory K user_key_root"

definition new_private_key :: "'k key_libs \<Rightarrow> nat \<Rightarrow> path_buf \<Rightarrow> 'k disk_prog" where
  \<comment> \<open>the branch that creates the private key file\<close>
  "new_private_key K draw private_key_path =
     prog_bind (prog_return (map_err (\<lambda>error. InvalidConfig (''failed to create user private key: '' @ error))
       (kl_random K draw))) (\<lambda>private_key.
     prog_bind (prog_return (map_err (\<lambda>error. InvalidConfig (''failed to encode user private key: '' @ error))
       (kl_to_openssh K private_key))) (\<lambda>encoded.
     prog_bind (prog_seq [
         prog_call (os_create_new (kl_os K) private_key_path mode_600),
         prog_call (os_write_all (kl_os K) private_key_path encoded),
         prog_call (os_sync_all (kl_os K) private_key_path),
         prog_call (os_set_permissions (kl_os K) private_key_path mode_600)]) (\<lambda>_.
     prog_return (Inr private_key))))"

definition load_private_key :: "'k key_libs \<Rightarrow> path_buf \<Rightarrow> 'k disk_prog" where
  \<comment> \<open>the branch that reads an existing private key file\<close>
  "load_private_key K private_key_path = prog_read (\<lambda>d.
     bind_res (validate_existing_regular_file (kl_os K) d private_key_path) (\<lambda>_.
     map_err (\<lambda>error. InvalidConfig (''failed to load existing user private key '' @ [CHR 0x27]
         @ private_key_path @ [CHR 0x27] @ '': '' @ error)) (kl_read_openssh_file K d private_key_path)))"

definition new_public_key :: "'k key_libs \<Rightarrow> 'k \<Rightarrow> path_buf \<Rightarrow> bool disk_prog" where
  "new_public_key K private_key public_key_path =
     prog_bind (prog_return (map_err (\<lambda>error. InvalidConfig (''failed to encode user public key: '' @ error))
       (kl_public_to_openssh K private_key))) (\<lambda>encoded.
     prog_bind (prog_seq [
         prog_call (os_create_new (kl_os K) public_key_path mode_644),
         prog_call (os_write_all (kl_os K) public_key_path encoded),
         prog_call (os_write_all (kl_os K) public_key_path newline),
         prog_call (os_sync_all (kl_os K) public_key_path),
         prog_call (os_set_permissions (kl_os K) public_key_path mode_644)]) (\<lambda>_.
     prog_return (Inr True)))"

definition ensure_keypair_files :: "'k key_libs \<Rightarrow> nat \<Rightarrow> path_buf \<Rightarrow> (bool \<times> bool) disk_prog" where
  \<comment> \<open>whether the private and the public key were created\<close>
  "ensure_keypair_files K draw user_dir =
     (let private_key_path = path_push user_dir private_key_filename;
          public_key_path = path_push user_dir public_key_filename in
      prog_bind (prog_read (\<lambda>d. validate_path_has_no_symlinks (kl_os K) d private_key_path)) (\<lambda>_.
      prog_bind (prog_read (\<lambda>d. validate_path_has_no_symlinks (kl_os K) d public_key_path)) (\<lambda>_.
      prog_bind (prog_read (\<lambda>d. Inr (path_exists (kl_os K) d private_key_path))) (\<lambda>private_exists.
      prog_bind (if private_exists then load_private_key K private_key_path
                 else new_private_key K draw private_key_path) (\<lambda>private_key.
      prog_bind (prog_read (\<lambda>d. Inr (path_exists (kl_os K) d public_key_path))) (\<lambda>public_exists.
      prog_bind (if public_exists
                 then prog_bind (prog_read (\<lambda>d. validate_existing_regular_file (kl_os K) d public_key_path))
                        (\<lambda>_. prog_return (Inr False))
                 else new_public_key K private_key public_key_path) (\<lambda>public_key_created.
      prog_return (Inr (\<not> private_exists, public_key_created)))))))))"

fun ensure_server_keys ::
  "'k key_libs \<Rightarrow> path_buf \<Rightarrow> bool \<Rightarrow> string list \<Rightarrow> key_bootstrap_report \<Rightarrow> key_bootstrap_report disk_prog" where
  \<comment> \<open>the inner loop over a user's servers\<close>
  "ensure_server_keys K user_dir per_user_per_server [] report = prog_return (Inr report)"
| "ensure_server_keys K user_dir per_user_per_server (server_name # servers) report =
     prog_bind (prog_return (validate_component server_name ''server name'')) (\<lambda>_.
     prog_bind (if per_user_per_server then ensure_real_directory K (path_push user_dir server_name)
                else prog_return (Inr False)) (\<lambda>created_dir.
     let key_dir = (if per_user_per_server then path_push user_dir server_name else user_dir) in
     prog_bind (ensure_keypair_files K (kr_created_private_keys report) key_dir) (\<lambda>(private, public).
     let report = report\<lparr>
           kr_created_server_dirs := kr_created_server_dirs report + of_bool created_dir,
           kr_created_private_keys := kr_created_private_keys report + of_bool private,
           kr_created_public_keys := kr_created_public_keys report + of_bool public\<rparr>
     in if per_user_per_server then ensure_server_keys K user_dir per_user_per_server servers report
        else prog_return (Inr report))))"

fun ensure_user_keys ::
  "'k key_libs \<Rightarrow> path_buf \<Rightarrow> bool \<Rightarrow> user_record list \<Rightarrow> key_bootstrap_report \<Rightarrow> key_bootstrap_report disk_prog" where
  \<comment> \<open>the outer loop over the users\<close>
  "ensure_user_keys K user_key_root per_user_per_server [] report = prog_return (Inr report)"
| "ensure_user_keys K user_key_root per_user_per_server (user # users) report =
     prog_bind (prog_return (validate_component (user_name user) ''username'')) (\<lambda>_.
     let user_dir = path_push user_key_root (user_name user) in
     prog_bind (ensure_real_directory K user_dir) (\<lambda>created_dir.
     let report = report\<lparr>kr_created_user_dirs := kr_created_user_dirs report + of_bool created_dir\<rparr> in
     prog_bind (ensure_server_keys K user_dir per_user_per_server (user_allowed_servers user) report)
       (ensure_user_keys K user_key_root per_user_per_server users)))"

definition ensure_private_keys_for_config_users ::
  "'k key_libs \<Rightarrow> path_buf \<Rightarrow> config_file \<Rightarrow> bool \<Rightarrow> key_bootstrap_report disk_prog" where
  "ensure_private_keys_for_config_users K user_key_root config per_user_per_server =
     prog_bind (ensure_real_directory K user_key_root) (\<lambda>_.
     ensure_user_keys K user_key_root per_user_per_server (cf_users config)
       \<lparr>kr_created_user_dirs = 0, kr_created_server_dirs = 0, kr_created_private_keys = 0,
        kr_created_public_keys = 0\<rparr>)"

subsection \<open>The host key\<close>

definition ensure_server_host_key :: "'k key_libs \<Rightarrow> nat \<Rightarrow> path_buf \<Rightarrow> unit disk_prog" where
  "ensure_server_host_key K draw path =
     prog_bind (prog_read (\<lambda>d. validate_path_has_no_symlinks (kl_os K) d path)) (\<lambda>_.
     prog_bind (prog_read (\<lambda>d. Inr (path_exists (kl_os K) d path))) (\<lambda>exists.
       if exists then
         prog_bind (prog_read (\<lambda>d. bind_res (map_err Io (os_symlink_metadata (kl_os K) d path)) (\<lambda>metadata.
             if node_kind metadata = SymbolicLink then
               Inl (SecurityPolicy path ''host key path must not be a symlink'')
             else if node_kind metadata \<noteq> RegularFile then
               Inl (SecurityPolicy path ''host key path is not a regular file'')
             else Inr ()))) (\<lambda>_. prog_call (os_set_permissions (kl_os K) path mode_600))
       else
         prog_bind (case path_parent path of
             None \<Rightarrow> prog_return (Inr ())
           | Some parent \<Rightarrow>
               prog_bind (prog_read (\<lambda>d. validate_path_has_no_symlinks (kl_os K) d parent))
                 (\<lambda>_. prog_call (os_create_dir_all (kl_os K) parent))) (\<lambda>_.
         prog_bind (prog_return (map_err (\<lambda>error. InvalidConfig (''failed to create host key: '' @ error))
           (kl_random K draw))) (\<lambda>host_key.
         prog_bind (prog_return (map_err (\<lambda>error. InvalidConfig (''failed to encode host key: '' @ error))
           (kl_to_openssh K host_key))) (\<lambda>encoded.
         prog_seq [
           prog_call (os_create_new (kl_os K) path mode_600),
           prog_call (os_write_all (kl_os K) path encoded),
           prog_call (os_sync_all (kl_os K) path),
           prog_call (os_set_permissions (kl_os K) path mode_600)])))))"

definition validate_host_key_security :: "os_ops \<Rightarrow> disk \<Rightarrow> path_buf \<Rightarrow> unit gw_result" where
  "validate_host_key_security os d path =
     bind_res (map_err Io (os_symlink_metadata os d path)) (\<lambda>metadata.
       if node_kind metadata = SymbolicLink then
         Inl (SecurityPolicy path ''host key path must not be a symlink'')
       else if node_kind metadata \<noteq> RegularFile then
         Inl (SecurityPolicy path ''host key path is not a regular file'')
       else
         (let mode = mode_bits (node_mode metadata) in
          if mode \<noteq> mode_600 then
            Inl (SecurityPolicy path (''host key mode must be 600, found '' @ show_radix 8 mode))
          else if node_uid metadata \<noteq> 0 then
            Inl (SecurityPolicy path (''host key owner uid must be 0, found '' @ show_nat (node_uid metadata)))
          else Inr ()))"

subsection \<open>Where keys are looked up\<close>

lemma validate_component_iff: "validate_component s label = Inr () \<longleftrightarrow> name_ok s"
  using valid_component_iff [of s]
  by (auto simp: validate_component_def is_valid_component_def split: if_splits)

definition link_free :: "os_ops \<Rightarrow> disk \<Rightarrow> path_buf \<Rightarrow> bool" where
  \<comment> \<open>no parent-directory component, and no prefix of the path is a symbolic link\<close>
  "link_free os d path \<longleftrightarrow> ParentDir \<notin> set (path_components path)
     \<and> (\<forall>k < length (path_components path).
          not_a_link os d (prefix_path (take (Suc k) (path_components path))))"

definition node_ok :: "os_ops \<Rightarrow> disk \<Rightarrow> node_kind \<Rightarrow> nat \<Rightarrow> bool \<Rightarrow> path_buf \<Rightarrow> bool" where
  \<comment> \<open>reached without links and of the right kind; where strict, private to root\<close>
  "node_ok os d kind mode strict path \<longleftrightarrow> link_free os d path
     \<and> (\<exists>node. os_symlink_metadata os d path = Inr node \<and> node_kind node = kind
          \<and> (strict \<longrightarrow> mode_bits (node_mode node) = mode \<and> node_uid node = 0))"

lemma node_ok_iff:
  "validate_file_security os d path mode True = Inr () \<longleftrightarrow> node_ok os d RegularFile mode True path"
  "validate_directory_security os d path mode True = Inr () \<longleftrightarrow> node_ok os d Directory mode True path"
  using no_symlinks_iff [of os d path]
  by (auto simp: validate_file_security_def validate_directory_security_def
      validate_mode_and_owner_def node_ok_def link_free_def Let_def split: if_splits)

lemma node_ok_plain_iff:
  "validate_existing_regular_file os d path = Inr () \<longleftrightarrow> node_ok os d RegularFile mode False path"
  "validate_existing_regular_directory os d path = Inr () \<longleftrightarrow> node_ok os d Directory mode False path"
  using no_symlinks_iff [of os d path]
  by (cases "os_symlink_metadata os d path"; auto simp: validate_existing_regular_file_def
      validate_existing_regular_directory_def node_ok_def link_free_def)+

text \<open>
  C18: A key is used only from its place and only if it is safe.  The private key for a user
  and a server is the file \<^verbatim>\<open>id_ed25519\<close> in the user's directory (or the server's directory
  below it) under the key root; the lookup succeeds exactly when both names are well formed and
  the root, the directories and the file are reached without links or parent components and
  are what they should be; in strict mode all of them are private to root.
\<close>
theorem key_lookup_exact:
  "resolve_user_server_private_key_path os d root_dir username server_name per_server strict = Inr path \<longleftrightarrow>
     path = path_push (if per_server then path_push (path_push root_dir username) server_name
                       else path_push root_dir username) ''id_ed25519''
     \<and> name_ok username \<and> name_ok server_name
     \<and> node_ok os d Directory 448 strict root_dir \<and> node_ok os d Directory 448 strict (path_push root_dir username)
     \<and> (per_server \<longrightarrow> node_ok os d Directory 448 strict (path_push (path_push root_dir username) server_name))
     \<and> node_ok os d RegularFile 384 strict path"
  by (cases strict; cases per_server)
    (auto simp: resolve_user_server_private_key_path_def key_dir_of_def private_key_filename_def Let_def
      validate_component_iff node_ok_iff node_ok_plain_iff(1) [where mode = 384]
      node_ok_plain_iff(2) [where mode = 448] mode_600_def mode_700_def)

subsection \<open>Existing files are kept\<close>

definition keeps_existing :: "'a disk_prog \<Rightarrow> bool" where
  \<comment> \<open>whatever fails, every file that was there is as it was\<close>
  "keeps_existing m \<longleftrightarrow> (\<forall>d q n. d q = Some n \<longrightarrow> fst (m d) q = Some n)"

definition create_laws :: "'k key_libs \<Rightarrow> bool" where
  \<comment> \<open>documented: creation is exclusive, and only what is missing is made\<close>
  "create_laws K \<longleftrightarrow> os_laws (kl_os K)
     \<and> (\<forall>p m d. d p \<noteq> None \<longrightarrow> fst (os_create_new (kl_os K) p m d) = d
          \<and> \<not> is_ok (snd (os_create_new (kl_os K) p m d)))
     \<and> (\<forall>p d. d p \<noteq> None \<longrightarrow> fst (kl_create_dir K p d) = d \<and> \<not> is_ok (snd (kl_create_dir K p d)))
     \<and> (\<forall>p d. only_at p d (fst (kl_create_dir K p d))
          \<and> (is_ok (snd (kl_create_dir K p d)) \<longrightarrow> fst (kl_create_dir K p d) p \<noteq> None))
     \<and> (\<forall>p d. path_exists (kl_os K) d p \<longrightarrow> d p \<noteq> None)
     \<and> (\<forall>p d q. d q \<noteq> None \<longrightarrow> fst (os_create_dir_all (kl_os K) p d) q = d q)"

lemma create_lawsD:
  assumes "create_laws K"
  shows "only_at p d (fst (os_create_new (kl_os K) p m d))" "only_at p d (fst (kl_create_dir K p d))"
    "only_at p d (fst (os_set_permissions (kl_os K) p m d))"
    "only_at p d (fst (os_write_all (kl_os K) p s d))" "only_at p d (fst (os_sync_all (kl_os K) p d))"
    "d q = Some n \<Longrightarrow> fst (os_create_dir_all (kl_os K) p d) q = Some n"
    "d p = Some n \<Longrightarrow> fst (os_create_new (kl_os K) p m d) = d \<and> \<not> is_ok (snd (os_create_new (kl_os K) p m d))"
    "d p = Some n \<Longrightarrow> fst (kl_create_dir K p d) = d \<and> \<not> is_ok (snd (kl_create_dir K p d))"
proof -
  have "law_create_new (kl_os K)" "law_set_permissions (kl_os K)" "law_write_all (kl_os K)"
    using assms by (simp_all add: create_laws_def os_laws_def)
  then show "only_at p d (fst (os_create_new (kl_os K) p m d))"
    "only_at p d (fst (os_set_permissions (kl_os K) p m d))"
    "only_at p d (fst (os_write_all (kl_os K) p s d))"
    by (simp_all add: law_create_new_def law_set_permissions_def law_write_all_def prod_eq_iff)
qed (use assms in \<open>simp_all add: create_laws_def os_laws_def law_sync_def only_at_def\<close>)

named_theorems existing_intros \<open>programs that keep the files that were there\<close>

lemma keeps_existing_basic [existing_intros]: "keeps_existing (prog_return r)" "keeps_existing (prog_read f)"
  by (simp_all add: keeps_existing_def prog_return_def prog_read_def)

lemma keeps_existing_bind [existing_intros]:
  "keeps_existing m \<Longrightarrow> (\<And>x. keeps_existing (f x)) \<Longrightarrow> keeps_existing (prog_bind m f)"
  unfolding keeps_existing_def prog_bind_def by (simp split: prod.split sum.split) (metis fst_conv)

lemma keeps_existing_cases [existing_intros]:
  "keeps_existing m \<Longrightarrow> keeps_existing n \<Longrightarrow> keeps_existing (if b then m else n)"
  "keeps_existing m \<Longrightarrow> (\<And>y. keeps_existing (g y)) \<Longrightarrow> keeps_existing (case x of None \<Rightarrow> m | Some y \<Rightarrow> g y)"
  "(\<And>a b. keeps_existing (h a b)) \<Longrightarrow> keeps_existing (case z of (a, b) \<Rightarrow> h a b)"
  by (auto split: option.split prod.split)

lemma keeps_existing_dir_all [existing_intros]:
  "create_laws K \<Longrightarrow> keeps_existing (prog_call (os_create_dir_all (kl_os K) p))"
  using create_lawsD(6) [of K] unfolding keeps_existing_def prog_call_def
  by (simp add: case_prod_beta)

definition works_at :: "path_buf \<Rightarrow> 'a disk_prog \<Rightarrow> bool" where
  \<comment> \<open>changes nothing but one path\<close>
  "works_at p m \<longleftrightarrow> (\<forall>d. only_at p d (fst (m d)))"

lemma works_at_bind: "works_at p m \<Longrightarrow> (\<And>x. works_at p (f x)) \<Longrightarrow> works_at p (prog_bind m f)"
  unfolding works_at_def only_at_def prog_bind_def by (simp add: case_prod_beta split: sum.split)

lemma works_at_calls:
  assumes "create_laws K"
  shows "works_at p (prog_call (os_write_all (kl_os K) p s))" "works_at p (prog_call (os_sync_all (kl_os K) p))"
    "works_at p (prog_call (os_set_permissions (kl_os K) p m))" "works_at p (prog_return r)"
  using create_lawsD(3,4,5) [OF assms, of p]
  by (simp_all add: works_at_def prog_call_def prog_return_def case_prod_beta only_at_def)

lemma works_at_seq: "(\<forall>m \<in> set ms. works_at p m) \<Longrightarrow> works_at p (prog_seq ms)"
proof (induction ms)
  case Nil then show ?case by (simp add: works_at_def prog_return_def only_at_def)
next
  case (Cons m ms) then show ?case by (auto intro!: works_at_bind)
qed

lemma keeps_existing_new:
  \<comment> \<open>a file or directory made exclusively, then worked on\<close>
  assumes m: "\<And>d. only_at p d (fst (m d))" "\<And>d n. d p = Some n \<Longrightarrow> fst (m d) = d \<and> \<not> is_ok (snd (m d))"
    and rest: "\<And>x. works_at p (f x)"
  shows "keeps_existing (prog_bind (prog_call m) f)"
  unfolding keeps_existing_def
proof (intro allI impI)
  fix d :: disk and q n assume q: "d q = Some n"
  obtain d1 r where run: "m d = (d1, r)" by force
  have excl: "d p = Some n' \<Longrightarrow> d1 = d \<and> \<not> is_ok r" "only_at p d d1" for n'
    using m(1) [of d] m(2) [of d] run by auto
  show "fst (prog_bind (prog_call m) f d) q = Some n"
  proof (cases r)
    case (Inl e)
    have "d1 q = Some n" using excl q by (cases "q = p") (auto simp: only_at_def)
    with run Inl show ?thesis by (simp add: prog_bind_def prog_call_def)
  next
    case (Inr x)
    then have "q \<noteq> p" using excl q by auto
    then have "d1 q = Some n" "fst (f x d1) q = d1 q"
      using excl(2) q rest [of x] by (auto simp: only_at_def works_at_def)
    with run Inr show ?thesis by (simp add: prog_bind_def prog_call_def)
  qed
qed

lemma keeps_new:
  assumes K: "create_laws K" and rest: "\<And>x. works_at p (f x)"
  shows "keeps_existing (prog_bind (prog_call (os_create_new (kl_os K) p m)) f)"
    "keeps_existing (prog_bind (prog_call (kl_create_dir K p)) f)"
  by (rule keeps_existing_new [OF _ _ rest]; simp add: create_lawsD [OF K])+

lemma ensure_real_directory_keeps [existing_intros]:
  assumes K: "create_laws K" shows "keeps_existing (ensure_real_directory K p)"
  unfolding ensure_real_directory_def
  by (rule keeps_new [OF K] existing_intros works_at_bind works_at_calls K)+

lemma load_keeps [existing_intros]: "keeps_existing (load_private_key K p)"
  unfolding load_private_key_def by (intro existing_intros)

lemma new_private_key_keeps [existing_intros]:
  assumes K: "create_laws K" shows "keeps_existing (new_private_key K draw p)"
  unfolding new_private_key_def prog_seq_simps
  by (rule keeps_new [OF K] existing_intros works_at_bind works_at_calls K)+

lemma new_public_key_keeps [existing_intros]:
  assumes K: "create_laws K" shows "keeps_existing (new_public_key K key p)"
  unfolding new_public_key_def prog_seq_simps
  by (rule keeps_new [OF K] existing_intros works_at_bind works_at_calls K)+

lemma ensure_keypair_files_keeps [existing_intros]:
  "create_laws K \<Longrightarrow> keeps_existing (ensure_keypair_files K draw dir)"
  unfolding ensure_keypair_files_def Let_def by (intro existing_intros)

lemma ensure_server_keys_keeps [existing_intros]:
  "create_laws K \<Longrightarrow> keeps_existing (ensure_server_keys K dir per servers report)"
  by (induction servers arbitrary: report) (simp_all add: Let_def existing_intros)

lemma ensure_user_keys_keeps [existing_intros]:
  "create_laws K \<Longrightarrow> keeps_existing (ensure_user_keys K dir per users report)"
  by (induction users arbitrary: report) (simp_all add: Let_def existing_intros)


lemma ensure_server_host_key_keeps:
  assumes K: "create_laws K" and missing: "\<not> path_exists (kl_os K) d path" and q: "d q = Some n"
  shows "fst (ensure_server_host_key K draw path d) q = Some n"
proof -
  have "ensure_server_host_key K draw path d =
      prog_bind (prog_read (\<lambda>d. validate_path_has_no_symlinks (kl_os K) d path)) (\<lambda>_.
      prog_bind (prog_read (\<lambda>d. Inr (path_exists (kl_os K) d path))) (\<lambda>exists.
      prog_bind (case path_parent path of
             None \<Rightarrow> prog_return (Inr ())
           | Some parent \<Rightarrow>
               prog_bind (prog_read (\<lambda>d. validate_path_has_no_symlinks (kl_os K) d parent))
                 (\<lambda>_. prog_call (os_create_dir_all (kl_os K) parent))) (\<lambda>_.
         prog_bind (prog_return (map_err (\<lambda>error. InvalidConfig (''failed to create host key: '' @ error))
           (kl_random K draw))) (\<lambda>host_key.
         prog_bind (prog_return (map_err (\<lambda>error. InvalidConfig (''failed to encode host key: '' @ error))
           (kl_to_openssh K host_key))) (\<lambda>encoded.
         prog_seq [
           prog_call (os_create_new (kl_os K) path mode_600),
           prog_call (os_write_all (kl_os K) path encoded),
           prog_call (os_sync_all (kl_os K) path),
           prog_call (os_set_permissions (kl_os K) path mode_600)]))))) d"
    (is "_ = ?creation d")
    using missing unfolding ensure_server_host_key_def prog_bind_def prog_read_def
    by (auto split: sum.split)
  moreover have "keeps_existing ?creation"
    unfolding prog_seq_simps
    by (rule keeps_new [OF K] existing_intros works_at_bind works_at_calls K)+
  ultimately show ?thesis using q by (simp add: keeps_existing_def)
qed

subsection \<open>Every key is there afterwards\<close>

definition present :: "path_buf \<Rightarrow> 'a disk_prog \<Rightarrow> bool" where
  \<comment> \<open>success does not remove the path\<close>
  "present p m \<longleftrightarrow> (\<forall>d d' x. d p \<noteq> None \<longrightarrow> m d = (d', Inr x) \<longrightarrow> d' p \<noteq> None)"

definition establishes :: "path_buf \<Rightarrow> 'a disk_prog \<Rightarrow> bool" where
  \<comment> \<open>success leaves something at the path\<close>
  "establishes p m \<longleftrightarrow> (\<forall>d d' x. m d = (d', Inr x) \<longrightarrow> d' p \<noteq> None)"

lemma present_keeps: "keeps_existing m \<Longrightarrow> present p m"
  by (auto simp: keeps_existing_def present_def) (metis fst_conv)

lemma bind_success:
  "prog_bind m f d = (d', Inr y) \<Longrightarrow> \<exists>d1 x. m d = (d1, Inr x) \<and> f x d1 = (d', Inr y)"
  by (simp add: prog_bind_def split: prod.splits sum.splits)

lemma call_success: "prog_call c d = (d', Inr y) \<Longrightarrow> c d = (d', Inr y)"
  by (cases "snd (c d)") (auto simp: prog_call_def split: prod.splits)

lemma presentD: "present p m \<Longrightarrow> d p \<noteq> None \<Longrightarrow> m d = (d', Inr x) \<Longrightarrow> d' p \<noteq> None"
  unfolding present_def by blast

lemma establishesD: "establishes p m \<Longrightarrow> m d = (d', Inr x) \<Longrightarrow> d' p \<noteq> None"
  unfolding establishes_def by blast

lemma unit_call_success: "prog_call c d = (d', Inr (y :: unit)) \<Longrightarrow> c d = (d', Inr ())"
  by (drule call_success) simp

lemma present_bind:
  assumes "present p m" "\<And>x. present p (f x)" shows "present p (prog_bind m f)"
  unfolding present_def by (intro allI impI) (use assms in \<open>blast dest: bind_success presentD\<close>)

lemma establishes_bind:
  assumes "establishes p m" "\<And>x. present p (f x)" shows "establishes p (prog_bind m f)"
  unfolding establishes_def by (intro allI impI) (use assms in \<open>blast dest: bind_success presentD establishesD\<close>)

lemma establishes_later:
  assumes "\<And>x. establishes p (f x)" shows "establishes p (prog_bind m f)"
  unfolding establishes_def by (intro allI impI) (use assms in \<open>blast dest: bind_success establishesD\<close>)

lemma establishes_exists:
  assumes K: "create_laws K" and f: "present p (f True)" "establishes p (f False)"
  shows "establishes p (prog_bind (prog_read (\<lambda>d. Inr (path_exists (kl_os K) d p))) f)"
  unfolding establishes_def
proof (intro allI impI)
  fix d d' y assume "prog_bind (prog_read (\<lambda>d. Inr (path_exists (kl_os K) d p))) f d = (d', Inr y)"
  then have run: "f (path_exists (kl_os K) d p) d = (d', Inr y)" by (auto simp: prog_bind_def prog_read_def)
  show "d' p \<noteq> None"
  proof (cases "path_exists (kl_os K) d p")
    case True
    then have "d p \<noteq> None" using K by (simp add: create_laws_def)
    then show ?thesis using presentD [OF f(1)] True run by simp
  next
    case False then show ?thesis using establishesD [OF f(2)] run by simp
  qed
qed

lemma present_calls:
  assumes "create_laws K"
  shows "present p (prog_call (os_write_all (kl_os K) q s))" "present p (prog_call (os_sync_all (kl_os K) q))"
    "present p (prog_call (os_set_permissions (kl_os K) q m))" "present p (prog_return r)"
proof -
  have laws: "law_set_permissions (kl_os K)" "law_write_all (kl_os K)" "law_sync (kl_os K)"
    using assms by (simp_all add: create_laws_def os_laws_def)
  have kept: "only_at q d d' \<Longrightarrow> d' q = map_option f (d q) \<Longrightarrow> d p \<noteq> None \<Longrightarrow> d' p \<noteq> None"
    for d d' :: disk and f by (cases "p = q") (auto simp: only_at_def)
  show "present p (prog_call (os_write_all (kl_os K) q s))"
    unfolding present_def using laws(2) by (intro allI impI) (drule unit_call_success, unfold law_write_all_def, use kept in blast)
  show "present p (prog_call (os_set_permissions (kl_os K) q m))"
    unfolding present_def using laws(1) by (intro allI impI) (drule unit_call_success, unfold law_set_permissions_def, use kept in blast)
  show "present p (prog_call (os_sync_all (kl_os K) q))"
  proof (unfold present_def, intro allI impI)
    fix d d' x assume "d p \<noteq> None" "prog_call (os_sync_all (kl_os K) q) d = (d', Inr x)"
    moreover have "fst (os_sync_all (kl_os K) q d) = d" using laws(3) by (simp add: law_sync_def)
    ultimately show "d' p \<noteq> None" using call_success [of "os_sync_all (kl_os K) q" d d' x] by simp
  qed
  show "present p (prog_return r)" by (simp add: present_def prog_return_def)
qed

lemma establishes_new:
  assumes "create_laws K"
  shows "establishes p (prog_call (os_create_new (kl_os K) p m))" "establishes p (prog_call (kl_create_dir K p))"
proof -
  have new: "law_create_new (kl_os K)" using assms by (simp_all add: create_laws_def os_laws_def)
  show "establishes p (prog_call (os_create_new (kl_os K) p m))"
    unfolding establishes_def using new
    by (intro allI impI) (drule unit_call_success, unfold law_create_new_def, blast)
  have dir: "is_ok (snd (kl_create_dir K p d)) \<Longrightarrow> fst (kl_create_dir K p d) p \<noteq> None" for d
    using assms by (simp_all add: create_laws_def)
  show "establishes p (prog_call (kl_create_dir K p))"
    unfolding establishes_def
  proof (intro allI impI)
    fix d d' x assume "prog_call (kl_create_dir K p) d = (d', Inr x)"
    then have "kl_create_dir K p d = (d', Inr x)" by (rule call_success)
    then show "d' p \<noteq> None" using dir [of d] by simp
  qed
qed

lemma ensure_real_directory_establishes:
  assumes K: "create_laws K" shows "establishes p (ensure_real_directory K p)"
  unfolding ensure_real_directory_def
  by (rule establishes_later, rule establishes_exists [OF K], unfold if_True if_False)
    (rule establishes_bind [OF establishes_new(2) [OF K]] present_bind present_calls [OF K]
       present_keeps [OF keeps_existing_basic(2)] establishes_later)+

lemma new_keys_establish:
  assumes K: "create_laws K"
  shows "establishes p (new_private_key K draw p)" "establishes p (new_public_key K key p)"
  unfolding new_private_key_def new_public_key_def prog_seq_simps
  by (rule establishes_bind [OF establishes_bind [OF establishes_new(1) [OF K]]]
       establishes_bind [OF establishes_new(1) [OF K]] present_bind present_calls [OF K] establishes_later)+

lemma ensure_keypair_files_establish:
  assumes K: "create_laws K"
  shows "establishes (path_push dir private_key_filename) (ensure_keypair_files K draw dir)"
    "establishes (path_push dir public_key_filename) (ensure_keypair_files K draw dir)"
proof -
  note keeps = present_keeps existing_intros K
  show "establishes (path_push dir private_key_filename) (ensure_keypair_files K draw dir)"
    unfolding ensure_keypair_files_def Let_def
    by (rule establishes_later, rule establishes_later, rule establishes_exists [OF K], unfold if_True if_False)
      (rule keeps establishes_bind [OF new_keys_establish(1) [OF K]])+
  show "establishes (path_push dir public_key_filename) (ensure_keypair_files K draw dir)"
    unfolding ensure_keypair_files_def Let_def
    by (rule establishes_later, rule establishes_later, rule establishes_later, rule establishes_later,
        rule establishes_exists [OF K], unfold if_True if_False)
      (rule keeps establishes_bind [OF new_keys_establish(2) [OF K]])+
qed

definition key_dirs_of :: "path_buf \<Rightarrow> bool \<Rightarrow> user_record \<Rightarrow> path_buf list" where
  \<comment> \<open>where a user's keys belong\<close>
  "key_dirs_of root_dir per u = (let dir = path_push root_dir (user_name u) in
     if per then map (path_push dir) (user_allowed_servers u)
     else if user_allowed_servers u = [] then [] else [dir])"

definition keypair_at :: "disk \<Rightarrow> path_buf \<Rightarrow> bool" where
  "keypair_at d dir \<longleftrightarrow> d (path_push dir ''id_ed25519'') \<noteq> None \<and> d (path_push dir ''id_ed25519.pub'') \<noteq> None"

lemma keypair_kept:
  "keeps_existing m \<Longrightarrow> m d = (d', r) \<Longrightarrow> keypair_at d dir \<Longrightarrow> keypair_at d' dir"
proof -
  assume "keeps_existing m" "m d = (d', r)"
  then have "d p = Some n \<Longrightarrow> d' p = Some n" for p n unfolding keeps_existing_def by (metis fst_conv)
  then show "keypair_at d dir \<Longrightarrow> keypair_at d' dir" unfolding keypair_at_def by blast
qed

lemma keypair_made:
  assumes "create_laws K" "ensure_keypair_files K draw dir d = (d', Inr x)"
  shows "keypair_at d' dir"
  using establishesD [OF ensure_keypair_files_establish(1) [OF assms(1)] assms(2)]
    establishesD [OF ensure_keypair_files_establish(2) [OF assms(1)] assms(2)]
  by (simp add: keypair_at_def private_key_filename_def public_key_filename_def)

lemma server_keys_made:
  assumes K: "create_laws K" and run: "ensure_server_keys K dir per servers report d = (d', Inr x)"
    and k: "k \<in> set (if per then map (path_push dir) servers else if servers = [] then [] else [dir])"
  shows "keypair_at d' k"
  using run k
proof (induction servers arbitrary: report d)
  case Nil
  then show ?case by (cases per) simp_all
next
  case (Cons s servers)
  define here where "here = (if per then path_push dir s else dir)"
  obtain d1 d2 c ks where keys: "ensure_keypair_files K (kr_created_private_keys report) here d1 = (d2, Inr ks)"
    and rest: "(if per then ensure_server_keys K dir per servers c else prog_return (Inr c)) d2 = (d', Inr x)"
  proof -
    obtain x1 x2 d1 d2 d3 ks where
      "ensure_keypair_files K (kr_created_private_keys report) here d2 = (d3, Inr ks)"
      "(case ks of (private, public) \<Rightarrow>
         let report = report\<lparr>kr_created_server_dirs := kr_created_server_dirs report + of_bool x2,
           kr_created_private_keys := kr_created_private_keys report + of_bool private,
           kr_created_public_keys := kr_created_public_keys report + of_bool public\<rparr>
         in if per then ensure_server_keys K dir per servers report else prog_return (Inr report)) d3 = (d', Inr x)"
      using Cons.prems(1) unfolding ensure_server_keys.simps Let_def here_def
      by (blast dest: bind_success)
    then show ?thesis by (cases ks) (rule that; simp add: Let_def)
  qed
  have made: "keypair_at d2 here" by (rule keypair_made [OF K keys])
  show ?case
  proof (cases per)
    case True
    have "keypair_at d' here"
      using keypair_kept [OF ensure_server_keys_keeps [OF K], of dir per servers c d2] rest made True by simp
    then show ?thesis using Cons.IH [of c d2] Cons.prems(2) rest True by (auto simp: here_def)
  next
    case False
    then show ?thesis using Cons.prems(2) rest made by (simp add: here_def prog_return_def)
  qed
qed

lemma user_keys_made:
  assumes K: "create_laws K" and run: "ensure_user_keys K root_dir per users report d = (d', Inr x)"
    and u: "u \<in> set users" "k \<in> set (key_dirs_of root_dir per u)"
  shows "keypair_at d' k"
  using run u(1)
proof (induction users arbitrary: report d)
  case (Cons v users)
  obtain d1 d2 c c' where keys: "ensure_server_keys K (path_push root_dir (user_name v)) per
        (user_allowed_servers v) c d1 = (d2, Inr c')"
    and rest: "ensure_user_keys K root_dir per users c' d2 = (d', Inr x)"
    using Cons.prems(1) unfolding ensure_user_keys.simps Let_def by (blast dest: bind_success)
  show ?case
  proof (cases "u = v")
    case True
    have "keypair_at d2 k"
      using server_keys_made [OF K keys] u(2) True by (simp add: key_dirs_of_def Let_def split: if_splits)
    then show ?thesis using keypair_kept [OF ensure_user_keys_keeps [OF K] rest] by blast
  next
    case False
    then show ?thesis using Cons.IH [OF rest] Cons.prems(2) by simp
  qed
qed simp


definition sample_key_libs :: "string key_libs" where
  \<comment> \<open>an instance of the parameters, for the witnesses\<close>
  "sample_key_libs = \<lparr>kl_os = sample_os,
     kl_create_dir = (\<lambda>p d. if d p = None
        then (d(p := Some \<lparr>node_kind = Directory, node_mode = 493, node_uid = 0, node_gid = 0,
               node_content = []\<rparr>), Inr ())
        else (d, Inl (IoOther ''exists''))),
     kl_random = (\<lambda>n. Inr (''key'' @ show_nat n)), kl_to_openssh = (\<lambda>k. Inr k),
     kl_public_to_openssh = (\<lambda>k. Inr (''pub '' @ k)),
     kl_read_openssh_file = (\<lambda>d p. case d p of None \<Rightarrow> Inl ''missing'' | Some n \<Rightarrow> Inr (node_content n))\<rparr>"

lemma sample_key_laws: "create_laws sample_key_libs"
  using sample_os_laws
  by (simp add: create_laws_def sample_key_libs_def only_at_def)
    (auto simp: sample_os_def path_exists_def node_or_missing_def split: option.splits)


definition sample_key_disk :: disk where
  "sample_key_disk =
     (let dir = \<lparr>node_kind = Directory, node_mode = 448, node_uid = 0, node_gid = 0, node_content = []\<rparr>
      in [''/k'' \<mapsto> dir, ''/k/bob'' \<mapsto> dir, ''/k/bob/web'' \<mapsto> dir,
          ''/k/bob/web/id_ed25519'' \<mapsto> dir\<lparr>node_kind := RegularFile, node_mode := 384\<rparr>])"

lemma key_lookup_exact_witness:
  "resolve_user_server_private_key_path sample_os sample_key_disk ''/k'' ''bob'' ''web'' True True
     = Inr ''/k/bob/web/id_ed25519''
   \<and> node_ok sample_os sample_key_disk RegularFile 384 True ''/k/bob/web/id_ed25519''"
proof -
  have "resolve_user_server_private_key_path sample_os sample_key_disk ''/k'' ''bob'' ''web'' True True
     = Inr ''/k/bob/web/id_ed25519''" by code_simp
  then show ?thesis using key_lookup_exact by blast
qed

end
