(* ===== verification/Target_Link.thy ===== *)
theory Target_Link
  imports Key_Files Session_State
begin

text \<open>
  The connection to a target (\<^verbatim>\<open>ProxySession\<close> of \<^verbatim>\<open>src/src/ssh/proxy.rs\<close>): how it is opened, its
  channel tables and the calls it passes on.  \<^verbatim>\<open>russh\<close>'s client is a parameter: a call is recorded
  in \<^verbatim>\<open>cn_calls\<close> and answered by a function of the calls before it; sends to the client are
  recorded in \<^verbatim>\<open>gh_sent\<close> when they succeed.
\<close>

subsection \<open>Parameters and state\<close>

datatype target_call =
    AuthenticatePublickey string
  | OpenSession
  | OpenDirectTcpip string nat string nat
  | TcpipForward string nat
  | CancelTcpipForward string nat
  | RequestPty nat bool channel_pty_state             \<comment> \<open>the target's channel comes first\<close>
  | RequestShell nat bool
  | RequestExec nat bool string
  | RequestSubsystem nat bool string
  | SetEnv nat bool string string
  | WindowChange nat nat nat nat nat
  | SendSignal nat string
  | WriteData nat "nat option" string
  | SendEof nat
  | CloseChannel nat
  | DisconnectTarget string

datatype frontend_open = OpenForwardedTcpip string nat string nat | OpenX11 string nat

text \<open>What the target sends on a channel (\<^verbatim>\<open>russh::ChannelMsg\<close>).\<close>

datatype client_request =
    MsgOpen | MsgOpenFailure | MsgRequestPty | MsgRequestShell | MsgExec | MsgSignal
  | MsgRequestSubsystem | MsgRequestX11 | MsgSetEnv | MsgWindowChange | MsgAgentForward

datatype channel_msg =
    MsgData string
  | MsgExtendedData nat string
  | MsgEof
  | MsgClose
  | MsgSuccess
  | MsgFailure
  | MsgXonXoff bool
  | MsgExitStatus nat
  | MsgExitSignal string bool string string
  | MsgWindowAdjusted nat
  | MsgRequest client_request                        \<comment> \<open>what only a client sends\<close>
  | MsgOther string                                  \<comment> \<open>any other message\<close>

record transport_settings =
  ts_crypto :: transport_config
  ts_inactivity_timeout :: "duration option"
  ts_keepalive_interval :: "duration option"
  ts_keepalive_max :: nat

record ('d, 'k, 'h) link_libs =
  ln_gateway :: "'d gateway_libs"
  ln_strict :: bool                                    \<comment> \<open>\<^verbatim>\<open>AppState::strict_security\<close>\<close>
  ln_client_default :: transport_settings              \<comment> \<open>\<^verbatim>\<open>client::Config::default()\<close>\<close>
  ln_connect :: "nat \<Rightarrow> transport_settings \<Rightarrow> string \<Rightarrow> ('h \<Rightarrow> string + bool) \<Rightarrow> string list \<times> (string + unit)"
    \<comment> \<open>\<^verbatim>\<open>client::connect\<close>: calls the host key check, reports the key exchanges, and connects or fails\<close>
  ln_known_hosts :: "disk \<Rightarrow> string \<Rightarrow> nat \<Rightarrow> 'h \<Rightarrow> path_buf \<Rightarrow> string + bool"
  ln_load_key :: "disk \<Rightarrow> path_buf \<Rightarrow> string + 'k"
  ln_rsa_hash :: "nat \<Rightarrow> hash_alg option"
  ln_auth :: "nat \<Rightarrow> string \<Rightarrow> 'k \<Rightarrow> hash_alg option \<Rightarrow> string + bool"
  ln_target :: "(nat \<times> target_call) list \<Rightarrow> nat \<Rightarrow> target_call \<Rightarrow> string + nat"
    \<comment> \<open>an error, or the number the call returns (a channel, a port)\<close>
  ln_send :: "client_msg list \<Rightarrow> client_msg \<Rightarrow> string option"  \<comment> \<open>why the send fails\<close>
  ln_open_frontend :: "frontend_open list \<Rightarrow> frontend_open \<Rightarrow> string + channel_id"
  ln_show_channel :: "channel_id \<Rightarrow> string"           \<comment> \<open>\<^verbatim>\<open>Debug\<close> of \<^verbatim>\<open>ChannelId\<close>\<close>
  ln_show_message :: "channel_msg \<Rightarrow> string"          \<comment> \<open>\<^verbatim>\<open>Debug\<close> of \<^verbatim>\<open>ChannelMsg\<close>\<close>
  ln_show_signal :: "string \<Rightarrow> string"                \<comment> \<open>\<^verbatim>\<open>Debug\<close> of \<^verbatim>\<open>Sig\<close>\<close>

record bridge =
  \<comment> \<open>a task that relays a target channel to a channel of the client\<close>
  br_link :: nat
  br_target :: nat
  br_frontend :: channel_id
  br_raw :: bool

record connection = session +
  cn_links :: nat                                      \<comment> \<open>connections to targets so far\<close>
  cn_calls :: "(nat \<times> target_call) list"
  cn_opened :: "frontend_open list"
  cn_bridges :: "bridge list"
  cn_detached :: "proxy_session list"                  \<comment> \<open>replaced, but with bridges still running\<close>

definition act_try :: "('s, 'a gw_result) act \<Rightarrow> ('a \<Rightarrow> ('s, 'b gw_result) act) \<Rightarrow> ('s, 'b gw_result) act" where
  "act_try m f = act_bind m (\<lambda>r. case r of Inl e \<Rightarrow> act_return (Inl e) | Inr x \<Rightarrow> f x)"

subsection \<open>Sending\<close>

definition send :: "('d, 'k, 'h) link_libs \<Rightarrow> client_msg \<Rightarrow> ('z session_scheme, string option) act" where
  "send L m s = (case ln_send L (gh_sent s) m of
     None \<Rightarrow> (s\<lparr>gh_sent := gh_sent s @ [m]\<rparr>, Inr None) | Some error \<Rightarrow> (s, Inr (Some error)))"

definition try_send :: "('d, 'k, 'h) link_libs \<Rightarrow> client_msg \<Rightarrow> ('z session_scheme, unit) act" where
  \<comment> \<open>\<^verbatim>\<open>let _ = session.call(..)\<close>\<close>
  "try_send L m = act_bind (send L m) (\<lambda>_. act_return ())"

definition must_send :: "('d, 'k, 'h) link_libs \<Rightarrow> client_msg \<Rightarrow> ('z session_scheme, unit) act" where
  \<comment> \<open>\<^verbatim>\<open>session.call(..)?\<close>\<close>
  "must_send L m = act_bind (send L m) (\<lambda>r. case r of None \<Rightarrow> act_return () | Some error \<Rightarrow> act_stop (SshIo error))"

definition target_call :: "('d, 'k, 'h) link_libs \<Rightarrow> nat \<Rightarrow> target_call \<Rightarrow> ('z connection_scheme, string + nat) act" where
  "target_call L handle call s =
     (s\<lparr>cn_calls := cn_calls s @ [(handle, call)]\<rparr>, Inr (ln_target L (cn_calls s) handle call))"

definition relay_call ::
  "('d, 'k, 'h) link_libs \<Rightarrow> nat \<Rightarrow> target_call \<Rightarrow> (string \<Rightarrow> string) \<Rightarrow> ('z connection_scheme, nat gw_result) act" where
  \<comment> \<open>a call with the text its failure is reported with\<close>
  "relay_call L handle call text =
     act_bind (target_call L handle call) (\<lambda>r. act_return (map_err (\<lambda>error. Ssh (text error)) r))"

subsection \<open>Audit events of the link\<close>

definition link_event :: "'z session_scheme \<Rightarrow> string \<Rightarrow> string \<Rightarrow> int \<Rightarrow> string \<Rightarrow> audit_result \<Rightarrow> string option \<Rightarrow> audit_event" where
  "link_event s username target_server now event_type result reason =
     (session_event s now event_type (Some username) (Some target_server) None result reason None None)
       \<lparr>ev_remote_port := None\<rparr>"

definition log_link ::
  "'d gateway_libs \<Rightarrow> string \<Rightarrow> string \<Rightarrow> (audit_event \<Rightarrow> audit_event) \<Rightarrow> string \<Rightarrow> audit_result \<Rightarrow> string option
   \<Rightarrow> ('z session_scheme, unit) act" where
  "log_link G username target_server extra event_type result reason =
     act_bind (utc_now (gl_tracker G)) (\<lambda>now.
     act_bind (act_get (\<lambda>s. extra (link_event s username target_server now event_type result reason))) audit_log)"

definition log_kex_negotiated ::
  "'d gateway_libs \<Rightarrow> string \<Rightarrow> string \<Rightarrow> string \<Rightarrow> string \<Rightarrow> string \<Rightarrow> ('z session_scheme, unit) act" where
  "log_kex_negotiated G username target_server event_type transport_side kex_algorithm =
     log_link G username target_server (\<lambda>ev. ev\<lparr>
         ev_transport_side := Some transport_side, ev_kex_algorithm := Some kex_algorithm,
         ev_post_quantum := Some (is_post_quantum_kex_name kex_algorithm),
         ev_hybrid := Some (is_hybrid_kex_name kex_algorithm),
         ev_classical_fallback := Some (\<not> is_post_quantum_kex_name kex_algorithm)\<rparr>)
       event_type AuditSuccess None"

definition log_kex_policy_applied ::
  "'d gateway_libs \<Rightarrow> string \<Rightarrow> string \<Rightarrow> string \<Rightarrow> string list \<Rightarrow> bool \<Rightarrow> bool \<Rightarrow> ('z session_scheme, unit) act" where
  "log_kex_policy_applied G username target_server transport_side offered_algorithms require_post_quantum
       classical_fallback =
     log_link G username target_server (\<lambda>ev. ev\<lparr>
         ev_transport_side := Some transport_side,
         ev_kex_algorithms_offered := Some offered_algorithms,
         ev_post_quantum := Some (\<not> classical_fallback),
         ev_classical_fallback := Some classical_fallback,
         ev_pq_required := Some require_post_quantum\<rparr>)
       ''backend_kex_policy_applied'' AuditSuccess None"

definition kex_done :: "('d, 'k, 'h) link_libs \<Rightarrow> string \<Rightarrow> string \<Rightarrow> string \<Rightarrow> ('z session_scheme, unit) act" where
  "kex_done L username target_server kex =
     log_kex_negotiated (ln_gateway L) username target_server ''backend_kex_negotiated'' ''backend'' kex"

definition check_server_key :: "('d, 'k, 'h) link_libs \<Rightarrow> disk \<Rightarrow> string \<Rightarrow> path_buf \<Rightarrow> 'h \<Rightarrow> string + bool" where
  "check_server_key L d expected_host known_hosts_path server_public_key =
     ln_known_hosts L d expected_host 22 server_public_key known_hosts_path"

subsection \<open>Connecting\<close>

definition ssh_keepalive_interval :: duration where "ssh_keepalive_interval = from_secs 120"
definition ssh_keepalive_max :: nat where "ssh_keepalive_max = 3"

definition keep_alive :: "transport_settings \<Rightarrow> transport_settings" where
  "keep_alive config = config\<lparr>ts_inactivity_timeout := None,
     ts_keepalive_interval := Some ssh_keepalive_interval, ts_keepalive_max := ssh_keepalive_max\<rparr>"

definition apply_server_transport_config ::
  "(kex_name \<Rightarrow> string) \<Rightarrow> transport_settings \<Rightarrow> kex_policy_config
   \<Rightarrow> transport_settings \<times> kex_policy_summary gw_result" where
  "apply_server_transport_config as_ref config policy =
     (case apply_server_transport_crypto_policy as_ref (ts_crypto config) policy of
        (crypto, Inl error) \<Rightarrow> (config\<lparr>ts_crypto := crypto\<rparr>, Inl error)
      | (crypto, Inr summary) \<Rightarrow> (keep_alive (config\<lparr>ts_crypto := crypto\<rparr>), Inr summary))"

definition apply_client_transport_config ::
  "(kex_name \<Rightarrow> string) \<Rightarrow> transport_settings \<Rightarrow> kex_policy_config
   \<Rightarrow> transport_settings \<times> kex_policy_summary gw_result" where
  "apply_client_transport_config as_ref config policy =
     (case apply_client_transport_crypto_policy as_ref (ts_crypto config) policy of
        (crypto, Inl error) \<Rightarrow> (config\<lparr>ts_crypto := crypto\<rparr>, Inl error)
      | (crypto, Inr summary) \<Rightarrow> (keep_alive (config\<lparr>ts_crypto := crypto\<rparr>), Inr summary))"

fun each_act :: "('a \<Rightarrow> ('s, unit) act) \<Rightarrow> 'a list \<Rightarrow> ('s, unit) act" where
  "each_act f [] = act_return ()"
| "each_act f (x # xs) = act_then (f x) (each_act f xs)"

definition open_link ::
  "('d, 'k, 'h) link_libs \<Rightarrow> transport_settings \<Rightarrow> string \<Rightarrow> selected_target \<Rightarrow> ('z connection_scheme, nat gw_result) act" where
  \<comment> \<open>\<^verbatim>\<open>client::connect\<close> with its handler: the number of the connection\<close>
  "open_link L config username target =
     act_bind (\<lambda>s. (s\<lparr>cn_links := Suc (cn_links s)\<rparr>, Inr (cn_links s,
         ln_connect L (cn_links s) config (st_host target @ '':22'')
           (check_server_key L (tr_disk s) (st_host target) (ep_known_hosts_path (gw_paths s))))))
       (\<lambda>(handle, exchanges, outcome).
     act_then (each_act (kex_done L username (st_name target)) exchanges)
       (act_return (map_err Ssh (map_sum id (\<lambda>_. handle) outcome))))"

definition authenticate ::
  "('d, 'k, 'h) link_libs \<Rightarrow> nat \<Rightarrow> string \<Rightarrow> 'k \<Rightarrow> ('z connection_scheme, unit gw_result) act" where
  "authenticate L handle username private_key =
     act_then (act_modify (\<lambda>s. s\<lparr>cn_calls := cn_calls s @ [(handle, AuthenticatePublickey username)]\<rparr>))
       (act_return (case ln_auth L handle username private_key (ln_rsa_hash L handle) of
          Inl error \<Rightarrow> Inl (Ssh (''public key auth failed: '' @ error))
        | Inr success \<Rightarrow> if success then Inr () else Inl (Ssh ''target rejected public key authentication'')))"

definition connect ::
  "('d, 'k, 'h) link_libs \<Rightarrow> string \<Rightarrow> selected_target \<Rightarrow> ('z connection_scheme, proxy_session gw_result) act" where
  "connect L username target =
     act_try (act_get (\<lambda>s. resolve_user_server_private_key_path (gl_os (ln_gateway L)) (tr_disk s)
         (ep_user_key_root (gw_paths s)) username (st_name target) (ep_per_user_per_server (gw_paths s))
         (ln_strict L))) (\<lambda>private_key_path.
     act_bind (act_get (\<lambda>s. rt_config (gw_config s))) (\<lambda>config.
     case apply_client_transport_config (gl_kex (ln_gateway L)) (ln_client_default L) (cf_kex_policy config) of
       (_, Inl error) \<Rightarrow> act_return (Inl error)
     | (client_config, Inr summary) \<Rightarrow>
         act_then (log_kex_policy_applied (ln_gateway L) username (st_name target) ''backend''
             (ks_offered_algorithms summary) (ks_require_post_quantum summary) (ks_classical_fallback summary))
         (act_try (open_link L client_config username target) (\<lambda>handle.
         act_try (act_get (\<lambda>s. map_err (\<lambda>error. Ssh (''failed to load private key: '' @ error))
             (ln_load_key L (tr_disk s) private_key_path))) (\<lambda>private_key.
         act_try (authenticate L handle username private_key) (\<lambda>_.
         act_return (Inr \<lparr>px_handle = handle, px_username = username, px_target_server = st_name target,
           px_session_channels = [], px_raw_channels = [], px_last_error = None,
           px_drop_to_menu = unwrap_or False (sc_drop_to_menu (cf_settings config))\<rparr>)))))))"

subsection \<open>Channels\<close>

definition backend_channel :: "('d, 'k, 'h) link_libs \<Rightarrow> proxy_session \<Rightarrow> channel_id \<Rightarrow> nat gw_result" where
  "backend_channel L px channel =
     (case hm_get (px_session_channels px) channel of
        Some backend \<Rightarrow> Inr backend
      | None \<Rightarrow> ok_or (Ssh (''missing proxied backend channel for frontend channel '' @ ln_show_channel L channel))
          (hm_get (px_raw_channels px) channel))"

definition spawn_bridge :: "proxy_session \<Rightarrow> nat \<Rightarrow> channel_id \<Rightarrow> bool \<Rightarrow> ('z connection_scheme, unit) act" where
  "spawn_bridge px target_channel frontend_id raw = act_modify (\<lambda>s. s\<lparr>cn_bridges := cn_bridges s
     @ [\<lparr>br_link = px_handle px, br_target = target_channel, br_frontend = frontend_id, br_raw = raw\<rparr>]\<rparr>)"

definition open_session_channel_by_id ::
  "('d, 'k, 'h) link_libs \<Rightarrow> proxy_session \<Rightarrow> channel_id \<Rightarrow> ('z connection_scheme, proxy_session gw_result) act" where
  \<comment> \<open>the session with its new channel\<close>
  "open_session_channel_by_id L px frontend_id =
     act_try (relay_call L (px_handle px) OpenSession id) (\<lambda>target_channel.
     act_then (spawn_bridge px target_channel frontend_id False)
       (act_return (Inr (px\<lparr>px_session_channels :=
          hm_insert frontend_id target_channel (px_session_channels px)\<rparr>))))"

definition on_channel ::
  "('d, 'k, 'h) link_libs \<Rightarrow> proxy_session \<Rightarrow> channel_id \<Rightarrow> (nat \<Rightarrow> target_call) \<Rightarrow> (string \<Rightarrow> string)
   \<Rightarrow> ('z connection_scheme, unit gw_result) act" where
  \<comment> \<open>a call on the target's channel of a client's channel\<close>
  "on_channel L px channel call text =
     act_try (act_return (backend_channel L px channel)) (\<lambda>backend.
     act_try (relay_call L (px_handle px) (call backend) text) (\<lambda>_. act_return (Inr ())))"

definition request_pty where
  "request_pty L px channel want_reply pty =
     on_channel L px channel (\<lambda>c. RequestPty c want_reply pty) (\<lambda>error.
       ''failed to relay pty request term='' @ pty_term pty @ '' cols='' @ show_nat (pty_col_width pty)
       @ '' rows='' @ show_nat (pty_row_height pty) @ '' pix_width='' @ show_nat (pty_pix_width pty)
       @ '' pix_height='' @ show_nat (pty_pix_height pty) @ '': '' @ error)"

definition request_shell where
  "request_shell L px channel want_reply =
     on_channel L px channel (\<lambda>c. RequestShell c want_reply) (\<lambda>error. ''failed to relay shell request: '' @ error)"

definition exec where
  "exec L px channel want_reply command =
     on_channel L px channel (\<lambda>c. RequestExec c want_reply command) (\<lambda>error.
       ''failed to relay exec request command='' @ from_utf8_lossy command @ '': '' @ error)"

definition request_subsystem where
  "request_subsystem L px channel want_reply nm =
     on_channel L px channel (\<lambda>c. RequestSubsystem c want_reply nm) (\<lambda>error.
       ''failed to relay subsystem request '' @ nm @ '': '' @ error)"

definition set_env where
  "set_env L px channel want_reply variable_name variable_value =
     on_channel L px channel (\<lambda>c. SetEnv c want_reply variable_name variable_value) (\<lambda>error.
       ''failed to relay env request '' @ variable_name @ ''='' @ variable_value @ '': '' @ error)"

definition window_change where
  "window_change L px channel col_width row_height pix_width pix_height =
     on_channel L px channel (\<lambda>c. WindowChange c col_width row_height pix_width pix_height) (\<lambda>error.
       ''failed to relay window-change cols='' @ show_nat col_width @ '' rows='' @ show_nat row_height
       @ '' pix_width='' @ show_nat pix_width @ '' pix_height='' @ show_nat pix_height @ '': '' @ error)"

definition relay_signal where
  "relay_signal L px channel signal =
     on_channel L px channel (\<lambda>c. SendSignal c signal) (\<lambda>error.
       ''failed to relay signal '' @ ln_show_signal L signal @ '': '' @ error)"

definition relay_data where
  "relay_data L px channel bytes = on_channel L px channel (\<lambda>c. WriteData c None bytes) id"

definition relay_extended_data where
  "relay_extended_data L px channel code bytes = on_channel L px channel (\<lambda>c. WriteData c (Some code) bytes) id"

definition relay_eof :: "('d, 'k, 'h) link_libs \<Rightarrow> proxy_session \<Rightarrow> channel_id \<Rightarrow> ('z connection_scheme, unit gw_result) act" where
  \<comment> \<open>\<^verbatim>\<open>ProxySession::channel_eof\<close>\<close>
  "relay_eof L px channel =
     (case or_else (hm_get (px_session_channels px) channel) (hm_get (px_raw_channels px) channel) of
        None \<Rightarrow> act_return (Inr ())
      | Some backend \<Rightarrow> act_try (relay_call L (px_handle px) (SendEof backend) id) (\<lambda>_. act_return (Inr ())))"

definition relay_close ::
  "('d, 'k, 'h) link_libs \<Rightarrow> proxy_session \<Rightarrow> channel_id \<Rightarrow> ('z connection_scheme, proxy_session \<times> unit gw_result) act" where
  \<comment> \<open>\<^verbatim>\<open>ProxySession::channel_close\<close>; the channel is forgotten before the target is told\<close>
  "relay_close L px channel =
     (case (case hm_get (px_session_channels px) channel of
          Some backend \<Rightarrow> (px\<lparr>px_session_channels := hm_remove channel (px_session_channels px)\<rparr>, Some backend)
        | None \<Rightarrow> (px\<lparr>px_raw_channels := hm_remove channel (px_raw_channels px)\<rparr>,
            hm_get (px_raw_channels px) channel)) of
        (px, None) \<Rightarrow> act_return (px, Inr ())
      | (px, Some backend) \<Rightarrow> act_bind (relay_call L (px_handle px) (CloseChannel backend) id)
          (\<lambda>r. act_return (px, map_sum id (\<lambda>_. ()) r)))"

definition open_direct_tcpip_channel ::
  "('d, 'k, 'h) link_libs \<Rightarrow> proxy_session \<Rightarrow> channel_id \<Rightarrow> string \<Rightarrow> nat \<Rightarrow> string \<Rightarrow> nat
   \<Rightarrow> ('z connection_scheme, proxy_session gw_result) act" where
  "open_direct_tcpip_channel L px frontend_id host_to_connect port_to_connect originator_address originator_port =
     act_try (relay_call L (px_handle px)
         (OpenDirectTcpip host_to_connect port_to_connect originator_address originator_port) id) (\<lambda>target_channel.
     act_then (spawn_bridge px target_channel frontend_id True)
       (act_return (Inr (px\<lparr>px_raw_channels := hm_insert frontend_id target_channel (px_raw_channels px)\<rparr>))))"

definition link_tcpip_forward where
  "link_tcpip_forward L px address port = relay_call L (px_handle px) (TcpipForward address port) id"

definition link_cancel_tcpip_forward where
  "link_cancel_tcpip_forward L px address port =
     act_try (relay_call L (px_handle px) (CancelTcpipForward address port) id) (\<lambda>_. act_return (Inr ()))"

subsection \<open>Channels the target opens\<close>

definition accept_target_channel ::
  "('d, 'k, 'h) link_libs \<Rightarrow> proxy_session \<Rightarrow> nat \<Rightarrow> frontend_open \<Rightarrow> ('z connection_scheme, proxy_session) act" where
  \<comment> \<open>\<^verbatim>\<open>server_channel_open_forwarded_tcpip\<close> and \<^verbatim>\<open>server_channel_open_x11\<close>\<close>
  "accept_target_channel L px target_channel request =
     act_bind (\<lambda>s. (s\<lparr>cn_opened := cn_opened s @ [request]\<rparr>, Inr (ln_open_frontend L (cn_opened s) request)))
       (\<lambda>r. case r of
          Inl error \<Rightarrow> act_stop (SshIo error)
        | Inr frontend_id \<Rightarrow> act_then (spawn_bridge px target_channel frontend_id True)
            (act_return (px\<lparr>px_raw_channels := hm_insert frontend_id target_channel (px_raw_channels px)\<rparr>)))"

subsection \<open>The end of a link\<close>

definition record_error :: "string \<Rightarrow> proxy_session \<Rightarrow> proxy_session" where
  "record_error message px = (case px_last_error px of None \<Rightarrow> px\<lparr>px_last_error := Some message\<rparr> | Some _ \<Rightarrow> px)"

definition abort_proxy_session ::
  "('d, 'k, 'h) link_libs \<Rightarrow> string \<Rightarrow> proxy_session \<Rightarrow> ('z connection_scheme, proxy_session) act" where
  "abort_proxy_session L reason px =
     act_then (try_send L (ToDisconnect reason))
     (act_bind (target_call L (px_handle px) (DisconnectTarget reason)) (\<lambda>_.
     act_return (record_error reason px)))"

definition drop_proxy_session :: "('d, 'k, 'h) link_libs \<Rightarrow> proxy_session \<Rightarrow> ('z connection_scheme, unit) act" where
  \<comment> \<open>the task \<^verbatim>\<open>Drop\<close> spawns, run at once\<close>
  "drop_proxy_session L px =
     act_bind (target_call L (px_handle px) (DisconnectTarget ''gateway session closed'')) (\<lambda>_.
     log_link (ln_gateway L) (px_username px) (px_target_server px) id ''proxy_end''
       (if px_last_error px \<noteq> None then AuditFailure else AuditSuccess) (px_last_error px))"

subsection \<open>A new connection\<close>

definition new_connection :: "gateway \<Rightarrow> (ip_addr \<times> 16 word) option \<Rightarrow> string \<Rightarrow> connection" where
  "new_connection gw peer_addr uuid = session.extend (new_client gw peer_addr uuid) (connection.fields 0 [] [] [] [])"

definition sample_transport :: transport_settings where
  "sample_transport = \<lparr>ts_crypto = \<lparr>tc_preferred = preferred_of [], tc_limits = hardened_ssh_limits\<rparr>,
     ts_inactivity_timeout = Some (from_secs 600), ts_keepalive_interval = None, ts_keepalive_max = 0\<rparr>"

definition sample_links :: "(string, string, unit) link_libs" where
  \<comment> \<open>an instance of the parameters, for the witnesses: the target grants everything\<close>
  "sample_links = \<lparr>ln_gateway = sample_gateway_libs, ln_strict = False, ln_client_default = sample_transport,
     ln_connect = (\<lambda>n config address known. ([mlkem_name], if known () = Inr True then Inr () else Inl ''unknown key'')),
     ln_known_hosts = (\<lambda>d host port key path. Inr True), ln_load_key = (\<lambda>d path. Inr ''key''),
     ln_rsa_hash = (\<lambda>n. None), ln_auth = (\<lambda>n user key hash. Inr True),
     ln_target = (\<lambda>calls n call. Inr (length calls)), ln_send = (\<lambda>sent m. None),
     ln_open_frontend = (\<lambda>opened request. Inr (100 + length opened)), ln_show_channel = show_nat,
     ln_show_message = (\<lambda>m. ''message''), ln_show_signal = id\<rparr>"

end
