(* ===== verification/Session_Relay.thy ===== *)
theory Session_Relay
  imports Target_Link
begin

text \<open>
  What comes back from the target (the bridge tasks of \<^verbatim>\<open>src/src/ssh/proxy.rs\<close>) and the menu a
  client returns to when its shell ends (\<^verbatim>\<open>src/src/ui/mod.rs\<close>).  A message from the target is one
  step; the loops run over the messages received, \<^verbatim>\<open>None\<close> being the end of the channel.
\<close>

subsection \<open>The server menu\<close>

definition render_server_entry :: "nat \<Rightarrow> string \<Rightarrow> string \<Rightarrow> bool \<Rightarrow> string" where
  "render_server_entry idx nm ip hide_proxy_ip =
     (if hide_proxy_ip then show_nat (idx + 1) @ '' ) '' @ nm
      else show_nat (idx + 1) @ '' ) '' @ nm @ '' ('' @ ip @ '')'')"

definition crlf_lines :: "string \<Rightarrow> string" where
  \<comment> \<open>\<^verbatim>\<open>replace('\n', "\r\n")\<close>\<close>
  "crlf_lines text = concat (map (\<lambda>c. if [c] = newline then crlf else [c]) text)"

definition carriage_return :: string where "carriage_return = [CHR 13]"

definition render_server_menu :: "string \<Rightarrow> (string \<times> string) list \<Rightarrow> bool \<Rightarrow> string" where
  "render_server_menu username entries hide_proxy_ip = crlf_lines (
     crlf @ ''CentralSSH Gateway'' @ newline
     @ ''User: '' @ username @ newline
     @ newline
     @ ''Select a server:'' @ carriage_return @ newline
     @ concat (map (\<lambda>(idx, nm, ip). render_server_entry idx nm ip hide_proxy_ip @ newline) (enumerate 0 entries))
     @ newline
     @ ''Enter selection (or 'Q' to quit): '')"

subsection \<open>Messages of the target\<close>

datatype backend_session_action =
    ForwardData "nat option" string
  | ActEof
  | ActClose
  | ActSuccess
  | ActFailure
  | ActXonXoff bool
  | ActExitStatus nat
  | ActExitSignal string bool string string
  | ActWindowAdjusted

fun classify_backend_session_msg :: "(channel_msg \<Rightarrow> string) \<Rightarrow> channel_msg \<Rightarrow> string + backend_session_action" where
  "classify_backend_session_msg show (MsgData bytes) = Inr (ForwardData None bytes)"
| "classify_backend_session_msg show (MsgExtendedData ext bytes) = Inr (ForwardData (Some ext) bytes)"
| "classify_backend_session_msg show MsgEof = Inr ActEof"
| "classify_backend_session_msg show MsgClose = Inr ActClose"
| "classify_backend_session_msg show MsgSuccess = Inr ActSuccess"
| "classify_backend_session_msg show MsgFailure = Inr ActFailure"
| "classify_backend_session_msg show (MsgXonXoff client_can_do) = Inr (ActXonXoff client_can_do)"
| "classify_backend_session_msg show (MsgExitStatus exit_status) = Inr (ActExitStatus exit_status)"
| "classify_backend_session_msg show (MsgExitSignal signal_name core_dumped error_message lang_tag) =
     Inr (ActExitSignal signal_name core_dumped error_message lang_tag)"
| "classify_backend_session_msg show (MsgWindowAdjusted new_size) = Inr ActWindowAdjusted"
| "classify_backend_session_msg show (MsgRequest request) =
     Inl (''unexpected target session channel message: '' @ show (MsgRequest request))"
| "classify_backend_session_msg show (MsgOther other) =
     Inl (''unhandled target session channel message: '' @ show (MsgOther other))"

definition send_or :: "('d, 'k, 'h) link_libs \<Rightarrow> client_msg \<Rightarrow> string \<Rightarrow> ('z session_scheme, (string, unit) result) act" where
  \<comment> \<open>a send with the text its failure is reported with\<close>
  "send_or L m failure = act_bind (send L m) (\<lambda>r. act_return (case r of None \<Rightarrow> Inr () | Some _ \<Rightarrow> Inl failure))"

fun apply_backend_session_action ::
  "('d, 'k, 'h) link_libs \<Rightarrow> backend_session_action \<Rightarrow> channel_id \<Rightarrow> ('z session_scheme, (string, unit) result) act" where
  "apply_backend_session_action L (ForwardData extended_code bytes) frontend_id =
     send_or L (case extended_code of Some ext \<Rightarrow> ToExtendedData frontend_id ext bytes
       | None \<Rightarrow> ToData frontend_id bytes) (from_utf8_lossy bytes)"
| "apply_backend_session_action L ActEof frontend_id =
     send_or L (ToEof frontend_id) (''failed to send EOF to frontend channel '' @ ln_show_channel L frontend_id)"
| "apply_backend_session_action L ActClose frontend_id =
     send_or L (ToClose frontend_id) (''failed to close frontend channel '' @ ln_show_channel L frontend_id)"
| "apply_backend_session_action L ActSuccess frontend_id =
     send_or L (ToSuccess frontend_id) (''failed to send success to frontend channel '' @ ln_show_channel L frontend_id)"
| "apply_backend_session_action L ActFailure frontend_id =
     send_or L (ToFailure frontend_id) (''failed to send failure to frontend channel '' @ ln_show_channel L frontend_id)"
| "apply_backend_session_action L (ActXonXoff client_can_do) frontend_id =
     send_or L (ToXonXoff frontend_id client_can_do)
       (''failed to relay xon-xoff for frontend channel '' @ ln_show_channel L frontend_id)"
| "apply_backend_session_action L (ActExitStatus exit_status) frontend_id =
     send_or L (ToExitStatus frontend_id exit_status)
       (''failed to send exit-status to frontend channel '' @ ln_show_channel L frontend_id)"
| "apply_backend_session_action L (ActExitSignal signal_name core_dumped error_message lang_tag) frontend_id =
     send_or L (ToExitSignal frontend_id signal_name core_dumped error_message lang_tag)
       (''failed to send exit-signal to frontend channel '' @ ln_show_channel L frontend_id)"
| "apply_backend_session_action L ActWindowAdjusted frontend_id = act_return (Inr ())"

subsection \<open>Back to the menu\<close>

definition supports_inline_drop_to_menu :: "session_request \<Rightarrow> bool" where
  "supports_inline_drop_to_menu request \<longleftrightarrow> request = ShellRequest"

definition channel_state_should_reuse_menu :: "session_channel_state \<Rightarrow> bool \<Rightarrow> bool" where
  "channel_state_should_reuse_menu channel_state drop_to_menu \<longleftrightarrow>
     drop_to_menu \<and> supports_inline_drop_to_menu (cs_request channel_state)"

definition channel_should_reuse_menu ::
  "(channel_id, session_channel_state) hash_map \<Rightarrow> channel_id \<Rightarrow> bool \<Rightarrow> bool" where
  "channel_should_reuse_menu frontend_channel_state frontend_id drop_to_menu =
     unwrap_or False (map_option (\<lambda>channel_state. channel_state_should_reuse_menu channel_state drop_to_menu)
       (hm_get frontend_channel_state frontend_id))"

definition server_entries :: "runtime_state \<Rightarrow> user_record \<Rightarrow> (string \<times> string) list" where
  "server_entries snapshot user = List.map_filter (\<lambda>server_name. map_option (\<lambda>host. (server_name, host))
     (hm_get (rt_servers snapshot) server_name)) (user_allowed_servers user)"

definition activate_menu_after_disconnect ::
  "('d, 'k, 'h) link_libs \<Rightarrow> string \<Rightarrow> channel_id \<Rightarrow> bool \<Rightarrow> ('z session_scheme, bool) act" where
  "activate_menu_after_disconnect L username frontend_id drop_to_menu =
     (if \<not> drop_to_menu then act_return False
      else act_bind (act_get (\<lambda>s. hm_get (gh_channel_state s) frontend_id)) (\<lambda>found. case found of
          None \<Rightarrow> act_return False
        | Some channel_state \<Rightarrow>
            if \<not> supports_inline_drop_to_menu (cs_request channel_state) then act_return False
            else act_then (act_modify (\<lambda>s. s\<lparr>gh_channel_state := hm_insert frontend_id
                (channel_state\<lparr>cs_menu_active := True, cs_input_buffer := []\<rparr>) (gh_channel_state s)\<rparr>))
              (act_bind (act_get gw_config) (\<lambda>snapshot.
               case find (\<lambda>candidate. user_name candidate = username) (cf_users (rt_config snapshot)) of
                 None \<Rightarrow> act_return False
               | Some user \<Rightarrow>
                   let entries = server_entries snapshot user in
                   if entries = [] then act_return False
                   else act_bind (act_get (\<lambda>s. ep_hide_proxy_ip (gw_paths s))) (\<lambda>hide_proxy_ip.
                     act_bind (send L (ToData frontend_id (render_server_menu username entries hide_proxy_ip)))
                       (\<lambda>r. act_return (r = None)))))))"

subsection \<open>The bridge of a session channel\<close>

definition end_of_session ::
  "('d, 'k, 'h) link_libs \<Rightarrow> channel_id \<Rightarrow> proxy_session \<Rightarrow> ('z session_scheme, proxy_session \<times> bool option) act" where
  \<comment> \<open>the target's channel is gone: the menu, or the client's channel is to be closed\<close>
  "end_of_session L frontend_id px =
     act_bind (activate_menu_after_disconnect L (px_username px) frontend_id (px_drop_to_menu px)) (\<lambda>menu.
     act_return (px\<lparr>px_session_channels := hm_remove frontend_id (px_session_channels px)\<rparr>, Some (\<not> menu)))"

definition relay_message ::
  "('d, 'k, 'h) link_libs \<Rightarrow> channel_id \<Rightarrow> channel_msg \<Rightarrow> proxy_session
   \<Rightarrow> ('z connection_scheme, proxy_session \<times> bool option) act" where
  \<comment> \<open>one turn of the loop for a message; \<^verbatim>\<open>Some close_frontend\<close> ends it\<close>
  "relay_message L frontend_id message px =
     (case classify_backend_session_msg (ln_show_message L) message of
        Inl reason \<Rightarrow> act_bind (abort_proxy_session L reason px) (\<lambda>px. act_return (px, Some True))
      | Inr action \<Rightarrow>
          act_bind (act_get (\<lambda>s. channel_should_reuse_menu (gh_channel_state s) frontend_id (px_drop_to_menu px)))
            (\<lambda>keep_frontend_for_menu.
          if keep_frontend_for_menu \<and> (case action of ActExitStatus _ \<Rightarrow> True | ActExitSignal _ _ _ _ \<Rightarrow> True
               | ActEof \<Rightarrow> True | _ \<Rightarrow> False)
          then act_return (px, None)
          else let should_break = (action = ActClose) in
            if keep_frontend_for_menu \<and> should_break then end_of_session L frontend_id px
            else act_bind (apply_backend_session_action L action frontend_id) (\<lambda>r. case r of
                Inl error \<Rightarrow> act_bind (abort_proxy_session L error px) (\<lambda>px. act_return (px, Some True))
              | Inr _ \<Rightarrow> if should_break then end_of_session L frontend_id px else act_return (px, None))))"

fun relay_backend_session ::
  "('d, 'k, 'h) link_libs \<Rightarrow> channel_id \<Rightarrow> channel_msg list \<Rightarrow> proxy_session
   \<Rightarrow> ('z connection_scheme, proxy_session \<times> bool option) act" where
  \<comment> \<open>the messages up to the end of the channel\<close>
  "relay_backend_session L frontend_id [] px = end_of_session L frontend_id px"
| "relay_backend_session L frontend_id (message # messages) px =
     act_bind (relay_message L frontend_id message px) (\<lambda>(px, over). case over of
       None \<Rightarrow> relay_backend_session L frontend_id messages px
     | Some close_frontend \<Rightarrow> act_return (px, Some close_frontend))"

definition session_bridge ::
  "('d, 'k, 'h) link_libs \<Rightarrow> channel_id \<Rightarrow> channel_msg list \<Rightarrow> proxy_session \<Rightarrow> ('z connection_scheme, proxy_session) act" where
  \<comment> \<open>the task of \<^verbatim>\<open>spawn_session_bridge\<close>\<close>
  "session_bridge L frontend_id messages px =
     act_bind (relay_backend_session L frontend_id messages px) (\<lambda>(px, close_frontend).
     act_then (act_when (close_frontend = Some True) (try_send L (ToClose frontend_id)))
       (act_return px))"

subsection \<open>The bridge of a raw channel\<close>

definition raw_message ::
  "('d, 'k, 'h) link_libs \<Rightarrow> channel_id \<Rightarrow> channel_msg option \<Rightarrow> proxy_session
   \<Rightarrow> ('z session_scheme, proxy_session \<times> bool) act" where
  \<comment> \<open>one turn of the loop of \<^verbatim>\<open>spawn_raw_backend_bridge\<close>, and whether it goes on\<close>
  "raw_message L frontend_id message px =
     (let report = (\<lambda>r. act_return (case r of Inl error \<Rightarrow> (record_error error px, False) | Inr _ \<Rightarrow> (px, True))) in
      case message of
        Some (MsgData bytes) \<Rightarrow> act_bind (send_or L (ToData frontend_id bytes) (from_utf8_lossy bytes)) report
      | Some (MsgWindowAdjusted _) \<Rightarrow> act_return (px, True)
      | Some (MsgExtendedData ext bytes) \<Rightarrow>
          act_bind (send_or L (ToExtendedData frontend_id ext bytes) (from_utf8_lossy bytes)) report
      | Some MsgEof \<Rightarrow> act_bind (send_or L (ToEof frontend_id)
          (''failed to send EOF to raw frontend channel '' @ ln_show_channel L frontend_id)) report
      | Some MsgClose \<Rightarrow> act_then (try_send L (ToClose frontend_id)) (act_return (px, False))
      | Some other \<Rightarrow> act_then (try_send L (ToClose frontend_id))
          (act_return (record_error (''unexpected raw backend channel message: '' @ ln_show_message L other) px, False))
      | None \<Rightarrow> act_then (try_send L (ToClose frontend_id)) (act_return (px, False)))"

fun raw_bridge ::
  "('d, 'k, 'h) link_libs \<Rightarrow> channel_id \<Rightarrow> channel_msg list \<Rightarrow> proxy_session \<Rightarrow> ('z session_scheme, proxy_session) act" where
  \<comment> \<open>the messages up to the end of the channel\<close>
  "raw_bridge L frontend_id [] px = act_bind (raw_message L frontend_id None px) (\<lambda>(px, on). act_return px)"
| "raw_bridge L frontend_id (message # messages) px =
     act_bind (raw_message L frontend_id (Some message) px) (\<lambda>(px, on).
       if on then raw_bridge L frontend_id messages px else act_return px)"

subsection \<open>What the client receives\<close>

definition sends_succeed :: "('d, 'k, 'h) link_libs \<Rightarrow> bool" where
  \<comment> \<open>the client stays connected\<close>
  "sends_succeed L \<longleftrightarrow> (\<forall>sent m. ln_send L sent m = None)"

lemma send_run: "sends_succeed L \<Longrightarrow> send L m s = (s\<lparr>gh_sent := gh_sent s @ [m]\<rparr>, Inr None)"
  by (simp add: sends_succeed_def send_def)

lemma try_send_run: "sends_succeed L \<Longrightarrow> try_send L m s = (s\<lparr>gh_sent := gh_sent s @ [m]\<rparr>, Inr ())"
  by (simp add: try_send_def act_bind_def send_run)

lemma send_or_run: "sends_succeed L \<Longrightarrow> send_or L m e s = (s\<lparr>gh_sent := gh_sent s @ [m]\<rparr>, Inr (Inr ()))"
  by (simp add: send_or_def act_bind_def send_run)

fun relayed :: "bool \<Rightarrow> channel_id \<Rightarrow> channel_msg \<Rightarrow> client_msg list" where
  \<comment> \<open>what one message of the target is to the client; the first argument says that a menu may follow\<close>
  "relayed keep f (MsgData bytes) = [ToData f bytes]"
| "relayed keep f (MsgExtendedData ext bytes) = [ToExtendedData f ext bytes]"
| "relayed keep f MsgEof = (if keep then [] else [ToEof f])"
| "relayed keep f MsgClose = (if keep then [] else [ToClose f])"
| "relayed keep f MsgSuccess = [ToSuccess f]"
| "relayed keep f MsgFailure = [ToFailure f]"
| "relayed keep f (MsgXonXoff b) = [ToXonXoff f b]"
| "relayed keep f (MsgExitStatus n) = (if keep then [] else [ToExitStatus f n])"
| "relayed keep f (MsgExitSignal sig core text lang) = (if keep then [] else [ToExitSignal f sig core text lang])"
| "relayed keep f (MsgWindowAdjusted n) = []"
| "relayed keep f (MsgRequest r) = []"
| "relayed keep f (MsgOther t) = []"

definition menu_after :: "'z session_scheme \<Rightarrow> channel_id \<Rightarrow> proxy_session \<Rightarrow> string option" where
  \<comment> \<open>the menu a client gets when the target's channel ends\<close>
  "menu_after s f px =
     (if channel_should_reuse_menu (gh_channel_state s) f (px_drop_to_menu px) then
        (case find (\<lambda>u. user_name u = px_username px) (gw_users s) of
           None \<Rightarrow> None
         | Some user \<Rightarrow> (let entries = server_entries (gw_config s) user in
             if entries = [] then None
             else Some (render_server_menu (px_username px) entries (ep_hide_proxy_ip (gw_paths s)))))
      else None)"

abbreviation forget_channel :: "channel_id \<Rightarrow> proxy_session \<Rightarrow> proxy_session" where
  "forget_channel f px \<equiv> px\<lparr>px_session_channels := hm_remove f (px_session_channels px)\<rparr>"

lemma reuse_iff:
  "channel_should_reuse_menu m f drops \<longleftrightarrow>
     drops \<and> (\<exists>cs. hm_get m f = Some cs \<and> supports_inline_drop_to_menu (cs_request cs))"
  by (simp add: channel_should_reuse_menu_def channel_state_should_reuse_menu_def unwrap_or_def split: option.split)

lemma menu_after_reuse:
  "menu_after s f px = Some menu \<Longrightarrow> channel_should_reuse_menu (gh_channel_state s) f (px_drop_to_menu px)"
  by (simp add: menu_after_def split: if_splits)

definition menu_opened :: "channel_id \<Rightarrow> 'z session_scheme \<Rightarrow> 'z session_scheme" where
  \<comment> \<open>the channel's menu takes its input\<close>
  "menu_opened f s = s\<lparr>gh_channel_state := (case hm_get (gh_channel_state s) f of None \<Rightarrow> gh_channel_state s
     | Some cs \<Rightarrow> hm_insert f (cs\<lparr>cs_menu_active := True, cs_input_buffer := []\<rparr>) (gh_channel_state s))\<rparr>"

lemma menu_opened_simps [simp]:
  "gh_sent (menu_opened f s) = gh_sent s" "gw_config (menu_opened f s) = gw_config s"
  "gw_paths (menu_opened f s) = gw_paths s" "cn_calls (menu_opened f t) = cn_calls t"
  by (simp_all add: menu_opened_def)

lemma activate_run:
  assumes "sends_succeed L"
  shows "activate_menu_after_disconnect L (px_username px) f (px_drop_to_menu px) s =
     (if channel_should_reuse_menu (gh_channel_state s) f (px_drop_to_menu px)
      then (case menu_after s f px of
          None \<Rightarrow> (menu_opened f s, Inr False)
        | Some menu \<Rightarrow> ((menu_opened f s)\<lparr>gh_sent := gh_sent s @ [ToData f menu]\<rparr>, Inr True))
      else (s, Inr False))"
proof (cases "channel_should_reuse_menu (gh_channel_state s) f (px_drop_to_menu px)")
  case True
  then obtain cs where cs: "px_drop_to_menu px" "hm_get (gh_channel_state s) f = Some cs"
    "supports_inline_drop_to_menu (cs_request cs)"
    by (auto simp: reuse_iff)
  have opened: "s\<lparr>gh_channel_state := hm_insert f (cs\<lparr>cs_menu_active := True, cs_input_buffer := []\<rparr>)
      (gh_channel_state s)\<rparr> = menu_opened f s"
    using cs by (simp add: menu_opened_def)
  show ?thesis
  proof (cases "find (\<lambda>u. user_name u = px_username px) (gw_users s)")
    case None
    then have "menu_after s f px = None" by (simp add: menu_after_def)
    with None True cs opened show ?thesis by (simp add: activate_menu_after_disconnect_def)
  next
    case (Some user)
    then have "menu_after s f px = (if server_entries (gw_config s) user = [] then None
        else Some (render_server_menu (px_username px) (server_entries (gw_config s) user) (ep_hide_proxy_ip (gw_paths s))))"
      by (simp add: menu_after_def True)
    with Some True cs opened show ?thesis
      by (simp add: activate_menu_after_disconnect_def Let_def act_bind_def [of "send _ _"] send_run [OF assms])
  qed
next
  case False
  then have "activate_menu_after_disconnect L (px_username px) f (px_drop_to_menu px) s = (s, Inr False)"
    by (auto simp: activate_menu_after_disconnect_def reuse_iff split: option.split)
  then show ?thesis using False by simp
qed

lemma apply_run:
  assumes "sends_succeed L" "classify_backend_session_msg show m = Inr action"
  shows "apply_backend_session_action L action f s = (s\<lparr>gh_sent := gh_sent s @ relayed False f m\<rparr>, Inr (Inr ()))"
  using assms by (cases m) (auto simp: send_or_run)

lemma relay_message_run:
  assumes "sends_succeed L" "m \<noteq> MsgClose" "is_ok (classify_backend_session_msg (ln_show_message L) m)"
    and "keep = channel_should_reuse_menu (gh_channel_state s) f (px_drop_to_menu px)"
  shows "relay_message L f m px s = (s\<lparr>gh_sent := gh_sent s @ relayed keep f m\<rparr>, Inr (px, None))"
proof -
  obtain action where a: "classify_backend_session_msg (ln_show_message L) m = Inr action"
    using assms(3) by (auto simp: is_ok_iff)
  have "action \<noteq> ActClose" using a assms(2) by (cases m) auto
  then show ?thesis
    using a assms(4) apply_run [OF assms(1) a, of f s]
    by (cases m) (auto simp: relay_message_def act_bind_def)
qed

lemma relay_messages_run:
  assumes "sends_succeed L" "\<forall>m \<in> set ms. m \<noteq> MsgClose \<and> is_ok (classify_backend_session_msg (ln_show_message L) m)"
    and "keep = channel_should_reuse_menu (gh_channel_state s) f (px_drop_to_menu px)"
  shows "relay_backend_session L f (ms @ rest) px s =
     relay_backend_session L f rest px (s\<lparr>gh_sent := gh_sent s @ concat (map (relayed keep f) ms)\<rparr>)"
  using assms(2,3)
proof (induction ms arbitrary: s)
  case (Cons m ms)
  then show ?case
    using relay_message_run [OF assms(1), of m keep s f px] by (simp add: act_bind_def)
qed simp

text \<open>
  C10: The client receives what the target sent, in order.  While the client stays connected, a
  session's bridge relays every message up to the close of the target's channel, and nothing
  else; it makes no call to the target.  Then the channel is forgotten and the client's channel
  closed, unless the channel had a shell and the menu is enabled: then the end of the shell is
  kept from the client (exit status, end of file, close), and the menu is shown if the user
  still has servers.
\<close>
theorem bridge_relays_in_order:
  assumes "sends_succeed L"
    and "messages = ms @ rest" and "rest = [] \<or> (\<exists>more. rest = MsgClose # more)"
    and "\<forall>m \<in> set ms. m \<noteq> MsgClose \<and> is_ok (classify_backend_session_msg (ln_show_message L) m)"
    and "keep = channel_should_reuse_menu (gh_channel_state s) f (px_drop_to_menu px)"
  shows "\<exists>s'. session_bridge L f messages px s = (s', Inr (forget_channel f px))
    \<and> cn_calls s' = cn_calls s
    \<and> gh_sent s' = gh_sent s @ concat (map (relayed keep f) (ms @ take 1 rest))
        @ (case menu_after s f px of Some menu \<Rightarrow> [ToData f menu] | None \<Rightarrow> [ToClose f])"
proof -
  let ?s = "s\<lparr>gh_sent := gh_sent s @ concat (map (relayed keep f) ms)\<rparr>"
  have ending: "\<exists>s'. end_of_session L f px (s\<lparr>gh_sent := x\<rparr>) = (s', Inr (forget_channel f px, Some (menu_after s f px = None)))
      \<and> cn_calls s' = cn_calls s
      \<and> gh_sent s' = x @ (case menu_after s f px of Some menu \<Rightarrow> [ToData f menu] | None \<Rightarrow> [])" for x
  proof -
    let ?t = "s\<lparr>gh_sent := x\<rparr>"
    have same: "menu_after ?t f px = menu_after s f px"
      by (simp add: menu_after_def Let_def cong: option.case_cong if_cong)
    show ?thesis
      using activate_run [OF assms(1), of px f ?t] same
        menu_after_reuse [of s f px]
      by (cases "menu_after s f px") (auto simp: end_of_session_def act_bind_def)
  qed
  have "\<exists>s'. relay_backend_session L f rest px ?s = (s', Inr (forget_channel f px, Some (menu_after s f px = None)))
      \<and> cn_calls s' = cn_calls s
      \<and> gh_sent s' = gh_sent s @ concat (map (relayed keep f) (ms @ take 1 rest))
        @ (case menu_after s f px of Some menu \<Rightarrow> [ToData f menu] | None \<Rightarrow> [])"
    using assms(3)
  proof
    assume "rest = []"
    then show ?thesis using ending [of "gh_sent s @ concat (map (relayed keep f) ms)"] by simp
  next
    assume "\<exists>more. rest = MsgClose # more"
    then obtain more where rest: "rest = MsgClose # more" by blast
    show ?thesis
    proof (cases keep)
      case True
      then have "relay_message L f MsgClose px ?s = end_of_session L f px ?s"
        using assms(5) by (simp add: relay_message_def act_bind_def)
      then show ?thesis using ending [of "gh_sent s @ concat (map (relayed keep f) ms)"] True rest by (auto simp: act_bind_def)
    next
      case False
      let ?t = "?s\<lparr>gh_sent := gh_sent ?s @ [ToClose f]\<rparr>"
      have "relay_message L f MsgClose px ?s = end_of_session L f px ?t"
        using assms(1,5) False by (simp add: relay_message_def act_bind_def send_or_run)
      then show ?thesis using ending [of "gh_sent s @ concat (map (relayed keep f) ms) @ [ToClose f]"] False rest by (auto simp: act_bind_def)
    qed
  qed
  then show ?thesis
    using assms(1,2) relay_messages_run [OF assms(1,4,5), of rest]
    by (auto simp: session_bridge_def act_bind_def act_then_def try_send_run split: option.splits)
qed

lemma bridge_relays_in_order_witness:
  "\<exists>s'. session_bridge sample_links 3 [MsgData ''hi'', MsgExitStatus 0, MsgClose]
      \<lparr>px_handle = 0, px_username = ''bob'', px_target_server = ''web'', px_session_channels = [(3, 5)],
        px_raw_channels = [], px_last_error = None, px_drop_to_menu = True\<rparr>
      (new_connection sample_gateway None ''id'') = (s', Inr \<lparr>px_handle = 0, px_username = ''bob'',
        px_target_server = ''web'', px_session_channels = [], px_raw_channels = [], px_last_error = None,
        px_drop_to_menu = True\<rparr>)
    \<and> gh_sent s' = [ToData 3 ''hi'', ToExitStatus 3 0, ToClose 3, ToClose 3]"
proof -
  let ?px = "\<lparr>px_handle = 0, px_username = ''bob'', px_target_server = ''web'', px_session_channels = [(3, 5)],
      px_raw_channels = [], px_last_error = None, px_drop_to_menu = True\<rparr>"
  let ?s = "new_connection sample_gateway None ''id''"
  have start: "gh_channel_state ?s = []" "gh_sent ?s = []"
    by (simp_all add: new_connection_def new_client_def gateway.defs session.defs connection.defs)
  then have keep: "channel_should_reuse_menu (gh_channel_state ?s) 3 True = False" "menu_after ?s 3 ?px = None"
    by (simp_all add: reuse_iff menu_after_def hm_get_def)
  have "sends_succeed sample_links" by (simp add: sends_succeed_def sample_links_def)
  from bridge_relays_in_order [OF this, of _ "[MsgData ''hi'', MsgExitStatus 0]" "[MsgClose]" False ?s 3 ?px]
  show ?thesis using start keep by (auto simp: hm_remove_def)
qed

lemma enumerate_names:
  "map (\<lambda>(i, nm, ip). g i nm) (enumerate n es) = map (\<lambda>(i, nm). g i nm) (enumerate n (map fst es))"
  by (induction es arbitrary: n) auto

end
