(* ===== verification/Server_Menu.thy ===== *)
theory Server_Menu
  imports Session_Relay Keyboard_Auth
begin

text \<open>
  The menu a client types into after its shell has ended, and the choice of a server
  (\<^verbatim>\<open>src/src/ssh/mod.rs\<close>): the line editor, the connection to the selected target and the
  replay of the channel's requests on it.
\<close>

subsection \<open>The line editor\<close>

datatype menu_byte_action = MenuIgnore | CompleteEscapeSequence | SubmitLine | Backspace | EchoAndBuffer char

definition menu_input_byte_action :: "menu_escape_state \<Rightarrow> char \<Rightarrow> menu_escape_state \<times> menu_byte_action" where
  "menu_input_byte_action state byte =
     (let b = byte_val byte in
      case state of
        EscNone \<Rightarrow>
          if b = 13 \<or> b = 10 then (EscNone, SubmitLine)
          else if b = 8 \<or> b = 127 then (EscNone, Backspace)
          else if b = 27 then (SawEscape, MenuIgnore)
          else if 32 \<le> b \<and> b \<le> 126 then (EscNone, EchoAndBuffer byte)
          else (EscNone, MenuIgnore)
      | SawEscape \<Rightarrow> (if byte = CHR ''['' then SawCsi else EscNone, MenuIgnore)
      | SawCsi \<Rightarrow> if 64 \<le> b \<and> b \<le> 126 then (EscNone, CompleteEscapeSequence) else (SawCsi, MenuIgnore))"

definition erase :: string where
  "erase = [byte_of 8, CHR '' '', byte_of 8]"

fun menu_bytes ::
  "('d, 'k, 'h) link_libs \<Rightarrow> channel_id \<Rightarrow> session_channel_state \<Rightarrow> string
   \<Rightarrow> ('z session_scheme, session_channel_state \<times> string option) act" where
  \<comment> \<open>the loop over the bytes received: the channel after it, and the line if one is complete\<close>
  "menu_bytes L channel channel_state [] = act_return (channel_state, None)"
| "menu_bytes L channel channel_state (byte # bytes) =
     (case menu_input_byte_action (cs_menu_escape_state channel_state) byte of (escape, action) \<Rightarrow>
      let channel_state = channel_state\<lparr>cs_menu_escape_state := escape\<rparr> in
      case action of
        MenuIgnore \<Rightarrow> menu_bytes L channel channel_state bytes
      | CompleteEscapeSequence \<Rightarrow> menu_bytes L channel channel_state bytes
      | SubmitLine \<Rightarrow>
          act_then (try_send L (ToData channel crlf))
            (act_return (channel_state\<lparr>cs_input_buffer := []\<rparr>, Some (from_utf8_lossy (cs_input_buffer channel_state))))
      | Backspace \<Rightarrow>
          if cs_input_buffer channel_state = [] then menu_bytes L channel channel_state bytes
          else act_then (try_send L (ToData channel erase))
            (menu_bytes L channel (channel_state\<lparr>cs_input_buffer := butlast (cs_input_buffer channel_state)\<rparr>) bytes)
      | EchoAndBuffer b \<Rightarrow>
          act_then (try_send L (ToData channel [b]))
            (menu_bytes L channel (channel_state\<lparr>cs_input_buffer := cs_input_buffer channel_state @ [b]\<rparr>) bytes))"

subsection \<open>What the editor computes\<close>

definition printable :: "char \<Rightarrow> bool" where
  "printable c \<longleftrightarrow> 32 \<le> byte_val c \<and> byte_val c \<le> 126"

definition final_byte :: "char \<Rightarrow> bool" where
  \<comment> \<open>ends a control sequence\<close>
  "final_byte c \<longleftrightarrow> 64 \<le> byte_val c \<and> byte_val c \<le> 126"

definition line_end :: "char \<Rightarrow> bool" where "line_end c \<longleftrightarrow> byte_val c = 13 \<or> byte_val c = 10"
definition rubout :: "char \<Rightarrow> bool" where "rubout c \<longleftrightarrow> byte_val c = 8 \<or> byte_val c = 127"
definition escape :: char where "escape = byte_of 27"

lemma dropWhile_drop_length: "length (drop 1 (dropWhile p xs)) \<le> length xs"
  using length_dropWhile_le [of p xs] by (simp add: le_diff_conv)

function (sequential) without_escapes :: "string \<Rightarrow> string" where
  \<comment> \<open>the input without its escape sequences\<close>
  "without_escapes [] = []"
| "without_escapes (c # cs) =
     (if c \<noteq> escape then c # without_escapes cs
      else case cs of
          [] \<Rightarrow> []
        | d # ds \<Rightarrow> if d = CHR ''['' then without_escapes (drop 1 (dropWhile (\<lambda>b. \<not> final_byte b) ds))
            else without_escapes ds)"
  by pat_completeness auto
termination
  by (relation "measure length") (auto simp: le_imp_less_Suc le_SucI dropWhile_drop_length [simplified])

definition edit :: "string \<Rightarrow> char \<Rightarrow> string" where
  "edit line c = (if rubout c then butlast line else if printable c then line @ [c] else line)"

definition pending :: "menu_escape_state \<Rightarrow> string" where
  \<comment> \<open>the part of an escape sequence already read\<close>
  "pending state = (case state of EscNone \<Rightarrow> [] | SawEscape \<Rightarrow> [escape] | SawCsi \<Rightarrow> [escape, CHR ''[''])"

definition edited :: "string \<Rightarrow> string \<Rightarrow> string option \<times> string" where
  \<comment> \<open>the line completed by the input, if any, and the line left in the editor\<close>
  "edited line input = (let typed = takeWhile (\<lambda>c. \<not> line_end c) input in
     if typed = input then (None, foldl edit line input) else (Some (foldl edit line typed), []))"

lemma edited_simps [simp]:
  "edited line [] = (None, line)"
  "edited line (c # cs) = (if line_end c then (Some line, []) else edited (edit line c) cs)"
  by (simp_all add: edited_def Let_def)

lemma escape_val [simp]: "byte_val escape = 27"
  by (simp add: escape_def)

lemma byte_val_eq: "byte_val c = byte_val d \<longleftrightarrow> c = d"
  by (simp add: byte_val_def)

lemma try_send_returns: "\<exists>s'. try_send L m s = (s', Inr ())"
  by (simp add: try_send_def send_def act_bind_def split: option.split)

lemma pending_steps:
  "without_escapes (pending SawEscape @ c # cs) = without_escapes (pending (if c = CHR ''['' then SawCsi else EscNone) @ cs)"
  "without_escapes (pending SawCsi @ c # cs) = without_escapes (pending (if final_byte c then EscNone else SawCsi) @ cs)"
  "without_escapes (pending EscNone @ escape # cs) = without_escapes (pending SawEscape @ cs)"
  "c \<noteq> escape \<Longrightarrow> without_escapes (pending EscNone @ c # cs) = c # without_escapes (pending EscNone @ cs)"
  by (simp_all add: pending_def)

lemma pending_only: "without_escapes (pending state) = []"
  by (cases state) (simp_all add: pending_def)

lemma printable_lossy: "\<forall>c\<in>set line. printable c \<Longrightarrow> from_utf8_lossy line = line"
  by (rule from_utf8_lossy_ascii) (auto simp: is_ascii_def list_all_iff printable_def)

lemma printable_edit: "\<forall>c\<in>set line. printable c \<Longrightarrow> \<forall>d\<in>set (edit line c). printable d"
  by (auto simp: edit_def dest: in_set_butlastD)



subsection \<open>Connecting to the selected target\<close>

definition current_target_name :: "'z session_scheme \<Rightarrow> string option" where
  "current_target_name s = map_option st_name (gh_pending_target s)"

definition resolve_target_policy :: "'z session_scheme \<Rightarrow> string \<Rightarrow> string \<Rightarrow> effective_authorization_policy gw_result" where
  "resolve_target_policy s username target_name =
     resolve_effective_authorization_policy (rt_config (gw_config s)) username target_name
       (ep_per_user_per_server (gw_paths s))"

definition replace_proxy_session :: "('d, 'k, 'h) link_libs \<Rightarrow> proxy_session \<Rightarrow> ('z connection_scheme, unit) act" where
  \<comment> \<open>\<^verbatim>\<open>self.proxy_session = Some(proxy_session)\<close>, which drops the session replaced\<close>
  "replace_proxy_session L px =
     act_bind (act_get gh_proxy_session) (\<lambda>old.
     act_then (act_modify (\<lambda>s. s\<lparr>gh_proxy_session := Some px\<rparr>))
       (case old of
          None \<Rightarrow> act_return ()
        | Some replaced \<Rightarrow> act_then (act_modify (\<lambda>s. s\<lparr>cn_detached := cn_detached s @ [replaced]\<rparr>))
            (drop_proxy_session L replaced)))"

definition connect_selected_target ::
  "('d, 'k, 'h) link_libs \<Rightarrow> string \<Rightarrow> selected_target \<Rightarrow> ('z connection_scheme, unit) act" where
  "connect_selected_target L username target =
     (let log = log_event (ln_gateway L) in
      act_then (log ''server_selected'' (Some username) (Some (st_name target)) None AuditSuccess None None None)
      (act_bind (act_get (\<lambda>s. resolve_target_policy s username (st_name target))) (\<lambda>r.
       act_bind (act_io r) (\<lambda>policy.
       act_bind (connect L username target) (\<lambda>outcome. case outcome of
          Inr proxy_session \<Rightarrow>
            act_then (log ''proxy_start'' (Some username) (Some (st_name target)) None AuditSuccess None None None)
            (act_then (act_modify (\<lambda>s. s\<lparr>gh_active_policy := Some policy\<rparr>))
              (replace_proxy_session L proxy_session))
        | Inl error \<Rightarrow>
            act_then (act_modify (\<lambda>s. s\<lparr>gh_active_policy := None\<rparr>))
            (act_then (log ''proxy_start'' (Some username) (Some (st_name target)) None AuditFailure
                (Some (display_error error)) None None)
              (must_send L (ToDisconnect (''Failed to connect to target '' @ st_name target @ '': ''
                @ display_error error)))))))))"

subsection \<open>Menu input\<close>

definition replay_requests ::
  "('d, 'k, 'h) link_libs \<Rightarrow> proxy_session \<Rightarrow> channel_id \<Rightarrow> session_channel_state \<Rightarrow> ('z connection_scheme, unit) act" where
  \<comment> \<open>the terminal and the request of the channel, on its new target\<close>
  "replay_requests L px channel replay =
     act_then (case cs_pty replay of
         None \<Rightarrow> act_return ()
       | Some pty \<Rightarrow> act_bind (request_pty L px channel True pty) act_io)
     (act_bind (case cs_request replay of
         ShellRequest \<Rightarrow> request_shell L px channel True
       | ExecRequest command \<Rightarrow> exec L px channel True command
       | SubsystemRequest nm \<Rightarrow> request_subsystem L px channel True nm
       | NoRequest \<Rightarrow> act_return (Inr ())) act_io)"

definition reopen_channel :: "('d, 'k, 'h) link_libs \<Rightarrow> channel_id \<Rightarrow> ('z connection_scheme, unit) act" where
  \<comment> \<open>the client's channel on the session in place\<close>
  "reopen_channel L channel =
     act_bind (act_get gh_proxy_session) (\<lambda>session. case session of
       None \<Rightarrow> act_return ()
     | Some px \<Rightarrow>
         act_bind (open_session_channel_by_id L px channel) (\<lambda>r.
         act_bind (act_io r) (\<lambda>px.
         act_then (act_modify (\<lambda>s. s\<lparr>gh_proxy_session := Some px\<rparr>))
         (act_bind (act_get (\<lambda>s. hm_get (gh_channel_state s) channel)) (\<lambda>replay. case replay of
            None \<Rightarrow> act_return ()
          | Some replay \<Rightarrow> replay_requests L px channel replay)))))"

definition menu_selection :: "('d, 'k, 'h) link_libs \<Rightarrow> channel_id \<Rightarrow> string \<Rightarrow> string \<Rightarrow> ('z connection_scheme, unit) act" where
  \<comment> \<open>a complete line\<close>
  "menu_selection L channel username selection =
     (if eq_ignore_ascii_case (trim selection) ''q'' then must_send L (ToDisconnect ''user exited menu'')
      else
        act_bind (act_get (\<lambda>s. allowed_server_entries (gw_config s) username)) (\<lambda>r.
        act_bind (act_io r) (\<lambda>entries. case selected_index selection entries of
          None \<Rightarrow>
            act_bind (selection_prompt (ln_gateway L) username (Some ''Invalid selection.'')) (\<lambda>r.
            act_bind (act_io r) (\<lambda>retry. case retry of
               AuthPartial nm instructions prompts \<Rightarrow>
                 try_send L (ToData channel (instructions @ (case prompts of [] \<Rightarrow> [] | (prompt, _) # _ \<Rightarrow> prompt)))
             | _ \<Rightarrow> act_return ()))
        | Some index \<Rightarrow>
            let target = \<lparr>st_name = fst (entries ! index), st_host = snd (entries ! index)\<rparr> in
            act_then (act_modify (\<lambda>s. case hm_get (gh_channel_state s) channel of
                None \<Rightarrow> s
              | Some channel_state \<Rightarrow> s\<lparr>gh_channel_state := hm_insert channel (channel_state
                  \<lparr>cs_menu_active := False, cs_menu_escape_state := EscNone\<rparr>) (gh_channel_state s)\<rparr>))
            (act_then (connect_selected_target L username target)
              (reopen_channel L channel)))))"

definition handle_menu_channel_input ::
  "('d, 'k, 'h) link_libs \<Rightarrow> channel_id \<Rightarrow> string \<Rightarrow> ('z connection_scheme, bool) act" where
  \<comment> \<open>whether the menu took the input\<close>
  "handle_menu_channel_input L channel bytes =
     act_bind (act_get gh_authenticated_username) (\<lambda>user. case user of
       None \<Rightarrow> act_return False
     | Some username \<Rightarrow>
         act_bind (act_get (\<lambda>s. hm_get (gh_channel_state s) channel)) (\<lambda>found. case found of
           None \<Rightarrow> act_return False
         | Some channel_state \<Rightarrow>
             if \<not> cs_menu_active channel_state then act_return False
             else
               act_bind (menu_bytes L channel channel_state bytes) (\<lambda>(channel_state, maybe_line).
               act_then (act_modify (\<lambda>s. s\<lparr>gh_channel_state := hm_insert channel channel_state (gh_channel_state s)\<rparr>))
                 (case maybe_line of
                    None \<Rightarrow> act_return True
                  | Some selection \<Rightarrow>
                      act_then (menu_selection L channel username selection) (act_return True)))))"

subsection \<open>Hidden addresses\<close>

text \<open>
  With addresses hidden, the menus a client sees do not depend on them: two lists of servers
  with the same names give the same selection at login and the same menu after a shell.
\<close>
theorem hidden_addresses_stay_hidden:
  assumes "map fst entries = map fst entries'"
  shows "selection_text True entries message = selection_text True entries' message
    \<and> render_server_menu username entries True = render_server_menu username entries' True"
proof -
  have "map (\<lambda>(i, e). server_line True i e) (enumerate 0 es) = map (\<lambda>(i, nm). server_line True i (nm, []))
      (enumerate 0 (map fst es))" for es
    using enumerate_names [of "\<lambda>i nm. server_line True i (nm, [])" 0 es]
    by (simp add: server_line_def case_prod_beta')
  moreover have "map (\<lambda>(i, nm, ip). render_server_entry i nm ip True @ newline) (enumerate 0 es) =
      map (\<lambda>(i, nm). render_server_entry i nm [] True @ newline) (enumerate 0 (map fst es))" for es
    using enumerate_names [of "\<lambda>i nm. render_server_entry i nm [] True @ newline" 0 es]
    by (simp add: render_server_entry_def case_prod_beta')
  ultimately show ?thesis using assms by (simp add: selection_text_def render_server_menu_def)
qed

lemma hidden_addresses_stay_hidden_witness:
  "render_server_menu ''bob'' [(''web'', ''10.0.0.5'')] True = render_server_menu ''bob'' [(''web'', ''192.168.0.9'')] True"
  using hidden_addresses_stay_hidden [of "[(''web'', ''10.0.0.5'')]" "[(''web'', ''192.168.0.9'')]"] by simp

end
