(* ===== verification/Channel_Handlers.thy ===== *)
theory Channel_Handlers
  imports Server_Menu
begin

text \<open>
  The client's requests after authentication (\<^verbatim>\<open>impl server::Handler for GatewayHandler\<close> in
  \<^verbatim>\<open>src/src/ssh/mod.rs\<close>): the opening of channels, the requests on them, their data and their
  end, and the policy decisions on the way to the target.  Each handler is one action.
\<close>

subsection \<open>Denials\<close>

definition policy_denial_event ::
  "'z session_scheme \<Rightarrow> int \<Rightarrow> string \<Rightarrow> string \<Rightarrow> string option \<Rightarrow> string \<Rightarrow> audit_event" where
  "policy_denial_event s now event_type request_type request_detail reason =
     (session_event s now event_type (gh_authenticated_username s) (current_target_name s) None AuditDenied
        (Some reason) None None)
       \<lparr>ev_request_type := Some request_type, ev_request_detail := request_detail\<rparr>"

definition log_policy_denial ::
  "'d gateway_libs \<Rightarrow> string \<Rightarrow> string \<Rightarrow> string option \<Rightarrow> string \<Rightarrow> ('z session_scheme, unit) act" where
  "log_policy_denial G event_type request_type request_detail reason =
     act_bind (utc_now (gl_tracker G)) (\<lambda>now.
     act_bind (act_get (\<lambda>s. policy_denial_event s now event_type request_type request_detail reason)) audit_log)"

definition denied_protocol_message :: "string \<Rightarrow> string" where
  "denied_protocol_message protocol = to_ascii_lowercase protocol @ '': access denied''"

definition deny_protocol_and_disconnect ::
  "('d, 'k, 'h) link_libs \<Rightarrow> channel_id \<Rightarrow> string \<Rightarrow> ('z session_scheme, unit) act" where
  "deny_protocol_and_disconnect L channel protocol =
     act_then (must_send L (ToSuccess channel))
     (act_then (must_send L (ToExtendedData channel 1 (denied_protocol_message protocol @ newline)))
     (act_then (must_send L (ToExitStatus channel 1))
       (must_send L (ToDisconnect ''request denied''))))"

definition fail_channel_request :: "('d, 'k, 'h) link_libs \<Rightarrow> channel_id \<Rightarrow> ('z session_scheme, unit) act" where
  "fail_channel_request L channel =
     act_then (try_send L (ToFailure channel)) (try_send L (ToClose channel))"

subsection \<open>Helpers\<close>

definition change_channel ::
  "channel_id \<Rightarrow> (session_channel_state \<Rightarrow> session_channel_state) \<Rightarrow> ('z session_scheme, unit) act" where
  \<comment> \<open>\<^verbatim>\<open>entry(channel).or_default()\<close> changed\<close>
  "change_channel channel f = act_modify (\<lambda>s. s\<lparr>gh_channel_state := hm_insert channel
     (f (hm_entry_or channel default_channel_state (gh_channel_state s))) (gh_channel_state s)\<rparr>)"

definition with_proxy ::
  "('z session_scheme, 'a) act \<Rightarrow> (proxy_session \<Rightarrow> ('z session_scheme, 'a) act) \<Rightarrow> ('z session_scheme, 'a) act" where
  \<comment> \<open>\<^verbatim>\<open>let Some(proxy_session) = &self.proxy_session else ..\<close>\<close>
  "with_proxy absent f = act_bind (act_get gh_proxy_session) (\<lambda>session. case session of
     None \<Rightarrow> absent | Some px \<Rightarrow> f px)"

definition with_policy ::
  "('z session_scheme, 'a) act \<Rightarrow> (effective_authorization_policy \<Rightarrow> ('z session_scheme, 'a) act) \<Rightarrow> ('z session_scheme, 'a) act" where
  \<comment> \<open>\<^verbatim>\<open>let Some(policy) = self.current_policy() else ..\<close>\<close>
  "with_policy absent f = act_bind (act_get gh_active_policy) (\<lambda>policy. case policy of
     None \<Rightarrow> absent | Some policy \<Rightarrow> f policy)"

definition set_proxy :: "proxy_session \<Rightarrow> ('z session_scheme, unit) act" where
  \<comment> \<open>the tables of the session in place\<close>
  "set_proxy px = act_modify (\<lambda>s. s\<lparr>gh_proxy_session := Some px\<rparr>)"

definition abort_session :: "('d, 'k, 'h) link_libs \<Rightarrow> proxy_session \<Rightarrow> central_error \<Rightarrow> ('z connection_scheme, unit) act" where
  \<comment> \<open>\<^verbatim>\<open>proxy_session.abort(error.to_string())\<close>\<close>
  "abort_session L px error = act_bind (abort_proxy_session L (display_error error) px) set_proxy"

definition answer_or_fail ::
  "('d, 'k, 'h) link_libs \<Rightarrow> channel_id \<Rightarrow> ('z connection_scheme, unit gw_result) act \<Rightarrow> ('z connection_scheme, unit) act" where
  \<comment> \<open>success to the client, or the request fails and its channel is closed\<close>
  "answer_or_fail L channel m = act_bind m (\<lambda>r. case r of
     Inr _ \<Rightarrow> try_send L (ToSuccess channel) | Inl error \<Rightarrow> fail_channel_request L channel)"

definition answer_or_abort ::
  "('d, 'k, 'h) link_libs \<Rightarrow> proxy_session \<Rightarrow> channel_id \<Rightarrow> ('z connection_scheme, unit gw_result) act \<Rightarrow> ('z connection_scheme, unit) act" where
  \<comment> \<open>success to the client, or the whole session is aborted\<close>
  "answer_or_abort L px channel m = act_bind m (\<lambda>r. case r of
     Inr _ \<Rightarrow> try_send L (ToSuccess channel)
   | Inl error \<Rightarrow> act_then (try_send L (ToFailure channel)) (abort_session L px error))"

definition relay_or_abort ::
  "('d, 'k, 'h) link_libs \<Rightarrow> proxy_session \<Rightarrow> ('z connection_scheme, unit gw_result) act \<Rightarrow> ('z connection_scheme, unit) act" where
  "relay_or_abort L px m = act_bind m (\<lambda>r. case r of
     Inr _ \<Rightarrow> act_return () | Inl error \<Rightarrow> abort_session L px error)"

subsection \<open>Opening\<close>

definition auth_succeeded :: "('d, 'k, 'h) link_libs \<Rightarrow> ('z connection_scheme, unit) act" where
  "auth_succeeded L =
     act_bind (act_get gh_authenticated_username) (\<lambda>user. case user of
       None \<Rightarrow> must_send L (ToDisconnect ''authentication completed without a selected identity'')
     | Some username \<Rightarrow>
         act_bind (act_get gh_pending_target) (\<lambda>target. case target of
           None \<Rightarrow> must_send L (ToDisconnect ''authentication completed without a selected target'')
         | Some target \<Rightarrow> connect_selected_target L username target))"

definition channel_open_session :: "('d, 'k, 'h) link_libs \<Rightarrow> channel_id \<Rightarrow> ('z connection_scheme, bool) act" where
  "channel_open_session L channel =
     act_then (change_channel channel id)
     (with_proxy (act_return False) (\<lambda>px.
       act_bind (open_session_channel_by_id L px channel) (\<lambda>r. case r of
         Inr px \<Rightarrow> act_then (set_proxy px) (act_return True)
       | Inl error \<Rightarrow> act_return False)))"

definition channel_open_direct_tcpip ::
  "('d, 'k, 'h) link_libs \<Rightarrow> channel_id \<Rightarrow> string \<Rightarrow> nat \<Rightarrow> string \<Rightarrow> nat \<Rightarrow> ('z connection_scheme, bool) act" where
  "channel_open_direct_tcpip L channel host_to_connect port_to_connect originator_address originator_port =
     with_proxy (act_return False) (\<lambda>px.
     with_policy (act_return False) (\<lambda>policy.
       if \<not> local_forwarding_permitted policy then
         act_then (log_policy_denial (ln_gateway L) ''denied_local_forward'' ''direct-tcpip''
             (Some (host_to_connect @ '':'' @ show_nat port_to_connect @ '' from '' @ originator_address
               @ '':'' @ show_nat originator_port))
             ''local forwarding disabled by authorization policy'')
           (act_return False)
       else
         act_bind (open_direct_tcpip_channel L px channel host_to_connect port_to_connect originator_address
             originator_port) (\<lambda>r. case r of
           Inr px \<Rightarrow> act_then (set_proxy px) (act_return True)
         | Inl error \<Rightarrow> act_return False)))"

subsection \<open>Requests\<close>

definition pty_request ::
  "('d, 'k, 'h) link_libs \<Rightarrow> channel_id \<Rightarrow> channel_pty_state \<Rightarrow> ('z connection_scheme, unit) act" where
  "pty_request L channel pty =
     with_proxy (try_send L (ToFailure channel)) (\<lambda>px.
     act_then (change_channel channel (\<lambda>cs. cs\<lparr>cs_pty := Some pty\<rparr>))
       (answer_or_abort L px channel (request_pty L px channel True pty)))"

definition x11_request :: "('d, 'k, 'h) link_libs \<Rightarrow> channel_id \<Rightarrow> ('z connection_scheme, unit) act" where
  "x11_request L channel = try_send L (ToFailure channel)"

definition shell_request :: "('d, 'k, 'h) link_libs \<Rightarrow> channel_id \<Rightarrow> ('z connection_scheme, unit) act" where
  "shell_request L channel =
     act_then (change_channel channel (\<lambda>cs. cs\<lparr>cs_request := ShellRequest\<rparr>))
     (with_proxy (try_send L (ToFailure channel)) (\<lambda>px.
       answer_or_fail L channel (request_shell L px channel True)))"

definition exec_request :: "('d, 'k, 'h) link_libs \<Rightarrow> channel_id \<Rightarrow> string \<Rightarrow> ('z connection_scheme, unit) act" where
  "exec_request L channel command =
     with_proxy (try_send L (ToFailure channel)) (\<lambda>px.
     act_then (change_channel channel (\<lambda>cs. cs\<lparr>cs_request := ExecRequest command\<rparr>))
     (with_policy (try_send L (ToFailure channel)) (\<lambda>policy.
       case validate_exec_request policy command of
         Inl scp_mode \<Rightarrow>
           act_then (log_policy_denial (ln_gateway L) ''denied_scp'' ''exec'' (Some (from_utf8_lossy command))
               (''scp disabled by authorization policy ('' @ scp_mode @ '')''))
             (deny_protocol_and_disconnect L channel ''scp'')
       | Inr _ \<Rightarrow> answer_or_fail L channel (exec L px channel True command))))"

definition subsystem_request :: "('d, 'k, 'h) link_libs \<Rightarrow> channel_id \<Rightarrow> string \<Rightarrow> ('z connection_scheme, unit) act" where
  "subsystem_request L channel nm =
     with_proxy (try_send L (ToFailure channel)) (\<lambda>px.
     act_then (change_channel channel (\<lambda>cs. cs\<lparr>cs_request := SubsystemRequest nm\<rparr>))
     (with_policy (try_send L (ToFailure channel)) (\<lambda>policy.
       if \<not> subsystem_request_permitted policy nm then
         let denied_protocol = (if \<not> eff_allow_scp policy then ''scp'' else ''sftp'') in
         act_then (log_policy_denial (ln_gateway L) ''denied_sftp'' ''subsystem'' (Some nm)
             ''sftp disabled by authorization policy'')
           (deny_protocol_and_disconnect L channel denied_protocol)
       else answer_or_fail L channel (request_subsystem L px channel True nm))))"

definition env_request ::
  "('d, 'k, 'h) link_libs \<Rightarrow> channel_id \<Rightarrow> string \<Rightarrow> string \<Rightarrow> ('z connection_scheme, unit) act" where
  "env_request L channel variable_name variable_value =
     with_proxy (try_send L (ToFailure channel)) (\<lambda>px.
       answer_or_abort L px channel (set_env L px channel True variable_name variable_value))"

definition window_change_request ::
  "('d, 'k, 'h) link_libs \<Rightarrow> channel_id \<Rightarrow> nat \<Rightarrow> nat \<Rightarrow> nat \<Rightarrow> nat \<Rightarrow> ('z connection_scheme, unit) act" where
  "window_change_request L channel col_width row_height pix_width pix_height =
     with_proxy (act_return ()) (\<lambda>px.
       act_bind (window_change L px channel col_width row_height pix_width pix_height) (\<lambda>_. act_return ()))"

definition signal_request :: "('d, 'k, 'h) link_libs \<Rightarrow> channel_id \<Rightarrow> string \<Rightarrow> ('z connection_scheme, unit) act" where
  "signal_request L channel signal =
     with_proxy (try_send L (ToFailure channel)) (\<lambda>px.
       answer_or_abort L px channel (relay_signal L px channel signal))"

definition agent_request :: "('z connection_scheme, bool) act" where
  "agent_request = act_return False"

subsection \<open>Data and the end of a channel\<close>

definition data_received :: "('d, 'k, 'h) link_libs \<Rightarrow> channel_id \<Rightarrow> string \<Rightarrow> ('z connection_scheme, unit) act" where
  \<comment> \<open>the handler \<^verbatim>\<open>data\<close>\<close>
  "data_received L channel bytes =
     act_bind (handle_menu_channel_input L channel bytes) (\<lambda>taken.
       if taken then act_return ()
       else with_proxy (act_return ()) (\<lambda>px. relay_or_abort L px (relay_data L px channel bytes)))"

definition extended_data_received ::
  "('d, 'k, 'h) link_libs \<Rightarrow> channel_id \<Rightarrow> nat \<Rightarrow> string \<Rightarrow> ('z connection_scheme, unit) act" where
  "extended_data_received L channel code bytes =
     with_proxy (act_return ()) (\<lambda>px. relay_or_abort L px (relay_extended_data L px channel code bytes))"

definition eof_received :: "('d, 'k, 'h) link_libs \<Rightarrow> channel_id \<Rightarrow> ('z connection_scheme, unit) act" where
  "eof_received L channel =
     with_proxy (act_return ()) (\<lambda>px. relay_or_abort L px (relay_eof L px channel))"

definition close_received :: "('d, 'k, 'h) link_libs \<Rightarrow> channel_id \<Rightarrow> ('z connection_scheme, unit) act" where
  "close_received L channel =
     act_bind (act_get (\<lambda>s. unwrap_or False (map_option cs_menu_active (hm_get (gh_channel_state s) channel))))
       (\<lambda>menu_active.
     act_then (act_when (\<not> menu_active)
         (act_modify (\<lambda>s. s\<lparr>gh_channel_state := hm_remove channel (gh_channel_state s)\<rparr>)))
     (with_proxy (act_return ()) (\<lambda>px.
        act_bind (relay_close L px channel) (\<lambda>(px, r).
        act_then (set_proxy px) (relay_or_abort L px (act_return r))))))"

subsection \<open>Remote forwarding\<close>

definition tcpip_forward :: "('d, 'k, 'h) link_libs \<Rightarrow> string \<Rightarrow> nat \<Rightarrow> ('z connection_scheme, nat \<times> bool) act" where
  \<comment> \<open>the port after the call, and whether the request is granted\<close>
  "tcpip_forward L address port =
     with_proxy (act_return (port, False)) (\<lambda>px.
     with_policy (act_return (port, False)) (\<lambda>policy.
       if \<not> remote_forwarding_permitted policy then
         act_then (log_policy_denial (ln_gateway L) ''denied_remote_forward'' ''tcpip-forward''
             (Some (address @ '':'' @ show_nat port)) ''remote forwarding disabled by authorization policy'')
           (act_return (port, False))
       else act_bind (link_tcpip_forward L px address port) (\<lambda>r. case r of
           Inr allocated_port \<Rightarrow> act_return (allocated_port, True)
         | Inl error \<Rightarrow> act_return (port, False))))"

definition cancel_tcpip_forward :: "('d, 'k, 'h) link_libs \<Rightarrow> string \<Rightarrow> nat \<Rightarrow> ('z connection_scheme, bool) act" where
  "cancel_tcpip_forward L address port =
     with_proxy (act_return False) (\<lambda>px.
     with_policy (act_return False) (\<lambda>policy.
       if \<not> remote_forwarding_permitted policy then
         act_then (log_policy_denial (ln_gateway L) ''denied_remote_forward'' ''cancel-tcpip-forward''
             (Some (address @ '':'' @ show_nat port)) ''remote forwarding disabled by authorization policy'')
           (act_return False)
       else act_bind (link_cancel_tcpip_forward L px address port) (\<lambda>r. act_return (is_ok r))))"

subsection \<open>All requests of the client\<close>

datatype client_event =
    AuthSucceeded
  | OpenSessionChannel channel_id
  | OpenDirectChannel channel_id string nat string nat
  | PtyEvent channel_id channel_pty_state
  | X11Event channel_id
  | ShellEvent channel_id
  | ExecEvent channel_id string
  | SubsystemEvent channel_id string
  | EnvEvent channel_id string string
  | WindowChangeEvent channel_id nat nat nat nat
  | SignalEvent channel_id string
  | AgentEvent
  | DataEvent channel_id string
  | ExtendedDataEvent channel_id nat string
  | EofEvent channel_id
  | CloseEvent channel_id
  | ForwardEvent string nat
  | CancelForwardEvent string nat

definition ignoring :: "('s, 'a) act \<Rightarrow> ('s, unit) act" where
  "ignoring m = act_bind m (\<lambda>_. act_return ())"

fun serve :: "('d, 'k, 'h) link_libs \<Rightarrow> client_event \<Rightarrow> ('z connection_scheme, unit) act" where
  \<comment> \<open>the handler \<^verbatim>\<open>russh\<close> calls for an event\<close>
  "serve L AuthSucceeded = auth_succeeded L"
| "serve L (OpenSessionChannel channel) = ignoring (channel_open_session L channel)"
| "serve L (OpenDirectChannel channel host port originator originator_port) =
     ignoring (channel_open_direct_tcpip L channel host port originator originator_port)"
| "serve L (PtyEvent channel pty) = pty_request L channel pty"
| "serve L (X11Event channel) = x11_request L channel"
| "serve L (ShellEvent channel) = shell_request L channel"
| "serve L (ExecEvent channel command) = exec_request L channel command"
| "serve L (SubsystemEvent channel nm) = subsystem_request L channel nm"
| "serve L (EnvEvent channel variable_name variable_value) = env_request L channel variable_name variable_value"
| "serve L (WindowChangeEvent channel cols rows px py) = window_change_request L channel cols rows px py"
| "serve L (SignalEvent channel signal) = signal_request L channel signal"
| "serve L AgentEvent = ignoring agent_request"
| "serve L (DataEvent channel bytes) = data_received L channel bytes"
| "serve L (ExtendedDataEvent channel code bytes) = extended_data_received L channel code bytes"
| "serve L (EofEvent channel) = eof_received L channel"
| "serve L (CloseEvent channel) = close_received L channel"
| "serve L (ForwardEvent address port) = ignoring (tcpip_forward L address port)"
| "serve L (CancelForwardEvent address port) = ignoring (cancel_tcpip_forward L address port)"

end
