(* ===== verification/Request_Policy.thy ===== *)
theory Request_Policy
  imports Channel_Handlers Login_Safety
begin

text \<open>
  What the policy of a session guarantees: which calls the requests of a client may cause at the
  target, how denials are answered and audited, and the request that is passed on unchecked.
\<close>

subsection \<open>Frames of the connection's operations\<close>

definition sent_frame :: "('z session_scheme \<Rightarrow> bool) \<Rightarrow> bool" where
  "sent_frame P \<longleftrightarrow> (\<forall>s sent. P s \<longrightarrow> P (s\<lparr>gh_sent := sent\<rparr>))"

definition link_frame :: "(target_call \<Rightarrow> bool) \<Rightarrow> ('z connection_scheme \<Rightarrow> bool) \<Rightarrow> bool" where
  \<comment> \<open>properties that survive events, sends, bridges and the calls of a kind\<close>
  "link_frame A P \<longleftrightarrow> tracker_frame P \<and> sent_frame P
     \<and> (\<forall>s. P s \<longrightarrow> (\<forall>h c. A c \<longrightarrow> P (s\<lparr>cn_calls := cn_calls s @ [(h, c)]\<rparr>))
          \<and> (\<forall>b. P (s\<lparr>cn_bridges := b\<rparr>)) \<and> (\<forall>opened. P (s\<lparr>cn_opened := opened\<rparr>)))"

lemma keeps_sends [keeps_intros]:
  assumes "sent_frame P"
  shows "keeps P (send L m)" "keeps P (try_send L m)" "keeps P (must_send L m)" "keeps P (send_or L m e)"
proof -
  show *: "keeps P (send L m)" for m
    using assms by (auto simp: keeps_def send_def sent_frame_def split: option.split)
  show "keeps P (try_send L m)" "keeps P (must_send L m)" "keeps P (send_or L m e)"
    unfolding try_send_def must_send_def send_or_def by (intro keeps_intros *)+
qed

lemma keeps_denials [keeps_intros]:
  assumes "sent_frame P"
  shows "keeps P (deny_protocol_and_disconnect L ch p)" "keeps P (fail_channel_request L ch)"
  unfolding deny_protocol_and_disconnect_def fail_channel_request_def
  by (intro keeps_intros assms)+

lemma keeps_log_policy_denial [keeps_intros]: "tracker_frame P \<Longrightarrow> keeps P (log_policy_denial G e t d r)"
  unfolding log_policy_denial_def by (intro keeps_intros)

lemma keeps_log_link [keeps_intros]: "tracker_frame P \<Longrightarrow> keeps P (log_link G u t m e r re)"
  unfolding log_link_def by (intro keeps_intros)

lemma keeps_act_try [keeps_intros]: "keeps P m \<Longrightarrow> (\<And>x. keeps P (f x)) \<Longrightarrow> keeps P (act_try m f)"
  unfolding act_try_def by (intro keeps_intros)

lemma keeps_act_try_result:
  "keeps P m \<Longrightarrow> yields (\<lambda>r. \<forall>x. r = Inr x \<longrightarrow> R x) m \<Longrightarrow> (\<And>x. R x \<Longrightarrow> keeps P (f x)) \<Longrightarrow> keeps P (act_try m f)"
  unfolding act_try_def keeps_def yields_def act_bind_def
  by (auto split: prod.split sum.split; metis fst_conv)

lemma keeps_each_act [keeps_intros]: "(\<And>x. keeps P (f x)) \<Longrightarrow> keeps P (each_act f xs)"
  by (induction xs) (simp_all add: keeps_intros)

lemma link_frameD:
  assumes "link_frame A P" shows "tracker_frame P" "sent_frame P"
  using assms by (simp_all add: link_frame_def)

lemma keeps_target_call [keeps_intros]: "link_frame A P \<Longrightarrow> A call \<Longrightarrow> keeps P (target_call L h call)"
  by (auto simp: keeps_def target_call_def link_frame_def)

lemma keeps_relay_call [keeps_intros]: "link_frame A P \<Longrightarrow> A call \<Longrightarrow> keeps P (relay_call L h call text)"
  unfolding relay_call_def by (intro keeps_intros)

lemma keeps_spawn_bridge [keeps_intros]: "link_frame A P \<Longrightarrow> keeps P (spawn_bridge px t f raw)"
  unfolding spawn_bridge_def by (rule keeps_modify) (simp add: link_frame_def)

lemma keeps_on_channel [keeps_intros]:
  "link_frame A P \<Longrightarrow> (\<And>b. A (call b)) \<Longrightarrow> keeps P (on_channel L px ch call text)"
  unfolding on_channel_def by (intro keeps_intros)

lemma keeps_opening [keeps_intros]:
  assumes frame: "link_frame A P"
  shows "A OpenSession \<Longrightarrow> keeps P (open_session_channel_by_id L px ch)"
    and "A (OpenDirectTcpip host port orig oport) \<Longrightarrow> keeps P (open_direct_tcpip_channel L px ch host port orig oport)"
    and "A (TcpipForward host port) \<Longrightarrow> keeps P (link_tcpip_forward L px host port)"
    and "A (CancelTcpipForward host port) \<Longrightarrow> keeps P (link_cancel_tcpip_forward L px host port)"
  unfolding open_session_channel_by_id_def open_direct_tcpip_channel_def link_tcpip_forward_def
    link_cancel_tcpip_forward_def
  by (rule keeps_intros frame | assumption)+

lemma keeps_ending [keeps_intros]:
  assumes frame: "link_frame A P"
  shows "(\<And>b. A (SendEof b)) \<Longrightarrow> keeps P (relay_eof L px ch)"
    and "(\<And>b. A (CloseChannel b)) \<Longrightarrow> keeps P (relay_close L px ch)"
    and "(\<And>r. A (DisconnectTarget r)) \<Longrightarrow> keeps P (abort_proxy_session L reason px)"
    and "(\<And>r. A (DisconnectTarget r)) \<Longrightarrow> keeps P (drop_proxy_session L px)"
  unfolding relay_eof_def relay_close_def abort_proxy_session_def drop_proxy_session_def
  by (rule keeps_intros frame link_frameD [OF frame] | assumption)+

lemma keeps_connect:
  assumes frame: "link_frame A P" and A: "A (AuthenticatePublickey username)"
    and links: "\<And>s. P s \<Longrightarrow> P (s\<lparr>cn_links := Suc (cn_links s)\<rparr>)"
  shows "keeps P (connect L username target)"
proof -
  have auth: "keeps P (authenticate L h username k)" for h k
    unfolding authenticate_def by (intro keeps_intros keeps_modify) (use frame A in \<open>simp add: link_frame_def\<close>)
  have opened: "keeps P (open_link L c u t)" for c u t
    unfolding open_link_def kex_done_def log_kex_negotiated_def
    by (intro keeps_intros link_frameD [OF frame]) (simp add: keeps_def links)
  show ?thesis
    unfolding connect_def log_kex_policy_applied_def
    by (intro keeps_intros auth opened link_frameD [OF frame] | split prod.split sum.split | intro allI impI)+
qed

subsection \<open>Only what the policy permits reaches the target\<close>

fun permits :: "effective_authorization_policy option \<Rightarrow> target_call \<Rightarrow> bool" where
  "permits policy (RequestExec c reply command) \<longleftrightarrow>
     (\<exists>p. policy = Some p \<and> validate_exec_request p command = Inr ())"
| "permits policy (RequestSubsystem c reply nm) \<longleftrightarrow> (\<exists>p. policy = Some p \<and> subsystem_request_permitted p nm)"
| "permits policy (OpenDirectTcpip host port orig oport) \<longleftrightarrow> (\<exists>p. policy = Some p \<and> eff_allow_local_forwarding p)"
| "permits policy (TcpipForward host port) \<longleftrightarrow> (\<exists>p. policy = Some p \<and> eff_allow_remote_forwarding p)"
| "permits policy (CancelTcpipForward host port) \<longleftrightarrow> (\<exists>p. policy = Some p \<and> eff_allow_remote_forwarding p)"
| "permits policy _ \<longleftrightarrow> True"

definition calls_within :: "(target_call \<Rightarrow> bool) \<Rightarrow> (nat \<times> target_call) list \<Rightarrow> 'z connection_scheme \<Rightarrow> bool" where
  "calls_within A before s \<longleftrightarrow> (\<exists>new. cn_calls s = before @ new \<and> (\<forall>(h, c) \<in> set new. A c))"

lemma link_frame_calls: "link_frame A (calls_within A before)"
  unfolding link_frame_def tracker_frame_def sent_frame_def calls_within_def by fastforce

lemma link_frame_policy: "link_frame A (\<lambda>s. calls_within A before s \<and> gh_active_policy s = policy)"
  using link_frame_calls [of A before] unfolding link_frame_def tracker_frame_def sent_frame_def by auto

lemma keeps_with_proxy [keeps_intros]:
  "keeps P absent \<Longrightarrow> (\<And>px. keeps P (f px)) \<Longrightarrow> keeps P (with_proxy absent f)"
  unfolding with_proxy_def by (intro keeps_intros)

lemma keeps_with_policy:
  assumes "keeps (\<lambda>s. P s \<and> gh_active_policy s = policy) absent"
    and "\<And>p. policy = Some p \<Longrightarrow> keeps (\<lambda>s. P s \<and> gh_active_policy s = policy) (f p)"
  shows "keeps (\<lambda>s. P s \<and> gh_active_policy s = policy) (with_policy absent f)"
  using assms unfolding with_policy_def keeps_def by (auto split: option.split)

lemma keeps_answers [keeps_intros]:
  assumes "link_frame A P" "\<And>r. A (DisconnectTarget r)" "\<And>s px. P s \<Longrightarrow> P (s\<lparr>gh_proxy_session := px\<rparr>)"
  shows "keeps P m \<Longrightarrow> keeps P (answer_or_fail L ch m)"
    and "keeps P m \<Longrightarrow> keeps P (answer_or_abort L px ch m)"
    and "keeps P m \<Longrightarrow> keeps P (relay_or_abort L px m)"
    and "keeps P (set_proxy px)"
proof -
  show set: "keeps P (set_proxy px)" for px unfolding set_proxy_def by (rule keeps_modify) (rule assms)
  have abort: "keeps P (abort_session L px e)" for px e
    unfolding abort_session_def by (rule keeps_intros assms set)+
  show "keeps P m \<Longrightarrow> keeps P (answer_or_fail L ch m)"
    "keeps P m \<Longrightarrow> keeps P (answer_or_abort L px ch m)"
    "keeps P m \<Longrightarrow> keeps P (relay_or_abort L px m)"
    unfolding answer_or_fail_def answer_or_abort_def relay_or_abort_def
    by (rule keeps_intros abort assms link_frameD [OF assms(1)] | assumption)+
qed

definition in_menu :: "'z session_scheme \<Rightarrow> client_event \<Rightarrow> bool" where
  \<comment> \<open>the event is input for a menu\<close>
  "in_menu s ev \<longleftrightarrow> (case ev of DataEvent ch bytes \<Rightarrow>
     (case hm_get (gh_channel_state s) ch of Some cs \<Rightarrow> cs_menu_active cs | None \<Rightarrow> False) | _ \<Rightarrow> False)"

lemma menu_not_taken:
  "\<not> in_menu s (DataEvent ch bytes) \<Longrightarrow> handle_menu_channel_input L ch bytes s = (s, Inr False)"
  by (auto simp: handle_menu_channel_input_def in_menu_def split: option.splits)

lemma keeps_channel_operations [keeps_intros]:
  assumes "link_frame A P"
  shows "(\<And>b. A (RequestPty b reply pty)) \<Longrightarrow> keeps P (request_pty L px ch reply pty)"
    and "(\<And>b. A (RequestShell b reply)) \<Longrightarrow> keeps P (request_shell L px ch reply)"
    and "(\<And>b. A (RequestExec b reply command)) \<Longrightarrow> keeps P (exec L px ch reply command)"
    and "(\<And>b. A (RequestSubsystem b reply nm)) \<Longrightarrow> keeps P (request_subsystem L px ch reply nm)"
    and "(\<And>b. A (SetEnv b reply var val)) \<Longrightarrow> keeps P (set_env L px ch reply var val)"
    and "(\<And>b. A (WindowChange b cols rows pix piy)) \<Longrightarrow> keeps P (window_change L px ch cols rows pix piy)"
    and "(\<And>b. A (SendSignal b sig)) \<Longrightarrow> keeps P (relay_signal L px ch sig)"
    and "(\<And>b. A (WriteData b None bytes)) \<Longrightarrow> keeps P (relay_data L px ch bytes)"
    and "(\<And>b. A (WriteData b (Some code) bytes)) \<Longrightarrow> keeps P (relay_extended_data L px ch code bytes)"
  unfolding request_pty_def request_shell_def exec_def request_subsystem_def set_env_def window_change_def
    relay_signal_def relay_data_def relay_extended_data_def
  by (rule keeps_on_channel [OF assms]; assumption)+

definition policy_calls :: "'z connection_scheme \<Rightarrow> 'z connection_scheme \<Rightarrow> bool" where
  \<comment> \<open>since a state, all calls were permitted by its policy, which is still in force\<close>
  "policy_calls s t \<longleftrightarrow> calls_within (permits (gh_active_policy s)) (cn_calls s) t
     \<and> gh_active_policy t = gh_active_policy s"

lemma policy_frame: "link_frame (permits (gh_active_policy s)) (policy_calls s)"
  unfolding policy_calls_def [abs_def] by (rule link_frame_policy)

lemma keeps_if_cases:
  "(b \<Longrightarrow> keeps P m) \<Longrightarrow> (\<not> b \<Longrightarrow> keeps P n) \<Longrightarrow> keeps P (if b then m else n)"
  by simp

lemma policy_calls_more:
  "policy_calls s t \<Longrightarrow> policy_calls s (t\<lparr>gh_proxy_session := px\<rparr>)"
  "policy_calls s t \<Longrightarrow> policy_calls s (t\<lparr>gh_channel_state := c\<rparr>)"
  by (simp_all add: policy_calls_def calls_within_def)

lemma keeps_policy_guard:
  assumes "keeps (policy_calls s) absent"
    and "\<And>p. gh_active_policy s = Some p \<Longrightarrow> keeps (policy_calls s) (f p)"
  shows "keeps (policy_calls s) (with_policy absent f)"
  using assms unfolding with_policy_def keeps_def by (auto simp: policy_calls_def split: option.split)

lemma keeps_ignoring [keeps_intros]: "keeps P m \<Longrightarrow> keeps P (ignoring m)"
  unfolding ignoring_def by (intro keeps_intros)

lemma keeps_change_channel: "(\<And>s c. P s \<Longrightarrow> P (s\<lparr>gh_channel_state := c\<rparr>)) \<Longrightarrow> keeps P (change_channel ch f)"
  unfolding change_channel_def by (rule keeps_modify)

lemmas policy_intros = keeps_intros policy_frame policy_calls_more keeps_policy_guard
  keeps_change_channel link_frameD [OF policy_frame]

lemma requests_within:
  "keeps (policy_calls s) (exec_request L ch command)"
  "keeps (policy_calls s) (subsystem_request L ch nm)"
  "keeps (policy_calls s) (channel_open_direct_tcpip L ch host port orig oport)"
  "keeps (policy_calls s) (tcpip_forward L host port)"
  "keeps (policy_calls s) (cancel_tcpip_forward L host port)"
proof -
  show "keeps (policy_calls s) (exec_request L ch command)"
    unfolding exec_request_def by (rule policy_intros keeps_sum_eq | simp)+
  show "keeps (policy_calls s) (subsystem_request L ch nm)"
    unfolding subsystem_request_def Let_def
    by (rule keeps_with_proxy keeps_if_cases policy_intros | simp)+
  show "keeps (policy_calls s) (channel_open_direct_tcpip L ch host port orig oport)"
    unfolding channel_open_direct_tcpip_def local_forwarding_permitted_def
    by (rule keeps_if_cases policy_intros | simp)+
  show "keeps (policy_calls s) (tcpip_forward L host port)"
    unfolding tcpip_forward_def remote_forwarding_permitted_def
    by (rule keeps_if_cases policy_intros | simp)+
  show "keeps (policy_calls s) (cancel_tcpip_forward L host port)"
    unfolding cancel_tcpip_forward_def remote_forwarding_permitted_def
    by (rule keeps_if_cases policy_intros | simp)+
qed

lemma other_requests_within:
  "keeps (policy_calls s) (channel_open_session L ch)"
  "keeps (policy_calls s) (pty_request L ch pty)"
  "keeps (policy_calls s) (x11_request L ch)"
  "keeps (policy_calls s) (shell_request L ch)"
  "keeps (policy_calls s) (env_request L ch var val)"
  "keeps (policy_calls s) (window_change_request L ch cols rows pix piy)"
  "keeps (policy_calls s) (signal_request L ch sig)"
  "keeps (policy_calls s) agent_request"
  "keeps (policy_calls s) (extended_data_received L ch code bytes)"
  "keeps (policy_calls s) (eof_received L ch)"
  "keeps (policy_calls s) (close_received L ch)"
  "keeps (policy_calls s) (with_proxy (act_return ()) (\<lambda>px. relay_or_abort L px (relay_data L px ch bytes)))"
  unfolding channel_open_session_def pty_request_def x11_request_def shell_request_def env_request_def
    window_change_request_def signal_request_def agent_request_def extended_data_received_def eof_received_def
    close_received_def
  by (rule policy_intros keeps_modify | simp)+

lemma calls_within_more:
  "calls_within A before t \<Longrightarrow> calls_within A before (t\<lparr>gh_active_policy := pol\<rparr>)"
  "calls_within A before t \<Longrightarrow> calls_within A before (t\<lparr>gh_proxy_session := px\<rparr>)"
  "calls_within A before t \<Longrightarrow> calls_within A before (t\<lparr>cn_detached := ds\<rparr>)"
  "calls_within A before t \<Longrightarrow> calls_within A before (t\<lparr>cn_links := n\<rparr>)"
  by (simp_all add: calls_within_def)

lemma auth_succeeded_within:
  "keeps (calls_within (permits pol) before) (auth_succeeded L)"
proof -
  note frame = link_frame_calls [of "permits pol" before]
  show ?thesis
    unfolding auth_succeeded_def connect_selected_target_def replace_proxy_session_def Let_def
    by (rule keeps_intros keeps_connect [OF frame] frame link_frameD [OF frame] keeps_modify calls_within_more | simp)+
qed


subsection \<open>Denials are answered and audited\<close>

fun denial :: "effective_authorization_policy \<Rightarrow> client_event
    \<Rightarrow> (string \<times> string \<times> string \<times> string \<times> (channel_id \<times> string) option) option" where
  \<comment> \<open>event type, request type, detail and reason of the audit event, and the channel and protocol to answer for\<close>
  "denial pol (ExecEvent ch command) = (case validate_exec_request pol command of
     Inl mode \<Rightarrow> Some (''denied_scp'', ''exec'', from_utf8_lossy command,
       ''scp disabled by authorization policy ('' @ mode @ '')'', Some (ch, ''scp''))
   | Inr _ \<Rightarrow> None)"
| "denial pol (SubsystemEvent ch nm) = (if subsystem_request_permitted pol nm then None
     else Some (''denied_sftp'', ''subsystem'', nm, ''sftp disabled by authorization policy'',
       Some (ch, if eff_allow_scp pol then ''sftp'' else ''scp'')))"
| "denial pol (OpenDirectChannel ch host port orig oport) = (if local_forwarding_permitted pol then None
     else Some (''denied_local_forward'', ''direct-tcpip'',
       host @ '':'' @ show_nat port @ '' from '' @ orig @ '':'' @ show_nat oport,
       ''local forwarding disabled by authorization policy'', None))"
| "denial pol (ForwardEvent address port) = (if remote_forwarding_permitted pol then None
     else Some (''denied_remote_forward'', ''tcpip-forward'', address @ '':'' @ show_nat port,
       ''remote forwarding disabled by authorization policy'', None))"
| "denial pol (CancelForwardEvent address port) = (if remote_forwarding_permitted pol then None
     else Some (''denied_remote_forward'', ''cancel-tcpip-forward'', address @ '':'' @ show_nat port,
       ''remote forwarding disabled by authorization policy'', None))"
| "denial pol _ = None"

definition denial_answer :: "(channel_id \<times> string) option \<Rightarrow> client_msg list" where
  "denial_answer answer = (case answer of None \<Rightarrow> []
     | Some (ch, protocol) \<Rightarrow> [ToSuccess ch, ToExtendedData ch 1 (protocol @ '': access denied'' @ newline),
         ToExitStatus ch 1, ToDisconnect ''request denied''])"

lemma log_policy_denial_run:
  "log_policy_denial G e t d r s = (s\<lparr>tr_readings := Suc (tr_readings s), tr_audit := tr_audit s
     @ [policy_denial_event s (tl_utc (gl_tracker G) (tr_readings s)) e t d r]\<rparr>, Inr ())"
  by (simp add: log_policy_denial_def utc_now_def act_bind_def audit_log_def policy_denial_event_def
      session_event_def current_target_name_def)

lemma must_send_run: "sends_succeed L \<Longrightarrow> must_send L m s = (s\<lparr>gh_sent := gh_sent s @ [m]\<rparr>, Inr ())"
  by (simp add: must_send_def act_bind_def send_run)

lemma deny_run:
  "sends_succeed L \<Longrightarrow> protocol \<in> {''scp'', ''sftp''} \<Longrightarrow>
   deny_protocol_and_disconnect L ch protocol s = (s\<lparr>gh_sent := gh_sent s @ denial_answer (Some (ch, protocol))\<rparr>, Inr ())"
proof -
  assume L: "sends_succeed L" and p: "protocol \<in> {''scp'', ''sftp''}"
  have "to_ascii_lowercase ''scp'' = ''scp''" "to_ascii_lowercase ''sftp'' = ''sftp''" by code_simp+
  then show ?thesis
    using p by (auto simp: deny_protocol_and_disconnect_def act_then_def act_bind_def must_send_run [OF L]
        denial_answer_def denied_protocol_message_def)
qed

text \<open>
  C15: A request the policy denies is answered by the gateway and recorded.  The target sees
  nothing of it; one audit event is written, with the user, the target selected, the kind of
  request and its detail; a denied command or subsystem gets an access denied message, exit
  status 1 and the end of the connection, a denied forwarding a refusal.
\<close>
theorem denied_requests_audited:
  assumes "sends_succeed L" and "gh_proxy_session s = Some px" and "gh_active_policy s = Some pol"
    and "denial pol ev = Some (event_type, request_type, detail, reason, answer)"
  shows "\<exists>s'. serve L ev s = (s', Inr ()) \<and> cn_calls s' = cn_calls s
    \<and> gh_sent s' = gh_sent s @ denial_answer answer
    \<and> tr_audit s' = tr_audit s @ [policy_denial_event s (tl_utc (gl_tracker (ln_gateway L)) (tr_readings s))
        event_type request_type (Some detail) reason]"
  using assms(4)
proof (cases ev)
  case (ExecEvent ch command)
  then show ?thesis
    using assms
    by (auto simp: exec_request_def with_proxy_def with_policy_def change_channel_def log_policy_denial_run
        act_then_def act_bind_def deny_run policy_denial_event_def session_event_def current_target_name_def
        split: sum.splits)
next
  case (SubsystemEvent ch nm)
  then show ?thesis
    using assms
    by (auto simp: subsystem_request_def with_proxy_def with_policy_def change_channel_def log_policy_denial_run
        act_then_def act_bind_def deny_run policy_denial_event_def session_event_def current_target_name_def
        Let_def split: if_splits)
qed (use assms in \<open>auto simp: channel_open_direct_tcpip_def tcpip_forward_def cancel_tcpip_forward_def
    ignoring_def with_proxy_def with_policy_def log_policy_denial_run act_then_def act_bind_def denial_answer_def
    split: if_splits\<close>)

subsection \<open>Permitted requests\<close>

fun channel_request :: "client_event \<Rightarrow> (channel_id \<times> (nat \<Rightarrow> target_call)) option" where
  \<comment> \<open>a request on a channel, as a call on the target's channel\<close>
  "channel_request (PtyEvent ch pty) = Some (ch, \<lambda>b. RequestPty b True pty)"
| "channel_request (ShellEvent ch) = Some (ch, \<lambda>b. RequestShell b True)"
| "channel_request (ExecEvent ch command) = Some (ch, \<lambda>b. RequestExec b True command)"
| "channel_request (SubsystemEvent ch nm) = Some (ch, \<lambda>b. RequestSubsystem b True nm)"
| "channel_request (EnvEvent ch var val) = Some (ch, \<lambda>b. SetEnv b True var val)"
| "channel_request (SignalEvent ch signal) = Some (ch, \<lambda>b. SendSignal b signal)"
| "channel_request _ = None"

lemma on_channel_run:
  "on_channel L px ch call text s = (case backend_channel L px ch of
     Inl e \<Rightarrow> (s, Inr (Inl e))
   | Inr b \<Rightarrow> (s\<lparr>cn_calls := cn_calls s @ [(px_handle px, call b)]\<rparr>,
       Inr (map_sum (\<lambda>e. Ssh (text e)) (\<lambda>_. ()) (ln_target L (cn_calls s) (px_handle px) (call b)))))"
  by (cases "ln_target L (cn_calls s) (px_handle px) (call (case backend_channel L px ch of Inr b \<Rightarrow> b))")
    (auto simp: on_channel_def act_try_def relay_call_def target_call_def act_bind_def map_err_def split: sum.splits)

lemmas request_runs = with_proxy_def with_policy_def change_channel_def act_then_def act_bind_def on_channel_run
  answer_or_fail_def answer_or_abort_def fail_channel_request_def abort_session_def abort_proxy_session_def
  set_proxy_def target_call_def

definition answered ::
  "('d, 'k, 'h) link_libs \<Rightarrow> proxy_session \<Rightarrow> channel_id \<Rightarrow> (nat \<Rightarrow> target_call)
   \<Rightarrow> 'z connection_scheme \<Rightarrow> 'z connection_scheme \<Rightarrow> bool" where
  \<comment> \<open>the call went to the channel's counterpart, and the client was told how it went\<close>
  "answered L px ch call s s' \<longleftrightarrow> (\<exists>calls sent. cn_calls s' = cn_calls s @ calls \<and> gh_sent s' = gh_sent s @ sent
     \<and> (case backend_channel L px ch of
          Inl _ \<Rightarrow> hd sent = ToFailure ch \<and> (\<forall>(h, c) \<in> set calls. \<exists>reason. c = DisconnectTarget reason)
        | Inr b \<Rightarrow> hd calls = (px_handle px, call b)
            \<and> (if is_ok (ln_target L (cn_calls s) (px_handle px) (call b)) then calls = [(px_handle px, call b)] \<and> sent = [ToSuccess ch]
               else hd sent = ToFailure ch \<and> (\<forall>(h, c) \<in> set (tl calls). \<exists>reason. c = DisconnectTarget reason))))"

lemma answer_or_fail_answered:
  assumes "sends_succeed L" "cn_calls t = cn_calls s" "gh_sent t = gh_sent s"
  shows "\<exists>s'. answer_or_fail L ch (on_channel L px ch call text) t = (s', Inr ()) \<and> answered L px ch call s s'"
  using assms
  by (cases "backend_channel L px ch"; cases "ln_target L (cn_calls s) (px_handle px) (call (case backend_channel L px ch of Inr b \<Rightarrow> b))")
    (auto simp: request_runs try_send_run answered_def)

lemma answer_or_abort_answered:
  assumes "sends_succeed L" "cn_calls t = cn_calls s" "gh_sent t = gh_sent s"
  shows "\<exists>s'. answer_or_abort L px ch (on_channel L px ch call text) t = (s', Inr ()) \<and> answered L px ch call s s'"
  using assms
  by (cases "backend_channel L px ch"; cases "ln_target L (cn_calls s) (px_handle px) (call (case backend_channel L px ch of Inr b \<Rightarrow> b))")
    (auto simp: request_runs try_send_run answered_def)

text \<open>
  C16: A permitted request reaches exactly the target's channel that belongs to the client's
  channel.  The target gets this one call, on the connection of the session in place; the client
  is told success if the target took it, and failure otherwise, also where the channel has no
  counterpart (then the target gets no request at all).
\<close>
theorem requests_reach_their_channel:
  assumes "sends_succeed L" and "gh_proxy_session s = Some px" and "gh_active_policy s = Some pol"
    and "denial pol ev = None" and "channel_request ev = Some (ch, call)"
  shows "\<exists>s'. serve L ev s = (s', Inr ()) \<and> answered L px ch call s s'"
proof -
  let ?t = "\<lambda>f. s\<lparr>gh_channel_state := f\<rparr>"
  note fails = answer_or_fail_answered [OF assms(1), of "?t _" s]
    and aborts = answer_or_abort_answered [OF assms(1), of "?t _" s] answer_or_abort_answered [OF assms(1), of s s]
  show ?thesis
    using assms(5)
  proof (cases ev)
    case (PtyEvent ch pty)
    with assms aborts show ?thesis
      by (simp add: pty_request_def request_pty_def with_proxy_def change_channel_def)
  next
    case (ShellEvent ch)
    with assms fails show ?thesis
      by (simp add: shell_request_def request_shell_def with_proxy_def change_channel_def)
  next
    case (ExecEvent ch command)
    with assms(4) have "validate_exec_request pol command = Inr ()" by (simp split: sum.splits)
    with ExecEvent assms fails show ?thesis
      by (simp add: exec_request_def exec_def with_proxy_def with_policy_def change_channel_def)
  next
    case (SubsystemEvent ch nm)
    with assms(4) have "subsystem_request_permitted pol nm" by (simp split: if_splits)
    with SubsystemEvent assms fails show ?thesis
      by (simp add: subsystem_request_def request_subsystem_def with_proxy_def with_policy_def change_channel_def)
  qed (use assms aborts in \<open>simp_all add: env_request_def set_env_def signal_request_def relay_signal_def with_proxy_def\<close>)
qed

subsection \<open>The replay after a menu\<close>

lemma typed_one:
  assumes "sends_succeed L" "cs_menu_escape_state cs = EscNone" "cs_input_buffer cs = []"
  shows "menu_bytes L ch cs [CHR ''1'', byte_of 13] s =
    (s\<lparr>gh_sent := gh_sent s @ [ToData ch ''1'', ToData ch crlf]\<rparr>, Inr (cs, Some ''1''))"
proof -
  have bytes: "byte_val (CHR ''1'') = 49" "byte_val (byte_of 13) = 13" by code_simp+
  have actions: "menu_input_byte_action EscNone (CHR ''1'') = (EscNone, EchoAndBuffer (CHR ''1''))"
    "menu_input_byte_action EscNone (byte_of 13) = (EscNone, SubmitLine)"
    unfolding menu_input_byte_action_def Let_def bytes by simp_all
  have "from_utf8_lossy ''1'' = ''1''" by code_simp
  moreover have "cs\<lparr>cs_menu_escape_state := EscNone, cs_input_buffer := []\<rparr> = cs" using assms by (cases cs) simp
  ultimately show ?thesis
    using assms actions by (simp add: act_then_def act_bind_def try_send_run Let_def)
qed

lemma one_selects: "entries \<noteq> [] \<Longrightarrow> selected_index ''1'' entries = Some 0" "\<not> eq_ignore_ascii_case (trim ''1'') ''q''"
proof -
  have "show_nat 1 = ''1''" by code_simp
  then show "entries \<noteq> [] \<Longrightarrow> selected_index ''1'' entries = Some 0"
    using parse_show_nat [of 1] trim_show_nat [of 1] by (simp add: selected_index_def usize_limit_def Suc_le_eq)
  show "\<not> eq_ignore_ascii_case (trim ''1'') ''q''" by code_simp
qed

definition same_store :: "'z session_scheme \<Rightarrow> 'z session_scheme \<Rightarrow> bool" where
  "same_store t s \<longleftrightarrow> tr_disk t = tr_disk s \<and> gw_config t = gw_config s \<and> gw_paths t = gw_paths s"

lemma connect_selected_frame:
  fixes s :: "'z connection_scheme"
  assumes "\<forall>t :: 'z connection_scheme. same_store t s \<longrightarrow> (\<exists>t' px. connect L username target t = (t', Inr (Inr px)))"
    and "resolve_target_policy s username (st_name target) = Inr pol"
  obtains s1 px where "connect_selected_target L username target s = (s1, Inr ())"
    "gh_channel_state s1 = gh_channel_state s" "gh_proxy_session s1 = Some px" "gh_active_policy s1 = Some pol"
proof -
  let ?s0 = "s\<lparr>tr_readings := Suc (tr_readings s), tr_audit := tr_audit s @ [session_event s
        (tl_utc (gl_tracker (ln_gateway L)) (tr_readings s)) ''server_selected'' (Some username)
        (Some (st_name target)) None AuditSuccess None None None]\<rparr>"
  have "same_store ?s0 s" by (simp add: same_store_def)
  then obtain t px where conn: "connect L username target ?s0 = (t, Inr (Inr px))" using assms(1) by blast
  have "link_frame (\<lambda>_. True) (\<lambda>t :: 'z connection_scheme. gh_channel_state t = gh_channel_state s)"
    by (simp add: link_frame_def tracker_frame_def sent_frame_def)
  from keeps_run [OF keeps_connect [OF this] _ conn]
  have frame: "gh_channel_state t = gh_channel_state s" by simp
  have "resolve_target_policy ?s0 username (st_name target) = Inr pol"
    using assms(2) by (simp add: resolve_target_policy_def)
  then have "\<exists>s1. connect_selected_target L username target s = (s1, Inr ())
    \<and> gh_channel_state s1 = gh_channel_state s \<and> gh_proxy_session s1 = Some px \<and> gh_active_policy s1 = Some pol"
    using conn frame
    by (cases "gh_proxy_session t")
      (simp_all add: connect_selected_target_def Let_def log_event_run act_then_def act_bind_def replace_proxy_session_def
        drop_proxy_session_def target_call_def log_link_def utc_now_def audit_log_def)
  then show ?thesis using that by blast
qed

text \<open>
  C26: What a channel last asked for is replayed unchecked.  A client in the menu that asks for a
  command is told it failed, but the request is recorded; when the client then selects a server,
  the command is run there although the policy now in force denies it.
\<close>
theorem menu_replays_unchecked:
  fixes s :: "'z connection_scheme"
  assumes "sends_succeed L" and "\<forall>calls h c. \<exists>n. ln_target L calls h c = Inr n"
    and "gh_authenticated_username s = Some username"
    and "gh_proxy_session s = Some old" and "backend_channel L old ch = Inl e"
    and "gh_active_policy s = Some old_policy" and "validate_exec_request old_policy command = Inr ()"
    and "hm_get (gh_channel_state s) ch = Some cs" and "cs_menu_active cs"
    and "cs_menu_escape_state cs = EscNone" and "cs_input_buffer cs = []" and "cs_pty cs = None"
    and "allowed_server_entries (gw_config s) username = Inr ((nm, host) # entries)"
    and "\<forall>t :: 'z connection_scheme. same_store t s \<longrightarrow>
          (\<exists>t' px. connect L username \<lparr>st_name = nm, st_host = host\<rparr> t = (t', Inr (Inr px)))"
    and "resolve_target_policy s username nm = Inr new_policy" and "validate_exec_request new_policy command = Inl mode"
  shows "\<exists>s1 s2 h c. serve L (ExecEvent ch command) s = (s1, Inr ())
    \<and> serve L (DataEvent ch [CHR ''1'', byte_of 13]) s1 = (s2, Inr ())
    \<and> (h, RequestExec c True command) \<in> set (cn_calls s2) \<and> gh_active_policy s2 = Some new_policy"
proof -
  let ?cs = "cs\<lparr>cs_request := ExecRequest command\<rparr>"
  let ?s1 = "s\<lparr>gh_channel_state := hm_insert ch ?cs (gh_channel_state s), gh_sent := gh_sent s @ [ToFailure ch, ToClose ch]\<rparr>"
  have asked: "serve L (ExecEvent ch command) s = (?s1, Inr ())"
    using assms(1,4-8) by (simp add: exec_request_def exec_def request_runs try_send_run hm_entry_or_def unwrap_or_def)
  let ?s2 = "?s1\<lparr>gh_sent := gh_sent ?s1 @ [ToData ch ''1'', ToData ch crlf],
      gh_channel_state := hm_insert ch (?cs\<lparr>cs_menu_active := False, cs_menu_escape_state := EscNone\<rparr>)
        (hm_insert ch ?cs (gh_channel_state ?s1))\<rparr>"
  have "resolve_target_policy ?s2 username nm = Inr new_policy" using assms(15) by (simp add: resolve_target_policy_def)
  then obtain s3 px where s3: "connect_selected_target L username \<lparr>st_name = nm, st_host = host\<rparr> ?s2 = (s3, Inr ())"
    "gh_channel_state s3 = gh_channel_state ?s2" "gh_proxy_session s3 = Some px" "gh_active_policy s3 = Some new_policy"
    using connect_selected_frame [of ?s2 L username "\<lparr>st_name = nm, st_host = host\<rparr>" new_policy] assms(14)
    by (auto simp: same_store_def)
  obtain n where opened: "ln_target L (cn_calls s3) (px_handle px) OpenSession = Inr n" using assms(2) by blast
  let ?px = "px\<lparr>px_session_channels := hm_insert ch n (px_session_channels px)\<rparr>"
  have channel: "hm_get (gh_channel_state s3) ch
      = Some (?cs\<lparr>cs_menu_active := False, cs_menu_escape_state := EscNone\<rparr>)"
    using s3(2) by (simp add: hm.get_put)
  have backend: "backend_channel L ?px ch = Inr n" by (simp add: backend_channel_def hm.get_put)
  have reopened: "\<exists>s4. reopen_channel L ch s3 = (s4, Inr ()) \<and> gh_active_policy s4 = Some new_policy
      \<and> (px_handle px, RequestExec n True command) \<in> set (cn_calls s4)"
  proof -
    let ?s4 = "s3\<lparr>cn_calls := cn_calls s3 @ [(px_handle px, OpenSession)], cn_bridges := cn_bridges s3
        @ [\<lparr>br_link = px_handle px, br_target = n, br_frontend = ch, br_raw = False\<rparr>], gh_proxy_session := Some ?px\<rparr>"
    have "reopen_channel L ch s3 = replay_requests L ?px ch (?cs\<lparr>cs_menu_active := False, cs_menu_escape_state := EscNone\<rparr>) ?s4"
      using s3(3) opened channel
      by (simp add: reopen_channel_def open_session_channel_by_id_def act_try_def relay_call_def target_call_def
          act_then_def act_bind_def spawn_bridge_def)
    moreover obtain m where "ln_target L (cn_calls ?s4) (px_handle px) (RequestExec n True command) = Inr m"
      using assms(2) by blast
    ultimately show ?thesis
      using assms(12) backend s3(4) by (simp add: replay_requests_def exec_def on_channel_run act_bind_def)
  qed
  then obtain s4 where s4: "reopen_channel L ch s3 = (s4, Inr ())" "gh_active_policy s4 = Some new_policy"
    "(px_handle px, RequestExec n True command) \<in> set (cn_calls s4)" by blast
  have "allowed_server_entries (gw_config s) username = Inr ((nm, host) # entries)" by (rule assms(13))
  then have selected: "menu_selection L ch username ''1'' (?s1\<lparr>gh_sent := gh_sent ?s1 @ [ToData ch ''1'', ToData ch crlf],
      gh_channel_state := hm_insert ch ?cs (gh_channel_state ?s1)\<rparr>) = (s4, Inr ())"
    using s3(1) s4(1)
    by (simp add: menu_selection_def act_then_def act_bind_def hm.get_put one_selects)
  have "serve L (DataEvent ch [CHR ''1'', byte_of 13]) ?s1 = (s4, Inr ())"
    using assms(1,3,9-11) selected typed_one [of L ?cs ch ?s1]
    by (simp add: data_received_def handle_menu_channel_input_def act_then_def act_bind_def hm.get_put)
  with asked s4 show ?thesis by blast
qed

subsection \<open>Instances\<close>

definition no_rights :: effective_authorization_policy where
  "no_rights = \<lparr>eff_allow_local_forwarding = False, eff_allow_remote_forwarding = False,
     eff_allow_sftp = False, eff_allow_scp = False\<rparr>"

definition sample_proxy :: "(channel_id, nat) hash_map \<Rightarrow> proxy_session" where
  "sample_proxy channels = \<lparr>px_handle = 0, px_username = ''bob'', px_target_server = ''web'',
     px_session_channels = channels, px_raw_channels = [], px_last_error = None, px_drop_to_menu = True\<rparr>"

definition sample_connection ::
  "effective_authorization_policy \<Rightarrow> (channel_id, nat) hash_map \<Rightarrow> session_channel_state \<Rightarrow> connection" where
  \<comment> \<open>bob on his server, with one channel\<close>
  "sample_connection policy channels cs = (new_connection sample_gateway None ''id'')\<lparr>
     tr_disk := sample_key_disk, gh_authenticated_username := Some ''bob'', gh_active_policy := Some policy,
     gh_proxy_session := Some (sample_proxy channels), gh_channel_state := [(3, cs)], cn_links := 1\<rparr>"

lemma sample_connection_simps [simp]:
  "gh_authenticated_username (sample_connection pol chs cs) = Some ''bob''"
  "gh_active_policy (sample_connection pol chs cs) = Some pol"
  "gh_proxy_session (sample_connection pol chs cs) = Some (sample_proxy chs)"
  "gh_channel_state (sample_connection pol chs cs) = [(3, cs)]"
  "gw_config (sample_connection pol chs cs) = gw_config sample_gateway"
  "gw_paths (sample_connection pol chs cs) = sample_paths"
  "tr_disk (sample_connection pol chs cs) = sample_key_disk"
  by (simp_all add: sample_connection_def new_connection_def new_client_def gateway.defs session.defs
      connection.defs sample_gateway_def)

lemma sample_links_send [simp]: "sends_succeed sample_links"
  by (simp add: sends_succeed_def sample_links_def)


lemma denied_requests_audited_witness:
  "\<exists>s'. serve sample_links (SubsystemEvent 3 ''sftp'') (sample_connection no_rights [(3, 5)] default_channel_state)
      = (s', Inr ())
    \<and> cn_calls s' = cn_calls (sample_connection no_rights [(3, 5)] default_channel_state)"
  using denied_requests_audited [of sample_links "sample_connection no_rights [(3, 5)] default_channel_state"
      "sample_proxy [(3, 5)]" no_rights "SubsystemEvent 3 ''sftp''"]
  by (auto simp: no_rights_def subsystem_request_permitted_def)

lemma requests_reach_their_channel_witness:
  "\<exists>s'. serve sample_links (ShellEvent 3) (sample_connection no_rights [(3, 5)] default_channel_state) = (s', Inr ())
    \<and> answered sample_links (sample_proxy [(3, 5)]) 3 (\<lambda>b. RequestShell b True)
        (sample_connection no_rights [(3, 5)] default_channel_state) s'"
  using requests_reach_their_channel [of sample_links "sample_connection no_rights [(3, 5)] default_channel_state"
      "sample_proxy [(3, 5)]" no_rights "ShellEvent 3"]
  by simp

lemma sample_connects:
  fixes t :: connection
  assumes G: "gl_os G = sample_os" "gl_kex G = documented_as_ref" and t: "tr_disk t = sample_key_disk" "gw_paths t = sample_paths"
    "cf_kex_policy (rt_config (gw_config t)) = default_kex_policy"
  shows "\<exists>t' px. connect (sample_links\<lparr>ln_gateway := G\<rparr>) ''bob'' \<lparr>st_name = ''web'', st_host = ''10.0.0.5''\<rparr> t = (t', Inr (Inr px))"
proof -
  define L where "L = sample_links\<lparr>ln_gateway := G\<rparr>"
  have path: "resolve_user_server_private_key_path sample_os sample_key_disk ''/k'' ''bob'' ''web'' True False
    = Inr ''/k/bob/web/id_ed25519''" by code_simp
  have "is_ok (backend_kex_policy_summary documented_as_ref default_kex_policy)"
    "is_ok (backend_client_preferred default_kex_policy)" by code_simp+
  then obtain c summary where transport:
    "apply_client_transport_config documented_as_ref sample_transport default_kex_policy = (c, Inr summary)"
    by (auto simp: apply_client_transport_config_def apply_client_transport_crypto_policy_def is_ok_iff)
  have store: "tr_disk t = sample_key_disk" "ep_user_key_root (gw_paths t) = ''/k''" "ep_per_user_per_server (gw_paths t)"
    "cf_kex_policy (rt_config (gw_config t)) = default_kex_policy"
    using t by (simp_all add: sample_paths_def)
  have libs: "gl_os (ln_gateway L) = sample_os" "ln_strict L = False"
    "gl_kex (ln_gateway L) = documented_as_ref" "ln_client_default L = sample_transport"
    "ln_load_key L d p = Inr ''key''" "ln_auth L n u k hash = Inr True"
    for d p n u k hash
    by (simp_all add: L_def sample_links_def G)
  have link: "\<exists>t' h. open_link L c ''bob'' \<lparr>st_name = ''web'', st_host = ''10.0.0.5''\<rparr> t0 = (t', Inr (Inr h))
      \<and> tr_disk t' = tr_disk t0" for t0 :: connection and c
    by (simp add: open_link_def act_bind_def act_then_def kex_done_def log_kex_negotiated_def log_link_def utc_now_def
        audit_log_def L_def sample_links_def check_server_key_def map_err_def)
  have policy_logged: "\<exists>t1. log_kex_policy_applied (ln_gateway L) u target side offered pq fallback t = (t1, Inr ()) \<and> tr_disk t1 = tr_disk t"
    for u target side offered pq fallback
    by (simp add: log_kex_policy_applied_def log_link_def utc_now_def act_bind_def audit_log_def)
  obtain t1 :: connection where t1: "log_kex_policy_applied (ln_gateway L) ''bob'' ''web'' ''backend'' (ks_offered_algorithms summary)
      (ks_require_post_quantum summary) (ks_classical_fallback summary) t = (t1, Inr ())"
    using policy_logged [of "''bob''" "''web''" "''backend''" "ks_offered_algorithms summary"
        "ks_require_post_quantum summary" "ks_classical_fallback summary"] by blast
  obtain t2 :: connection and h where t2: "open_link L c ''bob'' \<lparr>st_name = ''web'', st_host = ''10.0.0.5''\<rparr> t1 = (t2, Inr (Inr h))"
    using link [of c t1] by blast
  show ?thesis
    using t1 t2 path transport store
    by (simp add: L_def [symmetric] connect_def act_try_def act_bind_def act_then_def libs authenticate_def map_err_def)
qed

lemma sample_links_gateway: "sample_links\<lparr>ln_gateway := sample_gateway_libs\<rparr> = sample_links"
  by (simp add: sample_links_def)

definition scp_forbidden :: runtime_state where
  \<comment> \<open>the configuration after bob lost his right to use SCP\<close>
  "scp_forbidden = (gw_config sample_gateway)\<lparr>rt_config := (rt_config (gw_config sample_gateway))
     \<lparr>cf_server_user_policies := [(''web'', [(''bob'', default_policy\<lparr>ap_allow_scp := Some False\<rparr>)])]\<rparr>\<rparr>"

lemma menu_replays_unchecked_witness:
  \<comment> \<open>a policy that allows SCP in force, and a configuration that does not\<close>
  "\<exists>s1 s2 h c. serve sample_links (ExecEvent 3 ''scp -t /x'')
        ((sample_connection (no_rights\<lparr>eff_allow_scp := True\<rparr>) [] (default_channel_state\<lparr>cs_menu_active := True\<rparr>))
          \<lparr>gw_config := scp_forbidden\<rparr>) = (s1, Inr ())
    \<and> serve sample_links (DataEvent 3 [CHR ''1'', byte_of 13]) s1 = (s2, Inr ())
    \<and> (h, RequestExec c True ''scp -t /x'') \<in> set (cn_calls s2)"
proof -
  let ?cs = "default_channel_state\<lparr>cs_menu_active := True\<rparr>"
  let ?s = "(sample_connection (no_rights\<lparr>eff_allow_scp := True\<rparr>) [] ?cs)\<lparr>gw_config := scp_forbidden\<rparr>"
  have entries: "allowed_server_entries scp_forbidden ''bob'' = Inr [(''web'', ''10.0.0.5'')]"
    by (simp add: allowed_server_entries_def find_user_record_def sample_gateway_def sample_config_def
        apply_runtime_overrides_def sample_user_def sample_servers_def hm_get_def List.map_filter_def scp_forbidden_def)
  have "\<exists>pol. resolve_target_policy ?s ''bob'' ''web'' = Inr pol \<and> \<not> eff_allow_scp pol"
    by (simp add: resolve_target_policy_def resolve_effective_authorization_policy_def sample_gateway_def
        apply_runtime_overrides_def sample_config_def sample_user_def hm_get_def sample_paths_def resolve_policy_def
        default_policy_def unwrap_or_def scp_forbidden_def)
  then obtain pol where pol: "resolve_target_policy ?s ''bob'' ''web'' = Inr pol" "\<not> eff_allow_scp pol" by blast
  have scp: "classify_scp_exec_request ''scp -t /x'' = Some ''sink''" by code_simp
  have kex: "cf_kex_policy (rt_config scp_forbidden) = default_kex_policy"
    by (simp add: scp_forbidden_def sample_gateway_def sample_config_def apply_runtime_overrides_def)
  have connects: "\<forall>t. same_store t ?s \<longrightarrow>
      (\<exists>t' px. connect sample_links ''bob'' \<lparr>st_name = ''web'', st_host = ''10.0.0.5''\<rparr> t = (t', Inr (Inr px)))"
    by (intro allI impI, rule sample_connects [of sample_gateway_libs, unfolded sample_links_gateway])
      (simp_all add: same_store_def kex sample_gateway_libs_def)
  have "\<exists>s1 s2 h c. serve sample_links (ExecEvent 3 ''scp -t /x'') ?s = (s1, Inr ())
      \<and> serve sample_links (DataEvent 3 [CHR ''1'', byte_of 13]) s1 = (s2, Inr ())
      \<and> (h, RequestExec c True ''scp -t /x'') \<in> set (cn_calls s2) \<and> gh_active_policy s2 = Some pol"
  proof (rule menu_replays_unchecked [where cs = ?cs and entries = "[]"])
    show "backend_channel sample_links (sample_proxy []) 3 = Inl (Ssh (''missing proxied backend channel for frontend channel ''
        @ ln_show_channel sample_links 3))"
      by (simp add: backend_channel_def sample_proxy_def hm_get_def)
    show "\<forall>calls h c. \<exists>n. ln_target sample_links calls h c = Inr n" by (simp add: sample_links_def)
    show "\<forall>t. same_store t ?s \<longrightarrow>
      (\<exists>t' px. connect sample_links ''bob'' \<lparr>st_name = ''web'', st_host = ''10.0.0.5''\<rparr> t = (t', Inr (Inr px)))"
      by (rule connects)
    show "resolve_target_policy ?s ''bob'' ''web'' = Inr pol" by (rule pol)
    show "validate_exec_request pol ''scp -t /x'' = Inl ''sink''" using pol scp by (simp add: validate_exec_request_def)
    show "validate_exec_request (no_rights\<lparr>eff_allow_scp := True\<rparr>) ''scp -t /x'' = Inr ()"
      by (simp add: validate_exec_request_def)
  qed (simp_all add: entries default_channel_state_def hm_get_def)
  then show ?thesis by blast
qed

end
