(* ===== verification/Connection_Safety.thy ===== *)
theory Connection_Safety
  imports Request_Policy Login_Progress
begin

text \<open>
  A whole connection: the login, the client's requests, what comes back from the targets and
  what happens elsewhere, in any order.  The invariant says whom the gateway opens connections
  to targets for.
\<close>

subsection \<open>What the login leaves alone\<close>

definition outside_frame :: "('z session_scheme \<Rightarrow> bool) \<Rightarrow> bool" where
  \<comment> \<open>properties that do not depend on what the dialogue changes\<close>
  "outside_frame P \<longleftrightarrow> snapshot_frame P \<and> (\<forall>s. P s \<longrightarrow>
     (\<forall>k. P (s\<lparr>gh_keyboard_auth_state := k\<rparr>)) \<and> (\<forall>c. P (s\<lparr>gw_config := c\<rparr>))
     \<and> (\<forall>u. P (s\<lparr>gh_authenticated_username := u\<rparr>)) \<and> (\<forall>t. P (s\<lparr>gh_pending_target := t\<rparr>))
     \<and> (\<forall>p. P (s\<lparr>gh_active_policy := p\<rparr>)))"

lemma keeps_login [keeps_intros]:
  assumes frame: "outside_frame P"
  shows "keeps P (auth_keyboard_interactive G user response)"
proof -
  have frames: "snapshot_frame P" "log_frame P" "tracker_frame P"
    using frame by (simp_all add: outside_frame_def snapshot_frame_log snapshot_frame_tracker)
  have set: "keeps P (set_auth_state k)" for k
    unfolding set_auth_state_def by (rule keeps_modify) (use frame in \<open>simp add: outside_frame_def\<close>)
  have start: "keeps P (start_enrollment G ctx)" for ctx
    unfolding start_enrollment_def Let_def by (rule keeps_intros frames set)+
  have advance: "keeps P (advance_after_initial_auth G ctx policy)" for ctx policy
    unfolding advance_after_initial_auth_def by (rule keeps_intros frames set start)+
  have names: "keeps P (act_modify (\<lambda>s. set_users (F s) s))" for F
    by (rule keeps_modify, use frame in \<open>simp add: outside_frame_def set_users_def\<close>)
  have save: "keeps P (save_document G d)" for d
    unfolding save_document_def by (rule keeps_intros frames names)+
  have update: "keeps P (update_user_credentials G u pw totp flag)" for u pw totp flag
    unfolding update_user_credentials_def by (rule keeps_intros frames save names)+
  have finish: "keeps P (finish_enrollment G ctx secret)" for ctx secret
    unfolding finish_enrollment_def commit_pending_updates_def Let_def by (rule keeps_intros frames set update)+
  have clear: "P s \<Longrightarrow> P (s\<lparr>gh_keyboard_auth_state := k, gh_authenticated_username := u, gh_pending_target := t,
      gh_active_policy := p\<rparr>)" for s k u t p
    using frame by (simp add: outside_frame_def)
  have grant: "P s \<Longrightarrow> P (s\<lparr>gh_pending_target := t, gh_authenticated_username := u, gh_keyboard_auth_state := k\<rparr>)"
    for s t u k using frame by (simp add: outside_frame_def)
  note steps = keeps_intros frames set start advance finish
  have ask: "keeps P (ask_new_password ctx policy message)" for ctx policy message
    unfolding ask_new_password_def by (rule steps)+
  have password: "keeps P (handle_password_response G username pw)" for username pw
    unfolding handle_password_response_def Let_def by (rule steps)+
  have totp: "keeps P (handle_existing_totp_response G username pw code)" for username pw code
    unfolding handle_existing_totp_response_def Let_def by (rule steps)+
  have fresh: "keeps P (handle_new_password_response ctx policy answer)" for ctx policy answer
    unfolding handle_new_password_response_def Let_def by (rule steps)+
  have confirm: "keeps P (handle_confirm_password_response G ctx policy candidate answer)" for ctx policy candidate answer
    unfolding handle_confirm_password_response_def Let_def by (rule steps ask)+
  have enroll: "keeps P (handle_enrollment_response G ctx secret answer)" for ctx secret answer
    unfolding handle_enrollment_response_def Let_def by (rule steps)+
  have chosen: "keeps P (handle_selection_response G ctx answer)" for ctx answer
    unfolding handle_selection_response_def Let_def
    by (rule steps keeps_modify clear grant | assumption)+
  have dispatch: "keeps P (dispatch_response G state answer)" for state answer
    by (cases state) (simp_all add: dispatch_response_def password totp fresh confirm enroll chosen)
  show ?thesis
    unfolding auth_keyboard_interactive_def Let_def by (rule steps dispatch)+
qed


subsection \<open>What a target learns\<close>

definition link_ok :: "auth_libs \<Rightarrow> login_history \<Rightarrow> proxy_session \<Rightarrow> bool" where
  "link_ok A h px \<longleftrightarrow> admitted A h (px_username px)
     \<and> (\<exists>t. st_name t = px_target_server px \<and> granted h (px_username px) t)"

definition call_ok :: "auth_libs \<Rightarrow> login_history \<Rightarrow> target_call \<Rightarrow> bool" where
  "call_ok A h call \<longleftrightarrow> (\<exists>nm. admitted A h nm) \<and> (\<forall>nm. call = AuthenticatePublickey nm \<longrightarrow> admitted A h nm)"

definition links :: "'z connection_scheme \<Rightarrow> proxy_session set" where
  "links s = set_option (gh_proxy_session s) \<union> set (cn_detached s)"

definition links_inv :: "auth_libs \<Rightarrow> login_history \<Rightarrow> 'z connection_scheme \<Rightarrow> bool" where
  "links_inv A h s \<longleftrightarrow> (cn_links s \<noteq> 0 \<longrightarrow> (\<exists>nm. admitted A h nm))
     \<and> (\<forall>(n, call) \<in> set (cn_calls s). call_ok A h call) \<and> (\<forall>px \<in> links s. link_ok A h px)"

definition conn_inv :: "auth_libs \<Rightarrow> login_history \<Rightarrow> runtime_state \<Rightarrow> 'z connection_scheme \<Rightarrow> bool" where
  \<comment> \<open>between logins the configuration does not change under a call\<close>
  "conn_inv A h c s \<longleftrightarrow> login_inv A h s \<and> links_inv A h s \<and> gw_config s = c"

lemma call_okI: "admitted A h nm \<Longrightarrow> (\<And>u. call \<noteq> AuthenticatePublickey u) \<Longrightarrow> call_ok A h call"
  by (auto simp: call_ok_def)

lemma link_ok_call: "link_ok A h px \<Longrightarrow> (\<And>u. call \<noteq> AuthenticatePublickey u) \<Longrightarrow> call_ok A h call"
  by (auto simp: link_ok_def intro: call_okI)

lemma links_inv_same:
  "cn_links t = cn_links s \<Longrightarrow> cn_calls t = cn_calls s \<Longrightarrow> gh_proxy_session t = gh_proxy_session s
   \<Longrightarrow> cn_detached t = cn_detached s \<Longrightarrow> links_inv A h t = links_inv A h s"
  by (simp add: links_inv_def links_def)

lemma conn_more:
  "conn_inv A h c s \<Longrightarrow> conn_inv A h c (s\<lparr>gh_channel_state := m\<rparr>)"
  "conn_inv A h c s \<Longrightarrow> conn_inv A h c (s\<lparr>gh_active_policy := pol\<rparr>)"
  "conn_inv A h c s \<Longrightarrow> conn_inv A h c (s\<lparr>cn_bridges := bs\<rparr>)"
  by (auto simp: conn_inv_def login_inv_def links_inv_def links_def)

lemma conn_frame: "link_frame (call_ok A h) (conn_inv A h c)"
  using login_frame [of A h]
  by (auto simp: link_frame_def tracker_frame_def sent_frame_def conn_inv_def login_inv_def links_inv_def links_def)

lemma conn_log_frame: "log_frame (conn_inv A h c)"
  using link_frameD [OF conn_frame]
  by (auto simp: log_frame_def conn_inv_def login_inv_def links_inv_def links_def)

lemmas conn_frames = conn_frame conn_log_frame link_frameD [OF conn_frame]

lemma links_outside: "outside_frame (links_inv A h)"
  by (auto simp: outside_frame_def snapshot_frame_def log_frame_def tracker_frame_def links_inv_def links_def)

lemma keeps_get: "(\<And>s. P s \<Longrightarrow> keeps P (f (g s))) \<Longrightarrow> keeps P (act_bind (act_get g) f)"
  by (simp add: keeps_def)

lemma keeps_bind_yields:
  "keeps P m \<Longrightarrow> yields R m \<Longrightarrow> (\<And>x. R x \<Longrightarrow> keeps P (f x)) \<Longrightarrow> keeps P (act_bind m f)"
  by (rule keeps_bind_result [OF yields_triple])

lemma keeps_with_link:
  assumes "keeps (conn_inv A h c) absent" "\<And>px. link_ok A h px \<Longrightarrow> keeps (conn_inv A h c) (f px)"
  shows "keeps (conn_inv A h c) (with_proxy absent f)"
  unfolding with_proxy_def
proof (rule keeps_get)
  fix s assume inv: "conn_inv A h c s"
  show "keeps (conn_inv A h c) (case gh_proxy_session s of None \<Rightarrow> absent | Some px \<Rightarrow> f px)"
    using assms inv by (cases "gh_proxy_session s") (auto simp: conn_inv_def links_inv_def links_def)
qed

lemma keeps_set_link: "link_ok A h px \<Longrightarrow> keeps (conn_inv A h c) (set_proxy px)"
  unfolding set_proxy_def
  by (rule keeps_modify) (auto simp: conn_inv_def login_inv_def links_inv_def links_def)


subsection \<open>The requests keep the invariant\<close>

lemma link_results:
  assumes "link_ok A h px"
  shows "yields (\<lambda>r. \<forall>px'. r = Inr px' \<longrightarrow> link_ok A h px') (open_session_channel_by_id L px ch)"
    and "yields (\<lambda>r. \<forall>px'. r = Inr px' \<longrightarrow> link_ok A h px')
      (open_direct_tcpip_channel L px ch host port orig oport)"
    and "yields (\<lambda>(px', r). link_ok A h px') (relay_close L px ch)"
    and "yields (link_ok A h) (abort_proxy_session L reason px)"
    and "link_ok A h (record_error reason px)"
  using assms
  unfolding open_session_channel_by_id_def open_direct_tcpip_channel_def relay_close_def abort_proxy_session_def
    act_try_def
  by (auto intro!: yields_intros simp: link_ok_def record_error_def split: option.split sum.split)

lemma keeps_abort_session:
  assumes "link_ok A h px" shows "keeps (conn_inv A h c) (abort_session L px e)"
  unfolding abort_session_def
  by (rule keeps_bind_yields [OF _ link_results(4) [OF assms]])
    (rule keeps_ending(3) conn_frames link_ok_call [OF assms] keeps_set_link | simp)+

lemma keeps_link_answers:
  assumes px: "link_ok A h px" and m: "keeps (conn_inv A h c) m"
  shows "keeps (conn_inv A h c) (answer_or_fail L ch m)"
    and "keeps (conn_inv A h c) (answer_or_abort L px ch m)"
    and "keeps (conn_inv A h c) (relay_or_abort L px m)"
  unfolding answer_or_fail_def answer_or_abort_def relay_or_abort_def
  by (rule keeps_intros conn_frames m keeps_abort_session [OF px])+

lemma keeps_on_link:
  assumes px: "link_ok A h px"
  shows "keeps (conn_inv A h c) (request_pty L px ch reply pty)"
    "keeps (conn_inv A h c) (request_shell L px ch reply)"
    "keeps (conn_inv A h c) (exec L px ch reply command)"
    "keeps (conn_inv A h c) (request_subsystem L px ch reply nm)"
    "keeps (conn_inv A h c) (set_env L px ch reply var val)"
    "keeps (conn_inv A h c) (window_change L px ch cols rows pix piy)"
    "keeps (conn_inv A h c) (relay_signal L px ch sig)"
    "keeps (conn_inv A h c) (relay_data L px ch bytes)"
    "keeps (conn_inv A h c) (relay_extended_data L px ch code bytes)"
    "keeps (conn_inv A h c) (relay_eof L px ch)"
    "keeps (conn_inv A h c) (relay_close L px ch)"
    "keeps (conn_inv A h c) (abort_proxy_session L reason px)"
    "keeps (conn_inv A h c) (drop_proxy_session L px)"
    "keeps (conn_inv A h c) (open_session_channel_by_id L px ch)"
    "keeps (conn_inv A h c) (open_direct_tcpip_channel L px ch host port orig oport)"
    "keeps (conn_inv A h c) (link_tcpip_forward L px host port)"
    "keeps (conn_inv A h c) (link_cancel_tcpip_forward L px host port)"
  by (rule keeps_channel_operations [OF conn_frame] keeps_ending [OF conn_frame] keeps_opening [OF conn_frame];
    rule link_ok_call [OF px]; simp)+

lemma keeps_opened_link:
  assumes px: "link_ok A h px" and m: "keeps (conn_inv A h c) m"
    and results: "yields (\<lambda>r. \<forall>px'. r = Inr px' \<longrightarrow> link_ok A h px') m"
  shows "keeps (conn_inv A h c) (act_bind m (\<lambda>r. case r of
    Inr px \<Rightarrow> act_then (set_proxy px) (act_return True) | Inl error \<Rightarrow> act_return False))"
  by (rule keeps_bind_yields [OF m results]) (rule keeps_sum_eq keeps_intros keeps_set_link | simp)+

lemmas conn_intros = keeps_with_link keeps_link_answers keeps_on_link keeps_intros conn_frames
  keeps_change_channel conn_more

lemma keeps_requests:
  "keeps (conn_inv A h c) (channel_open_session L ch)"
  "keeps (conn_inv A h c) (channel_open_direct_tcpip L ch host port orig oport)"
  "keeps (conn_inv A h c) (pty_request L ch pty)"
  "keeps (conn_inv A h c) (x11_request L ch)"
  "keeps (conn_inv A h c) (shell_request L ch)"
  "keeps (conn_inv A h c) (exec_request L ch command)"
  "keeps (conn_inv A h c) (subsystem_request L ch nm)"
  "keeps (conn_inv A h c) (env_request L ch var val)"
  "keeps (conn_inv A h c) (window_change_request L ch cols rows pix piy)"
  "keeps (conn_inv A h c) (signal_request L ch sig)"
  "keeps (conn_inv A h c) agent_request"
  "keeps (conn_inv A h c) (extended_data_received L ch code bytes)"
  "keeps (conn_inv A h c) (eof_received L ch)"
  "keeps (conn_inv A h c) (tcpip_forward L host port)"
  "keeps (conn_inv A h c) (cancel_tcpip_forward L host port)"
  "keeps (conn_inv A h c) (with_proxy (act_return ()) (\<lambda>px. relay_or_abort L px (relay_data L px ch bytes)))"
  unfolding channel_open_session_def channel_open_direct_tcpip_def pty_request_def x11_request_def
    shell_request_def exec_request_def subsystem_request_def env_request_def window_change_request_def
    signal_request_def agent_request_def extended_data_received_def eof_received_def tcpip_forward_def
    cancel_tcpip_forward_def with_policy_def Let_def
  by (assumption | rule keeps_opened_link link_results(1,2) conn_intros)+

lemma keeps_close_received: "keeps (conn_inv A h c) (close_received L ch)"
proof -
  have "keeps (conn_inv A h c) (act_bind (relay_close L px ch) (\<lambda>(px, r).
      act_then (set_proxy px) (relay_or_abort L px (act_return r))))" if px: "link_ok A h px" for px
  proof (rule keeps_bind_yields [OF keeps_on_link(11) [OF px] link_results(3) [OF px]])
    fix x :: "proxy_session \<times> unit gw_result" assume "case x of (px', r) \<Rightarrow> link_ok A h px'"
    then show "keeps (conn_inv A h c) (case x of (px, r) \<Rightarrow> act_then (set_proxy px) (relay_or_abort L px (act_return r)))"
      by (cases x) (simp add: keeps_then keeps_set_link keeps_link_answers keeps_intros)
  qed
  note closes = this
  show ?thesis
    unfolding close_received_def by (assumption | rule closes conn_intros keeps_modify)+
qed

subsection \<open>Choosing a target\<close>

lemma yields_try:
  "(\<And>e. R (Inl e)) \<Longrightarrow> (\<And>x. yields R (f x)) \<Longrightarrow> yields R (act_try m f)"
  unfolding act_try_def by (intro yields_intros)

lemma connect_results:
  assumes "admitted A h username" "granted h username target"
  shows "yields (\<lambda>r. \<forall>px. r = Inr px \<longrightarrow> link_ok A h px) (connect L username target)"
proof -
  have "link_ok A h \<lparr>px_handle = n, px_username = username, px_target_server = st_name target,
      px_session_channels = [], px_raw_channels = [], px_last_error = None, px_drop_to_menu = b\<rparr>" for n b
    using assms by (auto simp: link_ok_def)
  note ok = this
  show ?thesis
    unfolding connect_def
    by (rule yields_intros yields_try allI | split prod.split | split sum.split | intro conjI allI impI | auto simp: ok)+
qed

lemma keeps_replace:
  assumes "link_ok A h px" shows "keeps (conn_inv A h c) (replace_proxy_session L px :: ('z connection_scheme, unit) act)"
proof -
  have "conn_inv A h c (fst (replace_proxy_session L px s))" if inv: "conn_inv A h c s" for s :: "'z connection_scheme"
  proof (cases "gh_proxy_session s")
    case None
    then show ?thesis using inv assms
      by (auto simp: replace_proxy_session_def conn_inv_def login_inv_def links_inv_def links_def)
  next
    case (Some old)
    let ?s = "s\<lparr>gh_proxy_session := Some px, cn_detached := cn_detached s @ [old]\<rparr>"
    have old: "link_ok A h old" using inv Some by (simp add: conn_inv_def links_inv_def links_def)
    have "conn_inv A h c ?s" using inv assms old by (auto simp: conn_inv_def login_inv_def links_inv_def links_def)
    then have "conn_inv A h c (fst (drop_proxy_session L old ?s))" by (rule keeps_fst [OF keeps_on_link(13) [OF old]])
    then show ?thesis using Some by (simp add: replace_proxy_session_def)
  qed
  then show ?thesis unfolding keeps_def by blast
qed

lemma keeps_connect_selected:
  assumes adm: "admitted A h username" "granted h username target"
  shows "keeps (conn_inv A h c) (connect_selected_target L username target)"
proof -
  have connects: "keeps (conn_inv A h c) (connect L username target)"
    by (rule keeps_connect [OF conn_frame])
      (use adm in \<open>auto simp: call_ok_def conn_inv_def login_inv_def links_inv_def links_def\<close>)
  show ?thesis
    unfolding connect_selected_target_def Let_def
    by (rule keeps_bind_yields [OF connects connect_results [OF adm]] keeps_sum_eq conn_intros keeps_replace keeps_modify
      | assumption | simp)+
qed

lemma keeps_auth_succeeded: "keeps (conn_inv A h c) (auth_succeeded L :: ('z connection_scheme, unit) act)"
proof -
  have "conn_inv A h c (fst (auth_succeeded L s))" if inv: "conn_inv A h c s" for s :: "'z connection_scheme"
  proof (cases "gh_authenticated_username s")
    case None
    then show ?thesis using keeps_fst [OF keeps_sends(3) [OF link_frameD(2) [OF conn_frame]] inv]
      by (simp add: auth_succeeded_def)
  next
    case (Some username)
    then obtain t where "gh_pending_target s = Some t" "admitted A h username" "granted h username t"
      using inv by (auto simp: conn_inv_def login_inv_def)
    with Some keeps_fst [OF keeps_connect_selected inv] show ?thesis by (simp add: auth_succeeded_def)
  qed
  then show ?thesis unfolding keeps_def by blast
qed

lemma keeps_reopen: "keeps (conn_inv A h c) (reopen_channel L ch)"
proof -
  have again: "keeps (conn_inv A h c) (replay_requests L px ch replay)" if "link_ok A h px" for px replay
    unfolding replay_requests_def
    by (rule keeps_on_link [OF that] keeps_intros | (cases "cs_request replay"; simp))+
  have opens: "keeps (conn_inv A h c) (act_bind (open_session_channel_by_id L px ch) (\<lambda>r.
      act_bind (act_io r) (\<lambda>px.
      act_then (act_modify (\<lambda>s. s\<lparr>gh_proxy_session := Some px\<rparr>))
      (act_bind (act_get (\<lambda>s. hm_get (gh_channel_state s) ch)) (\<lambda>replay. case replay of
         None \<Rightarrow> act_return ()
       | Some replay \<Rightarrow> replay_requests L px ch replay)))))" if px: "link_ok A h px" for px
  proof (rule keeps_bind_yields [OF keeps_on_link(14) [OF px] link_results(1) [OF px]])
    fix r :: "central_error + proxy_session" assume r: "\<forall>px'. r = Inr px' \<longrightarrow> link_ok A h px'"
    show "keeps (conn_inv A h c) (act_bind (act_io r) (\<lambda>px.
        act_then (act_modify (\<lambda>s. s\<lparr>gh_proxy_session := Some px\<rparr>))
        (act_bind (act_get (\<lambda>s. hm_get (gh_channel_state s) ch)) (\<lambda>replay. case replay of
           None \<Rightarrow> act_return ()
         | Some replay \<Rightarrow> replay_requests L px ch replay))))"
    proof (cases r)
      case (Inr px')
      with r have "link_ok A h px'" by simp
      with Inr show ?thesis
        by (simp only: Inr act_io_simps act_bind_simps(1))
          (rule keeps_intros again keeps_set_link [unfolded set_proxy_def] | assumption)+
    qed (simp add: keeps_intros)
  qed
  show ?thesis
    unfolding reopen_channel_def with_proxy_def [symmetric] by (assumption | rule conn_intros opens)+
qed


subsection \<open>Menu input\<close>

lemma keeps_menu_bytes: "sent_frame P \<Longrightarrow> keeps P (menu_bytes L ch cs bytes)"
proof (induction bytes arbitrary: cs)
  case (Cons b bytes)
  note step = Cons.IH [OF Cons.prems] and frame = Cons.prems
  show ?case
    by (cases "menu_input_byte_action (cs_menu_escape_state cs) b"; cases "snd (menu_input_byte_action (cs_menu_escape_state cs) b)")
      (simp_all add: Let_def keeps_intros step frame)
qed (simp add: keeps_intros)

lemma keeps_io_eq: "(\<And>x. r = Inr x \<Longrightarrow> keeps P (f x)) \<Longrightarrow> keeps P (act_bind (act_io r) f)"
  by (cases r) (simp_all add: keeps_intros)

lemma keeps_option_eq:
  "(x = None \<Longrightarrow> keeps P m) \<Longrightarrow> (\<And>y. x = Some y \<Longrightarrow> keeps P (f y)) \<Longrightarrow> keeps P (case x of None \<Rightarrow> m | Some y \<Rightarrow> f y)"
  by (cases x) auto

lemma keeps_reply:
  "keeps P m \<Longrightarrow> (\<And>nm t ps. keeps P (f nm t ps)) \<Longrightarrow> keeps P (case r of AuthPartial nm t ps \<Rightarrow> f nm t ps | _ \<Rightarrow> m)"
  by (cases r) auto

lemma keeps_menu_selection:
  assumes seen: "c \<in> set (lh_snapshots h)" and adm: "admitted A h username"
  shows "keeps (conn_inv A h c) (menu_selection L ch username selection)"
proof -
  have select: "keeps (conn_inv A h c) (connect_selected_target L username
      \<lparr>st_name = fst (entries ! i), st_host = snd (entries ! i)\<rparr>)"
    if "allowed_server_entries c username = Inr entries" "selected_index selection entries = Some i" for entries i
  proof (rule keeps_connect_selected [OF adm])
    show "granted h username \<lparr>st_name = fst (entries ! i), st_host = snd (entries ! i)\<rparr>"
      unfolding granted_def using that seen
      by (intro bexI [of _ c] exI [of _ entries]) (auto dest: selected_index_less)
  qed
  have leave: "conn_inv A h c s \<Longrightarrow> conn_inv A h c (case hm_get (gh_channel_state s) ch of None \<Rightarrow> s
      | Some channel_state \<Rightarrow> s\<lparr>gh_channel_state := hm_insert ch (channel_state
          \<lparr>cs_menu_active := False, cs_menu_escape_state := EscNone\<rparr>) (gh_channel_state s)\<rparr>)" for s :: "'z connection_scheme"
    by (auto simp: conn_more split: option.split)
  show ?thesis
    unfolding menu_selection_def Let_def
  proof (split if_split, intro conjI impI, goal_cases)
    case 1
    show ?case by (rule conn_intros)+
  next
    case 2
    show ?case
    proof (rule keeps_get, rule keeps_io_eq, rule keeps_option_eq, goal_cases)
      case (1 s entries)
      show ?case
        by (rule conn_intros keeps_reply | intro allI)+
    next
      case (2 s entries i)
      then have "allowed_server_entries c username = Inr entries" by (simp add: conn_inv_def)
      from select [OF this 2(3)] show ?case
        by (intro keeps_then keeps_reopen) (simp_all add: keeps_modify leave)
    qed
  qed
qed


lemma keeps_menu_input:
  assumes seen: "c \<in> set (lh_snapshots h)"
  shows "keeps (conn_inv A h c) (handle_menu_channel_input L ch bytes)"
  unfolding handle_menu_channel_input_def
proof (rule keeps_get, rule keeps_option_eq, goal_cases)
  case (2 s username)
  then have adm: "admitted A h username" by (simp add: conn_inv_def login_inv_def)
  show ?case
    by (rule keeps_intros conn_frames keeps_menu_bytes keeps_menu_selection [OF seen adm] keeps_modify conn_more
      | assumption | (split prod.split, intro allI impI))+
qed (simp add: keeps_intros)

lemma keeps_serve:
  assumes "c \<in> set (lh_snapshots h)" shows "keeps (conn_inv A h c) (serve L ev)"
proof (cases ev)
  case (DataEvent ch bytes)
  then show ?thesis
    by (simp only: serve.simps data_received_def)
      (rule keeps_bind keeps_menu_input assms keeps_requests keeps_intros)+
qed (simp_all add: keeps_auth_succeeded keeps_requests keeps_close_received keeps_ignoring)

subsection \<open>The tasks of the targets\<close>

definition link_of :: "nat \<Rightarrow> 'z connection_scheme \<Rightarrow> proxy_session option" where
  "link_of handle s = find (\<lambda>px. px_handle px = handle)
     ((case gh_proxy_session s of None \<Rightarrow> [] | Some px \<Rightarrow> [px]) @ cn_detached s)"

definition put_link :: "proxy_session \<Rightarrow> ('z connection_scheme, unit) act" where
  \<comment> \<open>the tables a task shares with its session\<close>
  "put_link px = act_modify (\<lambda>s. s\<lparr>
     gh_proxy_session := map_option (\<lambda>old. if px_handle old = px_handle px then px else old) (gh_proxy_session s),
     cn_detached := map (\<lambda>old. if px_handle old = px_handle px then px else old) (cn_detached s)\<rparr>)"

definition end_bridge :: "bridge \<Rightarrow> ('z connection_scheme, unit) act" where
  "end_bridge b = act_modify (\<lambda>s. s\<lparr>cn_bridges := remove1 b (cn_bridges s)\<rparr>)"

definition run_bridge ::
  "('d, 'k, 'h) link_libs \<Rightarrow> bridge \<Rightarrow> channel_msg option \<Rightarrow> ('z connection_scheme, unit) act" where
  \<comment> \<open>one turn of a bridge task: a message, or \<^verbatim>\<open>None\<close> for the end of the target's channel\<close>
  "run_bridge L b message =
     act_bind (act_get (link_of (br_link b))) (\<lambda>found. case found of
       None \<Rightarrow> act_return ()
     | Some px \<Rightarrow>
         if br_raw b then
           act_bind (raw_message L (br_frontend b) message px) (\<lambda>(px, on).
           act_then (put_link px) (act_when (\<not> on) (end_bridge b)))
         else
           act_bind (case message of None \<Rightarrow> end_of_session L (br_frontend b) px
               | Some m \<Rightarrow> relay_message L (br_frontend b) m px) (\<lambda>(px, over).
           act_then (put_link px)
             (case over of
                None \<Rightarrow> act_return ()
              | Some close_frontend \<Rightarrow>
                  act_then (act_when close_frontend (try_send L (ToClose (br_frontend b)))) (end_bridge b))))"

definition target_opens ::
  "('d, 'k, 'h) link_libs \<Rightarrow> nat \<Rightarrow> nat \<Rightarrow> frontend_open \<Rightarrow> ('z connection_scheme, unit) act" where
  "target_opens L handle target_channel request =
     act_bind (act_get (link_of handle)) (\<lambda>found. case found of
       None \<Rightarrow> act_return ()
     | Some px \<Rightarrow> act_bind (accept_target_channel L px target_channel request) put_link)"

definition hang_up :: "('d, 'k, 'h) link_libs \<Rightarrow> ('z connection_scheme, unit) act" where
  \<comment> \<open>the handler is dropped, and its session with it\<close>
  "hang_up L = with_proxy (act_return ()) (drop_proxy_session L)"


lemma keeps_put_link: "link_ok A h px \<Longrightarrow> keeps (conn_inv A h c) (put_link px)"
  unfolding put_link_def
  by (rule keeps_modify) (auto simp: conn_inv_def login_inv_def links_inv_def links_def split: option.split_asm)

lemma keeps_link_of:
  assumes "keeps (conn_inv A h c) absent" "\<And>px. link_ok A h px \<Longrightarrow> keeps (conn_inv A h c) (f px)"
  shows "keeps (conn_inv A h c) (act_bind (act_get (link_of n)) (\<lambda>found. case found of None \<Rightarrow> absent | Some px \<Rightarrow> f px))"
proof (rule keeps_get, rule keeps_option_eq, goal_cases)
  case (2 s px)
  then have "px \<in> set ((case gh_proxy_session s of None \<Rightarrow> [] | Some px \<Rightarrow> [px]) @ cn_detached s)"
    unfolding link_of_def by (metis find_Some_iff nth_mem)
  then have "px \<in> links s" by (auto simp: links_def split: option.splits)
  with 2 show ?case by (intro assms) (simp add: conn_inv_def links_inv_def)
qed (rule assms)

lemma relay_results:
  assumes px: "link_ok A h px"
  shows "yields (\<lambda>(px', on). link_ok A h px') (raw_message L f message px)"
    and "yields (\<lambda>(px', over). link_ok A h px') (end_of_session L f px)"
    and "yields (\<lambda>(px', over). link_ok A h px') (relay_message L f m px)"
    and "yields (link_ok A h) (accept_target_channel L px tc request)"
proof -
  note errors = link_results(5) [OF px]
  show "yields (\<lambda>(px', on). link_ok A h px') (raw_message L f message px)"
    unfolding raw_message_def Let_def
    by (cases message rule: option.exhaust; cases "the message";
        auto intro!: yields_intros simp: px errors split: sum.splits)
  show ends: "yields (\<lambda>(px', over). link_ok A h px') (end_of_session L f px)"
    unfolding end_of_session_def using px by (intro yields_intros) (simp add: link_ok_def)
  show "yields (\<lambda>(px', over). link_ok A h px') (relay_message L f m px)"
    unfolding relay_message_def Let_def
    by (rule yields_cases yields_bind_result [OF link_results(4) [OF px]] yields_bind ends yields_basic | simp add: px)+
  show "yields (link_ok A h) (accept_target_channel L px tc request)"
    unfolding accept_target_channel_def using px
    by (intro yields_intros) (simp add: link_ok_def)
qed

lemma keeps_relaying:
  assumes px: "link_ok A h px"
  shows "keeps (conn_inv A h c) (raw_message L f message px)"
    and "keeps (conn_inv A h c) (end_of_session L f px)"
    and "keeps (conn_inv A h c) (relay_message L f m px)"
    and "keeps (conn_inv A h c) (accept_target_channel L px tc request)"
proof -
  note sends = keeps_sends [OF link_frameD(2) [OF conn_frame]]
  show "keeps (conn_inv A h c) (raw_message L f message px)"
    unfolding raw_message_def Let_def
    by (cases message rule: option.exhaust; cases "the message"; simp;
      (rule sends keeps_intros | simp)+)
  show ends: "keeps (conn_inv A h c) (end_of_session L f px)"
    unfolding end_of_session_def activate_menu_after_disconnect_def Let_def
    by (rule sends keeps_intros keeps_modify conn_more | assumption)+
  have action: "keeps (conn_inv A h c) (apply_backend_session_action L action f)" for action
    by (cases action) (simp_all add: sends keeps_intros)
  show "keeps (conn_inv A h c) (relay_message L f m px)"
    unfolding relay_message_def Let_def
    by (rule ends action keeps_on_link(12) [OF px] keeps_intros)+
  show "keeps (conn_inv A h c) (accept_target_channel L px tc request)"
    unfolding accept_target_channel_def
    by (intro keeps_bind keeps_then keeps_spawn_bridge [OF conn_frame] keeps_intros)
      (auto simp: keeps_def conn_inv_def login_inv_def links_inv_def links_def)
qed


lemma keeps_pairs:
  assumes "keeps P m" "yields (\<lambda>(px, r). R px) m" "\<And>px r. R px \<Longrightarrow> keeps P (f px r)"
  shows "keeps P (act_bind m (\<lambda>(px, r). f px r))"
  using assms by (intro keeps_bind_yields [of P m "\<lambda>(px, r). R px"]) (auto split: prod.split)

lemma keeps_tasks:
  "keeps (conn_inv A h c) (run_bridge L b message)"
  "keeps (conn_inv A h c) (target_opens L n tc request)"
  "keeps (conn_inv A h c) (hang_up L)"
proof -
  note sends = keeps_sends [OF link_frameD(2) [OF conn_frame]]
  have ended: "keeps (conn_inv A h c) (end_bridge b)"
    unfolding end_bridge_def by (rule keeps_modify) (rule conn_more)
  have turn: "keeps (conn_inv A h c) (case message of None \<Rightarrow> end_of_session L f px | Some m \<Rightarrow> relay_message L f m px)"
      "yields (\<lambda>(px', over). link_ok A h px') (case message of None \<Rightarrow> end_of_session L f px | Some m \<Rightarrow> relay_message L f m px)"
    if "link_ok A h px" for px f
    using keeps_relaying [OF that] relay_results [OF that] by (auto split: option.split)
  show "keeps (conn_inv A h c) (run_bridge L b message)"
    unfolding run_bridge_def
    by (assumption | rule keeps_link_of keeps_pairs [where R = "link_ok A h"] keeps_relaying relay_results turn
        keeps_put_link ended sends keeps_intros)+
  show "keeps (conn_inv A h c) (target_opens L n tc request)"
    unfolding target_opens_def
    by (assumption | rule keeps_link_of keeps_bind_yields keeps_relaying relay_results keeps_put_link keeps_intros)+
  show "keeps (conn_inv A h c) (hang_up L)"
    unfolding hang_up_def by (assumption | rule keeps_with_link keeps_on_link keeps_intros)+
qed

subsection \<open>The machine\<close>

datatype connection_event =
    LoginCall string "string list option"
  | RefusedCall
  | Serving client_event
  | FromTarget bridge "channel_msg option"
  | TargetOpens nat nat frontend_open
  | HangUp
  | Meanwhile

definition saw :: "login_history \<Rightarrow> 'z session_scheme \<Rightarrow> login_history" where
  "saw h s = h\<lparr>lh_snapshots := lh_snapshots h @ [gw_config s]\<rparr>"

definition untouched :: "connection \<Rightarrow> connection \<Rightarrow> bool" where
  \<comment> \<open>other connections, reloads and the tracker's tasks change the gateway's part of the state only\<close>
  "untouched s s' \<longleftrightarrow> gh_keyboard_auth_state s' = gh_keyboard_auth_state s
     \<and> gh_authenticated_username s' = gh_authenticated_username s \<and> gh_pending_target s' = gh_pending_target s
     \<and> gh_proxy_session s' = gh_proxy_session s \<and> cn_detached s' = cn_detached s
     \<and> cn_links s' = cn_links s \<and> cn_calls s' = cn_calls s"

inductive connection_step ::
  "('d, 'k, 'h) link_libs \<Rightarrow> connection \<times> login_history \<Rightarrow> connection_event \<Rightarrow> connection \<times> login_history \<Rightarrow> bool"
  for L :: "('d, 'k, 'h) link_libs" where
  login: "auth_keyboard_interactive (ln_gateway L) user response s = (s', r)
    \<Longrightarrow> connection_step L (s, h) (LoginCall user response) (s', seen h s response)"
| refused: "m \<in> {auth_none (ln_gateway L), auth_publickey (ln_gateway L), auth_password (ln_gateway L)}
    \<Longrightarrow> m s = (s', r) \<Longrightarrow> connection_step L (s, h) RefusedCall (s', h)"
| serving: "serve L ev s = (s', r) \<Longrightarrow> connection_step L (s, h) (Serving ev) (s', saw h s)"
| from_target: "b \<in> set (cn_bridges s) \<Longrightarrow> run_bridge L b message s = (s', r)
    \<Longrightarrow> connection_step L (s, h) (FromTarget b message) (s', h)"
| target_opens: "target_opens L handle channel request s = (s', r)
    \<Longrightarrow> connection_step L (s, h) (TargetOpens handle channel request) (s', h)"
| hang_up: "hang_up L s = (s', r) \<Longrightarrow> connection_step L (s, h) HangUp (s', h)"
| meanwhile: "untouched s s' \<Longrightarrow> distinct (map user_name (gw_users s'))
    \<Longrightarrow> connection_step L (s, h) Meanwhile (s', h)"

definition connection_start :: "connection \<times> login_history \<Rightarrow> bool" where
  "connection_start sh \<longleftrightarrow> (\<exists>gw addr uuid. distinct (map user_name (gw_users gw))
     \<and> sh = (new_connection gw addr uuid, \<lparr>lh_responses = [], lh_snapshots = []\<rparr>))"

definition connection_inv :: "auth_libs \<Rightarrow> connection \<times> login_history \<Rightarrow> bool" where
  "connection_inv A sh \<longleftrightarrow> login_inv A (snd sh) (fst sh) \<and> links_inv A (snd sh) (fst sh)"

lemma shown_mono:
  assumes "set (lh_responses h) \<subseteq> set (lh_responses h')" "set (lh_snapshots h) \<subseteq> set (lh_snapshots h')"
  shows "admitted A h nm \<Longrightarrow> admitted A h' nm" and "granted h nm t \<Longrightarrow> granted h' nm t"
proof -
  have shown: "password_shown A h u \<Longrightarrow> password_shown A h' u" and code: "code_shown A h sec \<Longrightarrow> code_shown A h' sec" for u sec
    using assms by (auto simp: password_shown_def code_shown_def)
  show "admitted A h nm \<Longrightarrow> admitted A h' nm"
    unfolding admitted_def using shown code by (auto split: if_splits)
  show "granted h nm t \<Longrightarrow> granted h' nm t" using assms(2) by (auto simp: granted_def)
qed

lemma links_inv_mono:
  assumes "links_inv A h s" "set (lh_responses h) \<subseteq> set (lh_responses h')" "set (lh_snapshots h) \<subseteq> set (lh_snapshots h')"
  shows "links_inv A h' s"
proof -
  have "call_ok A h call \<Longrightarrow> call_ok A h' call" "link_ok A h px \<Longrightarrow> link_ok A h' px" for call px
    using shown_mono [OF assms(2,3)] by (auto simp: call_ok_def link_ok_def)
  with assms(1) shown_mono(1) [OF assms(2,3)] show ?thesis unfolding links_inv_def by fast
qed

lemma conn_inv_run:
  "keeps (conn_inv A h (gw_config s)) m \<Longrightarrow> connection_inv A (s, h) \<Longrightarrow> m s = (s', r) \<Longrightarrow> connection_inv A (s', h)"
  by (auto simp: connection_inv_def conn_inv_def dest: keeps_run)

lemma connection_inv_login:
  assumes run: "auth_keyboard_interactive G user response s = (s', r)" and inv: "connection_inv (gl_auth G) (s, h)"
  shows "connection_inv (gl_auth G) (s', seen h s response)"
proof -
  have "links_inv (gl_auth G) (seen h s response) s"
    by (rule links_inv_mono [of _ h]) (use inv in \<open>auto simp: connection_inv_def seen_def\<close>)
  then have "links_inv (gl_auth G) (seen h s response) s'" by (rule keeps_run [OF keeps_login [OF links_outside], OF _ run])
  moreover have "login_inv (gl_auth G) (seen h s response) s'"
    using login_call [of G h s response user] assms by (simp add: connection_inv_def)
  ultimately show ?thesis by (simp add: connection_inv_def)
qed

lemma connection_inv_serve:
  assumes "serve L ev s = (s', r)" "connection_inv A (s, h)"
  shows "connection_inv A (s', saw h s)"
proof (rule conn_inv_run [OF keeps_serve, OF _ _ assms(1)])
  have "login_inv A (saw h s) s" by (rule login_inv_mono [of _ h]) (use assms(2) in \<open>auto simp: connection_inv_def saw_def\<close>)
  moreover have "links_inv A (saw h s) s"
    by (rule links_inv_mono [of _ h]) (use assms(2) in \<open>auto simp: connection_inv_def saw_def\<close>)
  ultimately show "connection_inv A (s, saw h s)" by (simp add: connection_inv_def)
qed (simp add: saw_def)

lemma keeps_refused:
  "m \<in> {auth_none G, auth_publickey G, auth_password G} \<Longrightarrow> keeps (conn_inv A h c) m"
  by (auto simp: auth_none_def auth_publickey_def auth_password_def intro: keeps_bookkeeping conn_log_frame)

lemma connection_inv_step:
  assumes "connection_step L sh ev sh'" "connection_inv (gl_auth (ln_gateway L)) sh"
  shows "connection_inv (gl_auth (ln_gateway L)) sh'"
  using assms
proof (cases rule: connection_step.cases)
  case (login user response s s' r h)
  show ?thesis using connection_inv_login [OF login(4)] assms(2) login(1,3) by simp
next
  case (refused m s s' r h)
  show ?thesis using conn_inv_run [OF keeps_refused [OF refused(4)], OF _ refused(5)] assms(2) refused(1,3) by simp
next
  case (serving ev s s' r h)
  show ?thesis using connection_inv_serve [OF serving(4)] assms(2) serving(1,3) by simp
next
  case (from_target b s message s' r h)
  show ?thesis using conn_inv_run [OF keeps_tasks(1), OF _ from_target(5)] assms(2) from_target(1,3) by simp
next
  case (target_opens handle channel request s s' r h)
  show ?thesis using conn_inv_run [OF keeps_tasks(2), OF _ target_opens(4)] assms(2) target_opens(1,3) by simp
next
  case (hang_up s s' r h)
  show ?thesis using conn_inv_run [OF keeps_tasks(3), OF _ hang_up(4)] assms(2) hang_up(1,3) by simp
next
  case (meanwhile s s' h)
  have "links_inv (gl_auth (ln_gateway L)) h s' = links_inv (gl_auth (ln_gateway L)) h s"
    using meanwhile(4) by (intro links_inv_same) (simp_all add: untouched_def)
  then show ?thesis using assms(2) meanwhile by (simp add: connection_inv_def login_inv_def untouched_def)
qed

interpretation connection: machine_invariant connection_start "connection_step L" "connection_inv (gl_auth (ln_gateway L))" for L
proof
  fix sh assume "connection_start sh"
  then show "connection_inv (gl_auth (ln_gateway L)) sh"
    by (auto simp: connection_start_def connection_inv_def login_inv_def links_inv_def links_def new_connection_def
        new_client_def gateway.defs session.defs connection.defs)
next
  fix sh ev sh' assume "connection_inv (gl_auth (ln_gateway L)) sh" "connection_step L sh ev sh'"
  then show "connection_inv (gl_auth (ln_gateway L)) sh'" by (rule connection_inv_step [rotated])
qed

lemma links_guarded:
  assumes "links_inv A h s"
  shows "(cn_links s \<noteq> 0 \<or> cn_calls s \<noteq> [] \<longrightarrow> (\<exists>nm. admitted A h nm))
    \<and> (\<forall>(n, call) \<in> set (cn_calls s). \<forall>nm. call = AuthenticatePublickey nm \<longrightarrow> admitted A h nm)
    \<and> (\<forall>px. gh_proxy_session s = Some px \<longrightarrow> admitted A h (px_username px)
         \<and> (\<exists>t. st_name t = px_target_server px \<and> granted h (px_username px) t))"
  using assms by (cases "cn_calls s") (auto simp: links_inv_def links_def call_ok_def link_ok_def)

text \<open>
  C2: No target hears of anybody who has not logged in.  Whatever a client does on a connection,
  whatever the targets send and whatever happens elsewhere, in any order: a connection to a
  target is opened, and a call made on one, only after somebody proved a password and a TOTP
  code on this connection; a target is logged in to only under such an account; and the target
  connected to is one that a configuration in force allowed that account.
\<close>
theorem no_target_before_login:
  assumes "reach connection_start (connection_step L) (s, h)"
  shows "(cn_links s \<noteq> 0 \<or> cn_calls s \<noteq> [] \<longrightarrow> (\<exists>nm. admitted (gl_auth (ln_gateway L)) h nm))
    \<and> (\<forall>(n, call) \<in> set (cn_calls s). \<forall>nm. call = AuthenticatePublickey nm \<longrightarrow> admitted (gl_auth (ln_gateway L)) h nm)
    \<and> (\<forall>px. gh_proxy_session s = Some px \<longrightarrow> admitted (gl_auth (ln_gateway L)) h (px_username px)
         \<and> (\<exists>t. st_name t = px_target_server px \<and> granted h (px_username px) t))"
  by (rule links_guarded) (use connection.reach_inv [OF assms] in \<open>simp add: connection_inv_def\<close>)


subsection \<open>An instance\<close>

abbreviation still_links :: "(string, string, unit) link_libs" where
  "still_links \<equiv> sample_links\<lparr>ln_gateway := still_libs\<rparr>"

definition sample_peer :: connection where
  "sample_peer = new_connection sample_gateway (Some (V4 [10, 0, 0, 1], 22)) ''id''"

lemma sample_peer_valid: "valid_login still_libs sample_peer ''bob'' ''pw'' ''123456'' [(''web'', ''10.0.0.5'')]"
proof -
  have trim: "trim ''bob'' = ''bob''" "trim ''123456'' = ''123456''" by code_simp+
  show ?thesis
    using fresh_limiter_grants
    by (simp add: valid_login_def sample_peer_def new_connection_def still_libs_def new_client_def gateway.defs
        session.defs connection.defs sample_gateway_def lets_in_def active_ban_def hm_get_def hm_wf_def
        sample_config_def sample_user_def sample_auth_def code_accepted_def trim allowed_server_entries_def
        find_user_record_def sample_servers_def apply_runtime_overrides_def sample_paths_def)
qed

lemma sample_peer_start: "connection_start (sample_peer, \<lparr>lh_responses = [], lh_snapshots = []\<rparr>)"
proof -
  have "distinct (map user_name (gw_users sample_gateway))"
    by (simp add: sample_gateway_def sample_config_def apply_runtime_overrides_def)
  then show ?thesis unfolding connection_start_def sample_peer_def by blast
qed

lemma connection_answered:
  "reach connection_start (connection_step L) (s, h) \<Longrightarrow> auth_keyboard_interactive (ln_gateway L) user response s = (s', r)
   \<Longrightarrow> reach connection_start (connection_step L) (s', seen h s response)"
  by (erule reach_step) (rule connection_step.login)

lemma logged_in_reachable:
  "\<exists>(s :: connection) h. reach connection_start (connection_step still_links) (s, h)
    \<and> gh_authenticated_username s = Some ''bob''
    \<and> gh_pending_target s = Some \<lparr>st_name = ''web'', st_host = ''10.0.0.5''\<rparr>"
proof -
  have one: "0 < length [(''web'', ''10.0.0.5'')]" by simp
  have G: "ln_gateway still_links = still_libs" by simp
  obtain s1 s2 s3 s4 r2 r3 where run:
    "auth_keyboard_interactive still_libs ''bob'' None sample_peer = (s1, Inr password_prompt)"
    "auth_keyboard_interactive still_libs ''bob'' (Some [''pw'']) s1 = (s2, r2)"
    "auth_keyboard_interactive still_libs ''bob'' (Some [''123456'']) s2 = (s3, r3)"
    "auth_keyboard_interactive still_libs ''bob'' (Some [show_nat (Suc 0)]) s3 = (s4, Inr AuthAccept)"
    and s4: "gh_authenticated_username s4 = Some ''bob''"
    "gh_pending_target s4 = Some \<lparr>st_name = fst ([(''web'', ''10.0.0.5'')] ! 0), st_host = snd ([(''web'', ''10.0.0.5'')] ! 0)\<rparr>"
    by (rule login_run [OF still_libs_fit sample_peer_valid sample_answers(1,2) one sample_answers(3)])
      (rule that; assumption)
  note answered = connection_answered [where L = still_links, unfolded G]
  obtain h where "reach connection_start (connection_step still_links) (s4, h)"
    by (rule that [OF answered [OF answered [OF answered [OF answered [OF
        reach_init [where init = connection_start, OF sample_peer_start]]]]]]) (rule run)+
  then show ?thesis using s4 by (intro exI [of _ s4] exI [of _ h]) simp
qed

lemma replaced:
  fixes s :: "'z connection_scheme"
  shows "gh_proxy_session (fst (replace_proxy_session L px s)) = Some px"
proof -
  have "link_frame (\<lambda>_. True) (\<lambda>t :: 'z connection_scheme. gh_proxy_session t = Some px)"
    by (simp add: link_frame_def tracker_frame_def sent_frame_def)
  from keeps_ending(4) [OF this] have "keeps (\<lambda>t. gh_proxy_session t = Some px) (drop_proxy_session L old :: ('z connection_scheme, unit) act)" for old by simp
  then show ?thesis by (cases "gh_proxy_session s") (simp_all add: replace_proxy_session_def keeps_def)
qed

lemma connected_selected:
  fixes s :: "'z connection_scheme"
  assumes "resolve_target_policy s username (st_name target) = Inr policy"
    and connects: "\<And>t :: 'z connection_scheme. tr_disk t = tr_disk s \<Longrightarrow> gw_paths t = gw_paths s \<Longrightarrow> gw_config t = gw_config s
      \<Longrightarrow> \<exists>t' px. connect L username target t = (t', Inr (Inr px))"
  shows "\<exists>px. gh_proxy_session (fst (connect_selected_target L username target s)) = Some px"
proof -
  let ?log = "log_event (ln_gateway L) ''server_selected'' (Some username) (Some (st_name target)) None AuditSuccess None None None"
  obtain s1 :: "'z connection_scheme" where log: "?log s = (s1, Inr ())"
    and same: "tr_disk s1 = tr_disk s" "gw_paths s1 = gw_paths s" "gw_config s1 = gw_config s"
    by (rule that [of "fst (?log s)"]) (simp_all add: log_event_run)
  obtain t px where t: "connect L username target s1 = (t, Inr (Inr px))" using connects [OF same] by blast
  have "resolve_target_policy s1 username (st_name target) = Inr policy"
    using assms(1) same by (simp add: resolve_target_policy_def)
  with log t show ?thesis
    by (simp add: connect_selected_target_def Let_def act_then_def act_bind_def)
      (simp add: log_event_run replaced)
qed

lemma connected_reachable:
  "\<exists>(s :: connection) h px. reach connection_start (connection_step still_links) (s, h) \<and> gh_proxy_session s = Some px"
proof -
  obtain s :: connection and h where s: "reach connection_start (connection_step still_links) (s, h)"
    "gh_authenticated_username s = Some ''bob''" "gh_pending_target s = Some \<lparr>st_name = ''web'', st_host = ''10.0.0.5''\<rparr>"
    using logged_in_reachable by blast
  let ?s = "s\<lparr>tr_disk := sample_key_disk, gw_paths := sample_paths, gw_config := gw_config sample_gateway\<rparr>"
  let ?t = "fst (serve still_links AuthSucceeded ?s)"
  have keys_there: "reach connection_start (connection_step still_links) (?s, h)"
    by (rule reach_step [OF s(1)], rule connection_step.meanwhile)
      (simp_all add: untouched_def sample_gateway_def sample_config_def apply_runtime_overrides_def)
  have "reach connection_start (connection_step still_links) (?t, saw h ?s)"
    by (rule reach_step [OF keys_there], rule connection_step.serving) (rule surjective_pairing)
  moreover have "\<exists>px. gh_proxy_session ?t = Some px"
  proof -
    have "\<exists>pol. resolve_target_policy ?s ''bob'' ''web'' = Inr pol"
      by (simp add: resolve_target_policy_def resolve_effective_authorization_policy_def sample_gateway_def
          apply_runtime_overrides_def sample_config_def sample_user_def hm_get_def sample_paths_def resolve_policy_def
          default_policy_def unwrap_or_def)
    moreover have "\<exists>t' px. connect still_links ''bob'' \<lparr>st_name = ''web'', st_host = ''10.0.0.5''\<rparr> t = (t', Inr (Inr px))"
      if "tr_disk t = tr_disk ?s" "gw_paths t = gw_paths ?s" "gw_config t = gw_config ?s" for t :: connection
      by (rule sample_connects)
        (use that in \<open>simp_all add: still_libs_def sample_gateway_libs_def sample_gateway_def sample_config_def
          apply_runtime_overrides_def\<close>)
    ultimately have "\<exists>px. gh_proxy_session (fst (connect_selected_target still_links ''bob''
        \<lparr>st_name = ''web'', st_host = ''10.0.0.5''\<rparr> ?s)) = Some px"
      by (elim exE, intro connected_selected) simp_all
    then show ?thesis using s by (simp add: auth_succeeded_def)
  qed
  ultimately show ?thesis by blast
qed

lemma no_target_before_login_witness:
  \<comment> \<open>after a login the connection is there\<close>
  "\<exists>s h px. reach connection_start (connection_step still_links) (s, h) \<and> gh_proxy_session s = Some px
    \<and> admitted (gl_auth still_libs) h (px_username px)"
proof -
  obtain s :: connection and h px where s: "reach connection_start (connection_step still_links) (s, h)"
    "gh_proxy_session s = Some px"
    using connected_reachable by blast
  from no_target_before_login [OF s(1)] s show ?thesis by auto
qed

end
