(* ===== verification/Bridge_End.thy ===== *)
theory Bridge_End
  imports Session_Relay
begin

text \<open>
  The end of the bridge tasks (\<^verbatim>\<open>relay_backend_session\<close> and \<^verbatim>\<open>spawn_raw_backend_bridge\<close> of
  \<^verbatim>\<open>src/src/ssh/proxy.rs\<close>): their loops end with the target's channel, also when sends fail.
  \<open>brief\<close> says of an action that it returns and bounds what it sends, with a rule for each
  construct the bridges are made of.
\<close>

definition brief :: "('a \<Rightarrow> nat) \<Rightarrow> ('z session_scheme, 'a) act \<Rightarrow> bool" where
  \<comment> \<open>the action returns, after a number of sends to the client that its result bounds\<close>
  "brief n m \<longleftrightarrow> (\<forall>s. \<exists>s' x. m s = (s', Inr x) \<and> length (gh_sent s') \<le> length (gh_sent s) + n x)"

lemma brief_bind:
  assumes "brief n m" "\<And>x. brief (k x) (f x)" "\<And>x y. n x + k x y \<le> l y"
  shows "brief l (act_bind m f)"
  unfolding brief_def
proof
  fix s
  obtain s1 x where 1: "m s = (s1, Inr x)" "length (gh_sent s1) \<le> length (gh_sent s) + n x"
    using assms(1) unfolding brief_def by blast
  obtain s2 y where 2: "f x s1 = (s2, Inr y)" "length (gh_sent s2) \<le> length (gh_sent s1) + k x y"
    using assms(2) [of x] unfolding brief_def by blast
  show "\<exists>s' x. act_bind m f s = (s', Inr x) \<and> length (gh_sent s') \<le> length (gh_sent s) + l x"
    using 1 2 assms(3) [of x y] by (simp add: act_bind_def)
qed

lemma brief_run:
  assumes "brief n m"
  obtains s' x where "m s = (s', Inr x)" "length (gh_sent s') \<le> length (gh_sent s) + n x"
  using assms unfolding brief_def by blast

lemma brief_return [simp]: "brief n (act_return x)" by (simp add: brief_def)

lemma brief_if: "brief n a \<Longrightarrow> brief n b \<Longrightarrow> brief n (if c then a else b)" by simp

lemma brief_then: "brief (\<lambda>_. n) m \<Longrightarrow> brief k p \<Longrightarrow> (\<And>y. n + k y \<le> l y) \<Longrightarrow> brief l (act_then m p)"
  unfolding act_then_def by (rule brief_bind [of "\<lambda>_. n" m "\<lambda>_. k"]) simp_all

lemma brief_map:
  assumes "brief (\<lambda>_. n) m" "\<And>x. n \<le> l (g x)"
  shows "brief l (act_bind m (\<lambda>x. act_return (g x)))"
  unfolding brief_def
proof
  fix s
  obtain s1 x where 1: "m s = (s1, Inr x)" "length (gh_sent s1) \<le> length (gh_sent s) + n"
    using assms(1) unfolding brief_def by blast
  then show "\<exists>s' y. act_bind m (\<lambda>x. act_return (g x)) s = (s', Inr y)
      \<and> length (gh_sent s') \<le> length (gh_sent s) + l y"
    using assms(2) [of x] by (simp add: act_bind_def)
qed

lemma brief_get: "(\<And>x. brief l (f x)) \<Longrightarrow> brief l (act_bind (act_get g) f)"
  by (rule brief_bind [of "\<lambda>_. 0" _ "\<lambda>_. l"]) (simp_all add: brief_def)

lemma brief_send: "brief (\<lambda>_. 1) (send L m)"
  by (auto simp: brief_def send_def split: option.split)

lemma brief_call: "brief (\<lambda>_. 0) (target_call L h c)"
  by (simp add: brief_def target_call_def)

lemma brief_try_send: "brief (\<lambda>_. 1) (try_send L m)"
  unfolding try_send_def by (rule brief_map [OF brief_send]) simp

lemma brief_send_or: "brief (\<lambda>_. 1) (send_or L m e)"
  unfolding send_or_def by (rule brief_map [OF brief_send]) simp

lemma brief_apply: "brief (\<lambda>_. 1) (apply_backend_session_action L action f)"
  by (cases action) (simp_all add: brief_send_or [simplified])

lemma brief_abort: "brief (\<lambda>_. 1) (abort_proxy_session L reason px)"
  unfolding abort_proxy_session_def
  by (rule brief_then [OF brief_try_send brief_map [OF brief_call, where l = "\<lambda>_. 0"]]) simp_all

lemma brief_activate: "brief (\<lambda>_. 1) (activate_menu_after_disconnect L u f d)"
  unfolding brief_def
  by (auto simp: activate_menu_after_disconnect_def act_bind_def act_then_def send_def Let_def
      split: option.split)

definition turn_sends :: "proxy_session \<times> bool option \<Rightarrow> nat" where
  \<comment> \<open>one message relayed; where the relay ends, also the menu or the disconnection\<close>
  "turn_sends r = (case snd r of None \<Rightarrow> 1 | Some _ \<Rightarrow> 2)"

lemma turn_sends_simps [simp]: "turn_sends (px, None) = 1" "turn_sends (px, Some b) = 2"
  by (simp_all add: turn_sends_def)

lemma brief_end: "brief (\<lambda>_. 1) (end_of_session L f px)" "brief (\<lambda>_. 2) (end_of_session L f px)"
  unfolding end_of_session_def by (rule brief_map [OF brief_activate], simp)+

lemma brief_stop: "brief turn_sends (act_bind (abort_proxy_session L reason px) (\<lambda>px. act_return (px, Some b)))"
  by (rule brief_map [OF brief_abort]) simp

lemma brief_end_turn: "brief turn_sends (end_of_session L f px)"
  unfolding end_of_session_def by (rule brief_map [OF brief_activate]) simp

lemma brief_end_after:
  "brief turn_sends (act_bind (apply_backend_session_action L action f) (\<lambda>r. case r of
      Inl error \<Rightarrow> act_bind (abort_proxy_session L error px) (\<lambda>px. act_return (px, Some True))
    | Inr _ \<Rightarrow> if b then end_of_session L f px else act_return (px, None)))"
proof (rule brief_bind [OF brief_apply, where k = "\<lambda>_ r. case snd r of None \<Rightarrow> 0 | Some _ \<Rightarrow> 1"])
  fix r :: "(string, unit) result"
  show "brief (\<lambda>r. case snd r of None \<Rightarrow> 0 | Some _ \<Rightarrow> 1) (case r of
      Inl error \<Rightarrow> act_bind (abort_proxy_session L error px) (\<lambda>px. act_return (px, Some True))
    | Inr _ \<Rightarrow> if b then end_of_session L f px else act_return (px, None))"
    by (cases r) (auto simp: end_of_session_def intro!: brief_map [OF brief_abort] brief_map [OF brief_activate])
qed (simp add: turn_sends_def split: option.split)

lemma brief_relay_message: "brief turn_sends (relay_message L f message px)"
proof (cases "classify_backend_session_msg (ln_show_message L) message")
  case (Inl reason)
  then show ?thesis
    unfolding relay_message_def by (simp add: brief_stop)
next
  case (Inr action)
  then show ?thesis
    unfolding relay_message_def Let_def sum.case
    by (simp only: sum.case) (intro brief_get brief_if brief_return brief_end_turn brief_end_after)
qed

lemma brief_relay:
  "brief (\<lambda>_. Suc (length messages))
     (relay_backend_session L f messages px :: ('z connection_scheme, proxy_session \<times> bool option) act)"
proof (induction messages arbitrary: px)
  case Nil
  then show ?case using brief_end(1) by simp
next
  case (Cons message messages)
  show ?case
    unfolding relay_backend_session.simps
  proof (rule brief_bind [OF brief_relay_message,
        where k = "\<lambda>r _. case snd r of None \<Rightarrow> Suc (length messages) | Some _ \<Rightarrow> 0"])
    fix r :: "proxy_session \<times> bool option"
    show "brief (\<lambda>_. case snd r of None \<Rightarrow> Suc (length messages) | Some _ \<Rightarrow> 0) ((case r of (px, over) \<Rightarrow>
        case over of None \<Rightarrow> relay_backend_session L f messages px
          | Some close_frontend \<Rightarrow> act_return (px, Some close_frontend))
          :: ('z connection_scheme, proxy_session \<times> bool option) act)"
      using Cons.IH by (cases r) (auto split: option.split)
  qed (auto simp: turn_sends_def split: option.split)
qed

definition ending :: "('s, proxy_session \<times> bool option) act \<Rightarrow> bool" where
  \<comment> \<open>where the action returns, the relay is over\<close>
  "ending m \<longleftrightarrow> (\<forall>s s' px over. m s = (s', Inr (px, over)) \<longrightarrow> over \<noteq> None)"

lemma ending_rules:
  "ending (act_return (px, Some b))"
  "ending m \<Longrightarrow> ending n \<Longrightarrow> ending (if c then m else n)"
  "(\<And>x. ending (f x)) \<Longrightarrow> ending (act_bind k f)"
  by (auto simp: ending_def act_bind_def split: prod.splits sum.splits)

lemma ending_close: "ending (relay_message L f MsgClose px)"
proof -
  have over: "ending (end_of_session L f px)"
    unfolding end_of_session_def by (intro ending_rules)
  have "ending (case r of Inl error \<Rightarrow> act_bind (abort_proxy_session L error px) (\<lambda>px. act_return (px, Some True))
      | Inr _ \<Rightarrow> end_of_session L f px)" for r :: "(string, unit) result"
    by (cases r) (simp_all add: over ending_rules)
  then show ?thesis
    unfolding relay_message_def by simp (intro ending_rules over)
qed

lemma relay_stops_at_close:
  "relay_backend_session L f (ms @ MsgClose # later) px = relay_backend_session L f (ms @ [MsgClose]) px"
proof (induction ms arbitrary: px)
  case Nil
  have "relay_message L f MsgClose px s = (s', Inr (px', over)) \<Longrightarrow> over \<noteq> None" for s s' px' over
    using ending_close unfolding ending_def by blast
  then show ?case by (fastforce simp: act_bind_def split: prod.split sum.split option.split)
next
  case (Cons m ms)
  then show ?case by (simp cong: option.case_cong)
qed

lemma brief_session_bridge:
  "brief (\<lambda>_. length messages + 2)
     (session_bridge L f messages px :: ('z connection_scheme, proxy_session) act)"
  unfolding session_bridge_def
proof (rule brief_bind [OF brief_relay, where k = "\<lambda>_ _. 1"])
  fix r :: "proxy_session \<times> bool option"
  have "brief (\<lambda>_. 1) (act_when b (try_send L (ToClose f)))" for b
    by (cases b) (simp_all add: brief_try_send [simplified])
  from brief_then [OF this brief_return [of "\<lambda>_. 0"], of "\<lambda>_. 1"] show "brief (\<lambda>_. 1) ((case r of (px, close_frontend) \<Rightarrow>
      act_then (act_when (close_frontend = Some True) (try_send L (ToClose f))) (act_return px))
      :: ('z connection_scheme, proxy_session) act)"
    by (cases r) simp
qed simp

lemma brief_report:
  "brief (\<lambda>_. 1) (act_bind (send_or L m e) (\<lambda>r. act_return (case r of
     Inl error \<Rightarrow> (record_error error px, False) | Inr _ \<Rightarrow> (px, True))))"
  by (rule brief_map [OF brief_send_or]) simp

lemma brief_raw_message: "brief (\<lambda>_. 1) (raw_message L f message px)"
  unfolding raw_message_def Let_def
  by (auto split: option.split channel_msg.split
      intro!: brief_report [simplified] brief_then [OF brief_try_send, where k = "\<lambda>_. 0"])

lemma brief_raw:
  "brief (\<lambda>_. Suc (length messages)) (raw_bridge L f messages px :: ('z session_scheme, proxy_session) act)"
proof (induction messages arbitrary: px)
  case Nil
  have "brief (\<lambda>_. 1) (act_bind (raw_message L f None px) (\<lambda>r. act_return (fst r)))"
    by (rule brief_map [OF brief_raw_message]) simp
  then show ?case by (simp add: case_prod_unfold)
next
  case (Cons message messages)
  have "brief (\<lambda>_. Suc (length messages)) ((case r of (px, on) \<Rightarrow>
      if on then raw_bridge L f messages px else act_return px) :: ('z session_scheme, proxy_session) act)"
    for r
    using Cons.IH by (cases r) simp
  from brief_bind [OF brief_raw_message this, of "\<lambda>_. Suc (Suc (length messages))" L f "Some message" px]
  show ?case by simp
qed

lemma raw_stops_at_close:
  "raw_bridge L f (ms @ MsgClose # later) px = raw_bridge L f (ms @ [MsgClose]) px"
proof (induction ms arbitrary: px)
  case Nil
  have "raw_message L f (Some MsgClose) px s = (s', Inr (px', on)) \<Longrightarrow> \<not> on" for s s' px' on
    by (auto simp: raw_message_def act_bind_def act_then_def split: prod.splits sum.splits)
  then show ?case by (fastforce simp: act_bind_def split: prod.split sum.split)
next
  case (Cons m ms)
  then show ?case by (simp cong: if_cong)
qed

text \<open>
  C11: A bridge ends with the target's channel.  Whatever the target sends before it closes the
  channel, and whatever fails on the way, the task that relays the channel comes to its end, takes
  no message after the close, and sends the client at most one message for each it received
  before, and at most three more for a session (the close, the menu or a disconnection) and two
  for a raw channel.
\<close>
theorem bridges_end_at_close:
  "(\<exists>s' px'. session_bridge L f (ms @ MsgClose # later) px s = (s', Inr px')
      \<and> session_bridge L f (ms @ [MsgClose]) px s = (s', Inr px')
      \<and> length (gh_sent s') \<le> length (gh_sent s) + length ms + 3)
   \<and> (\<exists>t' px'. raw_bridge L f (ms @ MsgClose # later) px t = (t', Inr px')
      \<and> raw_bridge L f (ms @ [MsgClose]) px t = (t', Inr px')
      \<and> length (gh_sent t') \<le> length (gh_sent t) + length ms + 2)"
proof
  have "session_bridge L f (ms @ MsgClose # later) px s = session_bridge L f (ms @ [MsgClose]) px s"
    by (simp add: session_bridge_def relay_stops_at_close [of L f ms later])
  moreover obtain s' px' where "session_bridge L f (ms @ [MsgClose]) px s = (s', Inr px')"
    "length (gh_sent s') \<le> length (gh_sent s) + (length (ms @ [MsgClose]) + 2)"
    by (rule brief_run [OF brief_session_bridge [of "ms @ [MsgClose]" L f px]])
  ultimately show "\<exists>s' px'. session_bridge L f (ms @ MsgClose # later) px s = (s', Inr px')
      \<and> session_bridge L f (ms @ [MsgClose]) px s = (s', Inr px')
      \<and> length (gh_sent s') \<le> length (gh_sent s) + length ms + 3" by simp
next
  obtain t' px' where "raw_bridge L f (ms @ [MsgClose]) px t = (t', Inr px')"
    "length (gh_sent t') \<le> length (gh_sent t) + Suc (length (ms @ [MsgClose]))"
    by (rule brief_run [OF brief_raw [of "ms @ [MsgClose]" L f px]])
  then show "\<exists>t' px'. raw_bridge L f (ms @ MsgClose # later) px t = (t', Inr px')
      \<and> raw_bridge L f (ms @ [MsgClose]) px t = (t', Inr px')
      \<and> length (gh_sent t') \<le> length (gh_sent t) + length ms + 2"
    by (simp add: raw_stops_at_close [of L f ms later])
qed

end
