(* ===== verification/Link_Safety.thy ===== *)
theory Link_Safety
  imports Request_Policy
begin

text \<open>
  What a session on a target was established with: the host key known for the host, the user's own
  key, and an offer of key exchanges within the policy.  The law \<open>checks_host_keys\<close> is what
  \<^verbatim>\<open>russh\<close> documents of \<^verbatim>\<open>client::connect\<close>: the connection is refused unless the handler's
  \<^verbatim>\<open>check_server_key\<close> accepts the server's key.
\<close>

definition checks_host_keys :: "('d, 'k, 'h) link_libs \<Rightarrow> bool" where
  "checks_host_keys L \<longleftrightarrow> (\<forall>n config address known exchanges.
     ln_connect L n config address known = (exchanges, Inr ()) \<longrightarrow> (\<exists>key. known key = Inr True))"

definition only_logs :: "('z connection_scheme, unit) act \<Rightarrow> bool" where
  \<comment> \<open>the action returns and leaves the files, the configuration and the links alone\<close>
  "only_logs m \<longleftrightarrow> (\<forall>s. \<exists>s'. m s = (s', Inr ()) \<and> tr_disk s' = tr_disk s \<and> gw_paths s' = gw_paths s
     \<and> cn_links s' = cn_links s \<and> cn_calls s' = cn_calls s)"

lemma only_logs_link: "only_logs (log_link G username target extra event result reason)"
  by (simp add: only_logs_def log_link_def utc_now_def act_bind_def audit_log_def)

lemma only_logs_kex: "only_logs (kex_done L username target kex)"
  unfolding kex_done_def log_kex_negotiated_def by (rule only_logs_link)

lemma only_logs_policy:
  "only_logs (log_kex_policy_applied G username target side offered required fallback)"
  unfolding log_kex_policy_applied_def by (rule only_logs_link)

lemma only_logs_run:
  assumes "only_logs m" "m s = (s', r)"
  shows "r = Inr ()" "tr_disk s' = tr_disk s" "gw_paths s' = gw_paths s" "cn_links s' = cn_links s" "cn_calls s' = cn_calls s"
  using assms unfolding only_logs_def by (metis prod.inject)+

lemma only_logs_then: "only_logs m \<Longrightarrow> only_logs n \<Longrightarrow> only_logs (act_then m n)"
  unfolding only_logs_def act_then_def act_bind_def by (metis (no_types, lifting) case_prod_conv sum.case(2))

lemma only_logs_each: "(\<And>x. only_logs (f x)) \<Longrightarrow> only_logs (each_act f xs)"
proof (induction xs)
  case Nil
  then show ?case by (simp add: only_logs_def)
next
  case (Cons x xs)
  then show ?case by (simp add: only_logs_then)
qed

lemma open_link_ok:
  assumes "open_link L config username target s = (s', Inr (Inr handle))"
  shows "handle = cn_links s \<and> cn_links s' = Suc (cn_links s) \<and> cn_calls s' = cn_calls s \<and> tr_disk s' = tr_disk s
    \<and> (\<exists>exchanges. ln_connect L (cn_links s) config (st_host target @ '':22'')
         (check_server_key L (tr_disk s) (st_host target) (ep_known_hosts_path (gw_paths s))) = (exchanges, Inr ()))"
proof -
  let ?s = "s\<lparr>cn_links := Suc (cn_links s)\<rparr>"
  obtain exchanges outcome where connected: "ln_connect L (cn_links s) config (st_host target @ '':22'')
      (check_server_key L (tr_disk s) (st_host target) (ep_known_hosts_path (gw_paths s))) = (exchanges, outcome)"
    by fastforce
  obtain t r where logged: "each_act (kex_done L username (st_name target)) exchanges ?s = (t, r)" by fastforce
  note same = only_logs_run [OF only_logs_each [OF only_logs_kex] logged]
  have "s' = t \<and> outcome = Inr () \<and> handle = cn_links s"
    using assms connected logged same(1)
    by (cases outcome) (auto simp: open_link_def act_bind_def act_then_def map_err_def)
  with connected same show ?thesis by simp
qed

lemma client_transport_ok:
  assumes "apply_client_transport_config as_ref config policy = (config', Inr summary)"
  obtains names where
    "resolve_preferred_kex (kp_backend_preferred policy) (kp_backend_require_post_quantum policy)
       ''kex_policy.backend_preferred'' ''kex_policy.backend_require_post_quantum'' = Inr names"
    "tc_preferred (ts_crypto config') = preferred_of names"
  using assms
  by (auto simp: apply_client_transport_config_def apply_client_transport_crypto_policy_def
      backend_client_preferred_def keep_alive_def bind_res_def split: sum.splits prod.splits)

lemma resolved_names:
  assumes "resolve_preferred_kex preferred pq f r = Inr names"
  shows "names \<noteq> [] \<and> set names \<subseteq> {k. \<exists>nm \<in> set preferred. kex_of nm = Some k}
    \<and> (pq \<longrightarrow> set names = {KexMlkem768X25519Sha256})"
proof -
  have known: "\<forall>nm\<in>set preferred. kex_of nm \<noteq> None" and some: "names \<noteq> []"
    and names: "names = map (the \<circ> kex_of) (first_occurrences (filter (kex_wanted pq) preferred))"
    using assms unfolding resolve_preferred_kex_iff by blast+
  have image: "set names = (the \<circ> kex_of) ` {nm \<in> set preferred. kex_wanted pq nm}"
    unfolding names by simp
  have "set names \<subseteq> {k. \<exists>nm \<in> set preferred. kex_of nm = Some k}"
    unfolding image using known by force
  moreover have "set names \<subseteq> {KexMlkem768X25519Sha256}" if pq
    unfolding image using that by (auto simp: kex_wanted_def kex_of_def)
  then have "set names = {KexMlkem768X25519Sha256}" if pq
    using that some by (cases names) auto
  ultimately show ?thesis using some by blast
qed


lemma sample_links_check: "checks_host_keys sample_links"
  by (auto simp: checks_host_keys_def sample_links_def split: if_splits)


end
