(* ===== verification/Gateway_App.thy ===== *)
theory Gateway_App
  imports Target_Link Enrollment_Qr
begin

text \<open>
  The program around the components (\<^verbatim>\<open>src/src/main.rs\<close>, \<^verbatim>\<open>src/src/app.rs\<close>,
  \<^verbatim>\<open>src/src/reload/mod.rs\<close> and \<^verbatim>\<open>run_gateway_server\<close> of \<^verbatim>\<open>src/src/ssh/mod.rs\<close>): the start of
  the gateway up to the point where it listens, and the reload on \<^verbatim>\<open>SIGHUP\<close>.  The command line
  parser, the sockets and the SSH server are parameters.
\<close>

subsection \<open>Logging\<close>

datatype log_format = LogCompact | LogJson | LogSystemd

definition log_format_from_env :: "'d gateway_libs \<Rightarrow> log_format" where
  "log_format_from_env G =
     (let fallback = (if gl_var G ''JOURNAL_STREAM'' \<noteq> None then LogSystemd else LogCompact) in
      case env_text G ''CENTRALSSH_LOG_FORMAT'' of
        None \<Rightarrow> fallback
      | Some v \<Rightarrow>
          (let v = to_ascii_lowercase (trim v) in
           if v = ''compact'' then LogCompact
           else if v = ''json'' then LogJson
           else if v = ''systemd'' \<or> v = ''journal'' then LogSystemd
           else fallback))"

definition log_format_text :: "log_format \<Rightarrow> string" where
  "log_format_text f = (case f of LogCompact \<Rightarrow> ''compact'' | LogJson \<Rightarrow> ''json'' | LogSystemd \<Rightarrow> ''systemd'')"

subsection \<open>The command line\<close>

record cli =
  cli_listen :: string
  cli_version_flag :: bool
  cli_config :: "path_buf option"
  cli_servers :: "path_buf option"
  cli_known_hosts :: "path_buf option"
  cli_user_key_root :: "path_buf option"
  cli_audit_log :: "path_buf option"
  cli_whitelist :: "path_buf option"
  cli_per_user_per_server :: "bool option"
  cli_drop_to_menu :: "bool option"
  cli_hide_proxy_ip :: "bool option"
  cli_enforce_strict_security :: bool

definition default_listen :: string where "default_listen = ''0.0.0.0:7788''"

subsection \<open>Listen addresses\<close>

definition read_char :: "char \<Rightarrow> unit parser" where
  "read_char c s = (case s of [] \<Rightarrow> None | d # t \<Rightarrow> if d = c then Some ((), t) else None)"

definition read_port :: "nat parser" where
  "read_port s = Option.bind (read_char CHR '':'' s) (\<lambda>(_, t). read_number 10 (length t) True 65536 t)"

definition read_scope_id :: "string \<Rightarrow> nat \<times> string" where
  \<comment> \<open>optional: zero where it is missing\<close>
  "read_scope_id s = unwrap_or (0, s)
     (Option.bind (read_char CHR ''%'' s) (\<lambda>(_, t). read_number 10 (length t) True (2 ^ 32) t))"

definition parse_socket_addr :: "string \<Rightarrow> (ip_addr \<times> nat \<times> nat) option" where
  \<comment> \<open>\<^verbatim>\<open>str::parse::<SocketAddr>\<close>: address, port and scope\<close>
  "parse_socket_addr s =
     (case (case Option.bind (read_ipv4 s) (\<lambda>(os, t). map_option (Pair os) (read_port t)) of
              Some (os, port, t) \<Rightarrow> Some ((V4 (map word_of_nat os), port, 0), t)
            | None \<Rightarrow>
                Option.bind (read_char CHR ''['' s) (\<lambda>(_, t).
                Option.bind (read_ipv6 t) (\<lambda>(gs, t).
                let (scope, t) = read_scope_id t in
                Option.bind (read_char CHR '']'' t) (\<lambda>(_, t).
                map_option (\<lambda>(port, t). ((V6 (map word_of_nat gs), port, scope), t)) (read_port t))))) of
        Some (address, []) \<Rightarrow> Some address
      | _ \<Rightarrow> None)"

subsection \<open>Parameters\<close>

record 'k server_config =
  sv_methods :: "string list"
  sv_auth_rejection_time :: duration
  sv_transport :: transport_settings
  sv_keys :: "'k list"

record ('d, 'k) app_libs =
  ap_gateway :: "'d gateway_libs"
  ap_keys :: "'k key_libs"
  ap_install_signal :: "string + unit"                      \<comment> \<open>\<^verbatim>\<open>tokio::signal::unix::signal\<close>\<close>
  ap_probe :: "string \<Rightarrow> string + unit"                     \<comment> \<open>\<^verbatim>\<open>TcpListener::bind\<close>\<close>
  ap_server_default :: transport_settings                   \<comment> \<open>\<^verbatim>\<open>server::Config::default()\<close>\<close>
  ap_load_secret_key :: "disk \<Rightarrow> path_buf \<Rightarrow> string + 'k"
  ap_run_on_address :: "'k server_config \<Rightarrow> ip_addr \<times> nat \<times> nat \<Rightarrow> string + unit"

subsection \<open>Bootstrap\<close>

record bootstrap_report =
  bs_migrated_passwords :: nat
  bs_created_user_dirs :: nat
  bs_created_server_dirs :: nat
  bs_created_private_keys :: nat
  bs_created_public_keys :: nat

definition bootstrap ::
  "'d gateway_libs \<Rightarrow> 'k key_libs \<Rightarrow> ('z gateway_scheme, bootstrap_report gw_result) act" where
  "bootstrap G K =
     act_try (migrate_bootstrap_passwords G) (\<lambda>migrated_passwords.
     act_bind (act_get (\<lambda>s. (gw_paths s, rt_config (gw_config s)))) (\<lambda>(paths, config).
     act_try (on_disk (ensure_private_keys_for_config_users K (ep_user_key_root paths) config
         (ep_per_user_per_server paths))) (\<lambda>key_report.
     act_return (Inr \<lparr>bs_migrated_passwords = migrated_passwords,
       bs_created_user_dirs = kr_created_user_dirs key_report,
       bs_created_server_dirs = kr_created_server_dirs key_report,
       bs_created_private_keys = kr_created_private_keys key_report,
       bs_created_public_keys = kr_created_public_keys key_report\<rparr>))))"

definition host_key_path_from_config_dir :: "path_buf \<Rightarrow> path_buf" where
  "host_key_path_from_config_dir config_path =
     path_push (unwrap_or ''/etc/centralssh'' (path_parent config_path)) ''host_ed25519''"

subsection \<open>The server\<close>

definition auth_rejection_delay :: duration where "auth_rejection_delay = 150 * 10 ^ 6"

definition frontend_event :: "int \<Rightarrow> kex_policy_summary \<Rightarrow> audit_event" where
  "frontend_event now summary =
     (system_event now ''frontend_kex_policy_loaded'' AuditSuccess
        (Some ''frontend negotiated KEX audit is not exposed by the current russh server handler API''))
       \<lparr>ev_transport_side := Some ''frontend'',
        ev_kex_algorithms_offered := Some (ks_offered_algorithms summary),
        ev_post_quantum := Some (\<not> ks_classical_fallback summary),
        ev_classical_fallback := Some (ks_classical_fallback summary),
        ev_pq_required := Some (ks_require_post_quantum summary)\<rparr>"

definition prepare_server ::
  "('d, 'k) app_libs \<Rightarrow> nat \<Rightarrow> string \<Rightarrow> path_buf \<Rightarrow> bool
   \<Rightarrow> ('z gateway_scheme, ('k server_config \<times> ip_addr \<times> nat \<times> nat) gw_result) act" where
  \<comment> \<open>\<^verbatim>\<open>run_gateway_server\<close> up to the call that listens\<close>
  "prepare_server L draw listen_addr host_key_path strict_security =
     act_bind (act_get (\<lambda>s. cf_kex_policy (rt_config (gw_config s)))) (\<lambda>frontend_kex_policy.
     act_try (on_disk (ensure_server_host_key (ap_keys L) draw host_key_path)) (\<lambda>_.
     act_try (act_get (\<lambda>s. if strict_security
         then validate_host_key_security (gl_os (ap_gateway L)) (tr_disk s) host_key_path else Inr ())) (\<lambda>_.
     case apply_server_transport_config (gl_kex (ap_gateway L)) (ap_server_default L) frontend_kex_policy of
       (_, Inl error) \<Rightarrow> act_return (Inl error)
     | (transport, Inr summary) \<Rightarrow>
         act_try (act_get (\<lambda>s. map_err (\<lambda>error. Ssh (''failed to load host key: '' @ error))
             (ap_load_secret_key L (tr_disk s) host_key_path))) (\<lambda>host_key.
         act_bind (utc_now (gl_tracker (ap_gateway L))) (\<lambda>now.
         act_then (audit_log (frontend_event now summary))
           (act_return (case parse_socket_addr listen_addr of
              None \<Rightarrow> Inl (InvalidConfig (''invalid listen address '' @ sq listen_addr
                @ '': invalid socket address syntax''))
            | Some listen_socket \<Rightarrow> Inr (\<lparr>sv_methods = [''keyboard-interactive''],
                sv_auth_rejection_time = auth_rejection_delay, sv_transport = transport,
                sv_keys = [host_key]\<rparr>, listen_socket))))))))"

definition run_gateway_server ::
  "('d, 'k) app_libs \<Rightarrow> nat \<Rightarrow> string \<Rightarrow> path_buf \<Rightarrow> bool \<Rightarrow> ('z gateway_scheme, unit gw_result) act" where
  \<comment> \<open>the clients' connections are the subject of the other theories\<close>
  "run_gateway_server L draw listen_addr host_key_path strict_security =
     act_try (prepare_server L draw listen_addr host_key_path strict_security) (\<lambda>(config, listen_socket).
     act_return (map_err Ssh (ap_run_on_address L config listen_socket)))"

subsection \<open>The start\<close>

definition dummy_password :: string where "dummy_password = ''centralssh-dummy-password''"

definition auth_engine_new :: "'d gateway_libs \<Rightarrow> ('z gateway_scheme, 'd gateway_libs gw_result) act" where
  \<comment> \<open>empty limiters; the engine's dummy hash is the one the later calls use\<close>
  "auth_engine_new G =
     act_bind (act_get gw_draws) (\<lambda>salt.
     act_then (act_modify (\<lambda>s. s\<lparr>gw_draws := Suc salt,
         gw_limiter := \<lparr>rl_rate_limits = [], rl_ip_rate_limits = []\<rparr>\<rparr>))
       (act_return (map_sum id (\<lambda>dummy_hash. G\<lparr>gl_dummy_hash := dummy_hash\<rparr>)
          (hash_password (gl_auth G) salt dummy_password))))"

definition effective_cli_paths :: "cli \<Rightarrow> config_file \<Rightarrow> effective_paths" where
  "effective_cli_paths cli seed_config =
     resolve_paths (Some (unwrap_or default_config_path (cli_config cli))) (cli_servers cli)
       (cli_known_hosts cli) (cli_user_key_root cli) (cli_audit_log cli) (cli_whitelist cli)
       (cli_per_user_per_server cli) (cli_drop_to_menu cli) (cli_hide_proxy_ip cli)
       (Some (cf_settings seed_config))"

definition set_up ::
  "('d, 'k) app_libs \<Rightarrow> cli \<Rightarrow> ('z gateway_scheme, ('d gateway_libs \<times> effective_paths \<times> bootstrap_report) gw_result) act" where
  \<comment> \<open>\<^verbatim>\<open>run\<close> up to the report of the bootstrap\<close>
  "set_up L cli =
     act_try (act_get (\<lambda>s. load_config_file (ap_gateway L) (tr_disk s)
         (unwrap_or default_config_path (cli_config cli)))) (\<lambda>seed_config.
     let paths = effective_cli_paths cli seed_config;
         strict = cli_enforce_strict_security cli in
     act_try (on_disk (ensure_user_key_root_directory (ap_keys L) (ep_user_key_root paths))) (\<lambda>_.
     act_try (config_store_load (ap_gateway L) paths strict) (\<lambda>_.
     act_try (auth_engine_new (ap_gateway L)) (\<lambda>G.
     act_try (on_disk (audit_logger_new (gl_os G) (ep_audit_log_path paths) strict)) (\<lambda>_.
     act_try (act_bind (act_get (\<lambda>s. rt_config (gw_config s))) (from_config (gl_tracker G))) (\<lambda>_.
     act_try (act_return (map_err (Io \<circ> IoOther) (ap_install_signal L))) (\<lambda>_.
     act_try (bootstrap G (ap_keys L)) (\<lambda>report.
     act_return (Inr (G, paths, report))))))))))"

definition before_server ::
  "('d, 'k) app_libs \<Rightarrow> cli \<Rightarrow> ('z gateway_scheme, ('d gateway_libs \<times> effective_paths \<times> bootstrap_report) gw_result) act" where
  \<comment> \<open>with the probe of the listen address\<close>
  "before_server L cli =
     act_try (set_up L cli) (\<lambda>(G, paths, report).
     act_try (act_return (map_err (Io \<circ> IoOther) (ap_probe L (cli_listen cli)))) (\<lambda>_.
     act_return (Inr (G, paths, report))))"

definition run_app :: "('d, 'k) app_libs \<Rightarrow> cli \<Rightarrow> ('z gateway_scheme, unit gw_result) act" where
  \<comment> \<open>\<^verbatim>\<open>run\<close>; the flag only prints the version\<close>
  "run_app L cli =
     (if cli_version_flag cli then act_return (Inr ())
      else act_try (before_server L cli) (\<lambda>(G, paths, report).
        run_gateway_server (L\<lparr>ap_gateway := G\<rparr>) (bs_created_private_keys report) (cli_listen cli)
          (host_key_path_from_config_dir (ep_config_path paths)) (cli_enforce_strict_security cli)))"

definition exit_code :: "unit gw_result \<Rightarrow> nat \<times> string" where
  \<comment> \<open>\<^verbatim>\<open>main\<close>: the code and what goes to standard error\<close>
  "exit_code r = (case r of Inr _ \<Rightarrow> (0, []) | Inl error \<Rightarrow> (1, ''centralssh error: '' @ display_error error @ newline))"

subsection \<open>Reloading\<close>

definition reload_apply :: "'d gateway_libs \<Rightarrow> bool \<Rightarrow> ('z gateway_scheme, unit gw_result) act" where
  \<comment> \<open>the first half of the loop's body; a failed reload of the tracker is only printed\<close>
  "reload_apply G strict_security =
     act_bind (config_store_reload G strict_security) (\<lambda>result.
     act_then (act_when (is_ok result)
         (act_bind (act_get (\<lambda>s. rt_config (gw_config s))) (\<lambda>config.
          act_bind (reload_from_config (gl_tracker G) config) (\<lambda>_. act_return ()))))
       (act_return result))"

definition reload_report :: "'d gateway_libs \<Rightarrow> unit gw_result \<Rightarrow> ('z gateway_scheme, unit) act" where
  \<comment> \<open>the second half\<close>
  "reload_report G result =
     act_bind (utc_now (gl_tracker G)) (\<lambda>now. audit_log (system_event now ''config_reload''
       (if is_ok result then AuditSuccess else AuditFailure)
       (case result of Inl error \<Rightarrow> Some (display_error error) | Inr _ \<Rightarrow> None)))"

definition reload_turn :: "'d gateway_libs \<Rightarrow> bool \<Rightarrow> ('z gateway_scheme, unit) act" where
  \<comment> \<open>one turn of \<^verbatim>\<open>reload_on_signal_loop\<close> once it is notified\<close>
  "reload_turn G strict_security = act_bind (reload_apply G strict_security) (reload_report G)"


subsection \<open>Reloads are reported\<close>

lemma restore_total:
  assumes "chrono_fits (tl_chrono T) (fs_find_time st)"
  shows "\<exists>core. foldl (restore_entry T now st) (Some m) ps = Some core"
proof (induction ps arbitrary: m)
  case (Cons p ps)
  obtain raw e where p: "p = (raw, e)" by (cases p)
  have "\<exists>m'. restore_entry T now st (Some m) p = Some m'"
    using p by (cases "parse_ip raw") (auto simp: restore_entry_def prune_failures_fits [OF assms] Let_def)
  then show ?case using Cons.IH by auto
qed simp

lemma load_returns:
  fixes s :: "'z tracker_scheme"
  assumes "chrono_fits (tl_chrono T) (fs_find_time st)"
  shows "\<exists>core n errors. load_persisted_state T st s
    = (s\<lparr>tr_core := core, tr_readings := n, tr_audit := tr_audit s @ errors\<rparr>, Inr ())"
proof (cases "fs_persist_state st")
  case False
  then have "load_persisted_state T st s = (s\<lparr>tr_core := tr_core s, tr_readings := tr_readings s, tr_audit := tr_audit s @ []\<rparr>, Inr ())"
    by (simp add: load_persisted_state_def)
  then show ?thesis by blast
next
  case True
  have failed: "\<exists>core n errors. act_bind (act_return (Inl e)) (\<lambda>r. case r of Inr entries \<Rightarrow> act_modify (\<lambda>s. s\<lparr>tr_core := entries\<rparr>)
      | Inl error \<Rightarrow> log_system_error T ''fail2ban_state_load'' error) s
    = (s\<lparr>tr_core := core, tr_readings := n, tr_audit := tr_audit s @ errors\<rparr>, Inr ())" for e
  proof -
    let ?ev = "system_event (tl_utc T (tr_readings s)) ''fail2ban_state_load'' AuditError (Some (display_error e))"
    show ?thesis
      by (rule exI [of _ "tr_core s"], rule exI [of _ "Suc (tr_readings s)"], rule exI [of _ "[?ev]"])
        (simp add: log_system_error_def utc_now_def act_bind_def audit_log_def)
  qed
  show ?thesis
  proof (cases "os_read (tl_os T) (tr_disk s) (fs_state_path st)")
    case (Inl e)
    show ?thesis
    proof (cases e)
      case (IoNotFound m)
      then show ?thesis using Inl True
        by (intro exI [of _ "[]"] exI [of _ "tr_readings s"])
          (simp add: load_persisted_state_def read_state_file_def act_bind_def)
    next
      case (IoOther m)
      then show ?thesis using Inl True failed [of "Io e"]
        by (simp add: load_persisted_state_def read_state_file_def act_bind_def)
    qed
  next
    case (Inr bytes)
    show ?thesis
    proof (cases "tl_decode T bytes")
      case (Inl e)
      then show ?thesis using Inr True failed [of "Serde e"]
        by (simp add: load_persisted_state_def read_state_file_def act_bind_def)
    next
      case ok: (Inr ps)
      obtain core where "foldl (restore_entry T (tl_utc T (tr_readings s)) st) (Some []) ps = Some core"
        using restore_total [OF assms] by blast
      then show ?thesis using Inr ok True
        by (intro exI [of _ core] exI [of _ "Suc (tr_readings s)"] exI [of _ "[]"])
          (simp add: load_persisted_state_def read_state_file_def act_bind_def utc_now_def)
    qed
  qed
qed


definition effective_settings :: "'d gateway_libs \<Rightarrow> disk \<Rightarrow> config_file \<Rightarrow> fail2ban_settings gw_result" where
  \<comment> \<open>the tracker's settings of a configuration\<close>
  "effective_settings G d config = effective (tl_net (gl_tracker G)) (os_read (gl_os G) d)
     (unwrap_or default_fail2ban_config (cf_fail2ban config)) (sc_whitelist_path (cf_settings config))"

lemma tracker_reload_run:
  fixes s :: "'z gateway_scheme"
  assumes fits: "\<And>d. chrono_fits (tl_chrono (gl_tracker G)) d"
  shows "\<exists>before core n settings r. reload_from_config (gl_tracker G) config s
      = (s\<lparr>tr_settings := settings, tr_core := core, tr_readings := n, tr_audit := tr_audit s @ before\<rparr>, Inr r)
    \<and> (\<forall>settings'. effective_settings G (tr_disk s) config = Inr settings' \<longrightarrow> settings = settings')"
proof (cases "effective_settings G (tr_disk s) config")
  case (Inl e)
  then show ?thesis
    by (intro exI [of _ "[]"] exI [of _ "tr_core s"] exI [of _ "tr_readings s"] exI [of _ "tr_settings s"] exI [of _ "Inl e"])
      (simp add: reload_from_config_def effective_settings_def)
next
  case (Inr st)
  obtain core n errors where "load_persisted_state (gl_tracker G) st (s\<lparr>tr_settings := st\<rparr>)
      = (s\<lparr>tr_settings := st, tr_core := core, tr_readings := n, tr_audit := tr_audit s @ errors\<rparr>, Inr ())"
    using load_returns [OF fits, of st "s\<lparr>tr_settings := st\<rparr>"] by auto
  then show ?thesis using Inr
    by (intro exI [of _ errors] exI [of _ core] exI [of _ n] exI [of _ st] exI [of _ "Inr ()"])
      (simp add: reload_from_config_def effective_settings_def act_then_def act_bind_def)
qed



text \<open>
  Without a \<^verbatim>\<open>fail2ban\<close> section validation does not look at the whitelist, but the tracker does:
  a reload whose whitelist cannot be used is reported as a success, with the old settings kept.
\<close>
lemma reload_success_without_whitelist:
  assumes "\<And>d. chrono_fits (tl_chrono (gl_tracker G)) d"
    and read: "read_store G (tr_disk s) (gw_paths s) strict = Inr (config, servers)"
    and bad: "effective_settings G (tr_disk s) config = Inl e"
  shows "\<exists>s' now before. reload_turn G strict s = (s', Inr ()) \<and> tr_settings s' = tr_settings s
    \<and> rt_config (gw_config s') = config
    \<and> tr_audit s' = before @ [system_event now ''config_reload'' AuditSuccess None]"
proof -
  have "reload_from_config (gl_tracker G) config t = (t, Inr (Inl e))" if "tr_disk t = tr_disk s" for t :: "'b gateway_scheme"
    using bad that by (simp add: reload_from_config_def effective_settings_def)
  then show ?thesis using read
    by (simp add: reload_turn_def reload_apply_def reload_report_def act_then_def act_bind_def reload_run is_ok_def
        utc_now_def audit_log_def) blast
qed

subsection \<open>The signal\<close>

datatype reload_phase = Waiting | Notified | Reporting "unit gw_result" | ReloadDead

definition notify_waiters :: "reload_phase \<Rightarrow> reload_phase" where
  \<comment> \<open>documented: wakes the tasks that wait now and stores nothing for later ones\<close>
  "notify_waiters phase = (if phase = Waiting then Notified else phase)"

datatype reload_event = Hangup | Edit disk | Turn

fun reload_machine ::
  "'d gateway_libs \<Rightarrow> bool \<Rightarrow> reload_phase \<times> 'z gateway_scheme \<Rightarrow> reload_event \<Rightarrow> reload_phase \<times> 'z gateway_scheme" where
  \<comment> \<open>the task of \<^verbatim>\<open>install_sighup_reload_notifier\<close>, the operator, and the reload loop\<close>
  "reload_machine G strict (phase, s) Hangup = (notify_waiters phase, s)"
| "reload_machine G strict (phase, s) (Edit d) = (phase, s\<lparr>tr_disk := d\<rparr>)"
| "reload_machine G strict (phase, s) Turn = (case phase of
     Waiting \<Rightarrow> (Waiting, s)
   | Notified \<Rightarrow> (case reload_apply G strict s of
        (s', Inr r) \<Rightarrow> (Reporting r, s') | (s', Inl _) \<Rightarrow> (ReloadDead, s'))
   | Reporting r \<Rightarrow> (Waiting, fst (reload_report G r s))
   | ReloadDead \<Rightarrow> (ReloadDead, s))"

text \<open>
  A signal that arrives while a reload is being reported is lost: what the operator changed since
  the files were read is not loaded, however long one waits.
\<close>
lemma hangup_during_reload_lost:
  fixes s :: "'b gateway_scheme"
  assumes "foldl (reload_machine G strict) (Reporting r, s) ([Edit d, Hangup] @ replicate (Suc n) Turn) = (phase, s')"
  shows "phase = Waiting \<and> gw_config s' = gw_config s \<and> tr_disk s' = d"
proof -
  have idle: "foldl (reload_machine G strict) (Waiting, t) (replicate n Turn) = (Waiting, t)" for t :: "'b gateway_scheme" and n
    by (induction n) simp_all
  show ?thesis
    using assms idle
    by (auto simp: notify_waiters_def reload_report_def utc_now_def act_bind_def audit_log_def)
qed

lemma reload_apply_returns:
  fixes s :: "'z gateway_scheme"
  assumes fits: "\<And>d. chrono_fits (tl_chrono (gl_tracker G)) d"
  shows "\<exists>s' r. reload_apply G strict s = (s', Inr r)"
proof -
  obtain s1 result where run: "config_store_reload G strict s = (s1, Inr result)"
    by (cases "read_store G (tr_disk s) (gw_paths s) strict") (auto simp: reload_run)
  have "\<exists>t r. reload_from_config (gl_tracker G) (rt_config (gw_config s1)) s1 = (t, Inr r)"
    using tracker_reload_run [OF fits, where s = s1] by metis
  then show ?thesis
    by (cases "is_ok result") (auto simp: reload_apply_def act_then_def act_bind_def run)
qed

lemma hangup_while_waiting_reloads:
  assumes "\<And>d. chrono_fits (tl_chrono (gl_tracker G)) d"
  shows "foldl (reload_machine G strict) (Waiting, s) [Hangup, Edit d, Turn, Turn]
    = (Waiting, fst (reload_turn G strict (s\<lparr>tr_disk := d\<rparr>)))"
proof -
  obtain s1 r where apply_run: "reload_apply G strict (s\<lparr>tr_disk := d\<rparr>) = (s1, Inr r)"
    using reload_apply_returns [OF assms] by blast
  then show ?thesis by (simp add: notify_waiters_def reload_turn_def act_bind_def)
qed


subsection \<open>What holds when the gateway listens\<close>

lemma act_try_ok:
  assumes "act_try m f s = (s', Inr (Inr y))"
  obtains s1 x where "m s = (s1, Inr (Inr x))" "f x s1 = (s', Inr (Inr y))"
  using assms by (auto simp: act_try_def act_bind_def split: prod.splits sum.splits)

lemma on_disk_ok:
  assumes "on_disk prog s = (s', Inr (Inr y))"
  obtains d where "prog (tr_disk s) = (d, Inr y)" "s' = s\<lparr>tr_disk := d\<rparr>"
  using assms by (auto simp: on_disk_def split: prod.splits)

lemma store_loaded:
  assumes "config_store_load G paths strict s = (s', Inr (Inr u))"
  obtains config servers where "read_store G (tr_disk s) paths strict = Inr (config, servers)"
    "s' = s\<lparr>tr_readings := Suc (tr_readings s), gw_paths := paths,
       gw_config := \<lparr>rt_config = config, rt_servers = servers, rt_loaded_at = tl_utc (gl_tracker G) (tr_readings s)\<rparr>\<rparr>"
  using assms by (auto simp: config_store_load_def utc_now_def act_bind_def split: sum.splits)

lemma engine_made:
  assumes "auth_engine_new G s = (s', Inr (Inr G'))"
  obtains hash where "G' = G\<lparr>gl_dummy_hash := hash\<rparr>"
    "s' = s\<lparr>gw_draws := Suc (gw_draws s), gw_limiter := \<lparr>rl_rate_limits = [], rl_ip_rate_limits = []\<rparr>\<rparr>"
  using assms
  by (cases "hash_password (gl_auth G) (gw_draws s) dummy_password") (auto simp: auth_engine_new_def)

lemma tracker_made:
  fixes s :: "'z gateway_scheme"
  assumes "from_config (gl_tracker G) config s = (s', Inr (Inr u))"
  shows "effective_settings G (tr_disk s) config = Inr (tr_settings s') \<and> gw_config s' = gw_config s
    \<and> gw_paths s' = gw_paths s"
proof -
  obtain st where st: "effective_settings G (tr_disk s) config = Inr st"
    using assms by (auto simp: from_config_def effective_settings_def split: sum.splits)
  then have run: "act_then (load_persisted_state (gl_tracker G) st) (act_return (Inr ())) (s\<lparr>tr_settings := st, tr_core := []\<rparr>)
      = (s', Inr (Inr () :: unit gw_result))"
    using assms by (simp add: from_config_def effective_settings_def)
  have "tracker_frame (\<lambda>t :: 'z gateway_scheme. tr_settings t = st \<and> gw_config t = gw_config s \<and> gw_paths t = gw_paths s)"
    by (simp add: tracker_frame_def)
  then have "keeps (\<lambda>t. tr_settings t = st \<and> gw_config t = gw_config s \<and> gw_paths t = gw_paths s)
      (act_then (load_persisted_state (gl_tracker G) st) (act_return (Inr ())) :: ('z gateway_scheme, unit gw_result) act)"
    by (intro keeps_intros)
  from keeps_run [OF this _ run] st show ?thesis by simp
qed

lemma passwords_migrated:
  fixes s :: "'z gateway_scheme"
  assumes "migrate_bootstrap_passwords G s = (s', Inr (Inr n))"
  shows "\<exists>users. list_all2 (hashed_from (gl_auth G)) (gw_users s) users \<and> gw_paths s' = gw_paths s
    \<and> tr_settings s' = tr_settings s
    \<and> gw_config s' = (gw_config s)\<lparr>rt_config := (rt_config (gw_config s))\<lparr>cf_users := users\<rparr>\<rparr>"
proof -
  obtain doc us draws doc' where us: "migrate_users G (gw_draws s) doc (gw_users s) = (us, draws, Inr (doc', n))"
    and rest: "(if 0 < n then act_bind (save_document G doc') (\<lambda>r. act_return (bind_res r (\<lambda>_. Inr n)))
        else act_return (Inr n)) ((set_users us s)\<lparr>gw_draws := draws\<rparr>) = (s', Inr (Inr n))"
    using assms
    by (auto simp: migrate_bootstrap_passwords_def act_then_def act_bind_def [of "act_get _"] act_bind_def [of "act_modify _"]
        save_document_run act_bind_def Let_def split: sum.splits prod.splits if_splits)
  have "gw_config s' = gw_config (set_users us s)" "gw_paths s' = gw_paths s" "tr_settings s' = tr_settings s"
    using rest by (auto simp: act_bind_def save_document_run Let_def set_users_def split: if_splits prod.splits)
  then show ?thesis using migrate_users_ok [OF us]
    by (intro exI [of _ us]) (simp add: set_users_def)
qed


lemma bootstrapped:
  fixes s :: "'z gateway_scheme"
  assumes K: "create_laws K" and run: "bootstrap G K s = (s', Inr (Inr report))"
  shows "\<exists>users. list_all2 (hashed_from (gl_auth G)) (gw_users s) users \<and> gw_paths s' = gw_paths s
    \<and> tr_settings s' = tr_settings s
    \<and> gw_config s' = (gw_config s)\<lparr>rt_config := (rt_config (gw_config s))\<lparr>cf_users := users\<rparr>\<rparr>
    \<and> (\<forall>u \<in> set users. \<forall>k \<in> set (key_dirs_of (ep_user_key_root (gw_paths s)) (ep_per_user_per_server (gw_paths s)) u).
         keypair_at (tr_disk s') k)"
proof -
  obtain s1 n where s1: "migrate_bootstrap_passwords G s = (s1, Inr (Inr n))"
    and rest: "act_try (on_disk (ensure_private_keys_for_config_users K (ep_user_key_root (gw_paths s1))
        (rt_config (gw_config s1)) (ep_per_user_per_server (gw_paths s1)))) (\<lambda>key_report. act_return (Inr
          \<lparr>bs_migrated_passwords = n, bs_created_user_dirs = kr_created_user_dirs key_report,
           bs_created_server_dirs = kr_created_server_dirs key_report,
           bs_created_private_keys = kr_created_private_keys key_report,
           bs_created_public_keys = kr_created_public_keys key_report\<rparr>)) s1 = (s', Inr (Inr report))"
    using run unfolding bootstrap_def by (elim act_try_ok) simp
  from rest obtain d kr where d: "ensure_private_keys_for_config_users K (ep_user_key_root (gw_paths s1))
      (rt_config (gw_config s1)) (ep_per_user_per_server (gw_paths s1)) (tr_disk s1) = (d, Inr kr)" "s' = s1\<lparr>tr_disk := d\<rparr>"
    by (elim act_try_ok on_disk_ok) simp
  from d(1) obtain d1 b where "ensure_user_keys K (ep_user_key_root (gw_paths s1)) (ep_per_user_per_server (gw_paths s1))
      (gw_users s1) \<lparr>kr_created_user_dirs = 0, kr_created_server_dirs = 0, kr_created_private_keys = 0,
        kr_created_public_keys = 0\<rparr> d1 = (d, Inr b)"
    unfolding ensure_private_keys_for_config_users_def by (blast dest: bind_success)
  from user_keys_made [OF K this] passwords_migrated [OF s1] d(2) show ?thesis by auto
qed

lemma present_create_new:
  assumes K: "create_laws K" shows "present p (prog_call (os_create_new (kl_os K) q m))"
  unfolding present_def
proof (intro allI impI)
  fix d d' x assume there: "d p \<noteq> None" and "prog_call (os_create_new (kl_os K) q m) d = (d', Inr x)"
  then have run: "os_create_new (kl_os K) q m d = (d', Inr x)" by (auto dest: call_success)
  show "d' p \<noteq> None"
  proof (cases "p = q")
    case True
    with there obtain n where "d q = Some n" by blast
    then show ?thesis using create_lawsD(7) [OF K, of d q n m] run by (simp add: is_ok_def)
  next
    case False
    then show ?thesis using create_lawsD(1) [OF K, of q d m] run there by (simp add: only_at_def)
  qed
qed

lemma host_key_present:
  assumes K: "create_laws K" shows "present p (ensure_server_host_key K draw path)"
  unfolding ensure_server_host_key_def prog_seq_simps
  by (intro present_bind; simp split: option.split add: present_keeps existing_intros; (intro conjI impI allI)?;
    (rule present_bind present_calls [OF K] present_create_new [OF K] present_keeps [OF keeps_existing_dir_all [OF K]]
      present_keeps [OF keeps_existing_basic(1)] present_keeps [OF keeps_existing_basic(2)])+)

lemma server_prepared:
  fixes s :: "'z gateway_scheme"
  assumes K: "create_laws (ap_keys L)"
    and run: "prepare_server L draw listen path strict s = (s', Inr (Inr (config, socket)))"
  shows "gw_config s' = gw_config s \<and> gw_paths s' = gw_paths s \<and> tr_settings s' = tr_settings s
    \<and> (\<forall>p. tr_disk s p \<noteq> None \<longrightarrow> tr_disk s' p \<noteq> None)
    \<and> (strict \<longrightarrow> validate_host_key_security (gl_os (ap_gateway L)) (tr_disk s') path = Inr ())
    \<and> sv_methods config = [''keyboard-interactive'']
    \<and> (\<exists>key. sv_keys config = [key] \<and> ap_load_secret_key L (tr_disk s') path = Inr key)
    \<and> (\<exists>summary now before. apply_server_transport_config (gl_kex (ap_gateway L)) (ap_server_default L)
          (cf_kex_policy (rt_config (gw_config s))) = (sv_transport config, Inr summary)
        \<and> tr_audit s' = before @ [frontend_event now summary])
    \<and> parse_socket_addr listen = Some socket"
proof -
  obtain s1 u where s1: "on_disk (ensure_server_host_key (ap_keys L) draw path) s = (s1, Inr (Inr u))"
    and rest: "act_try (act_get (\<lambda>s. if strict
         then validate_host_key_security (gl_os (ap_gateway L)) (tr_disk s) path else Inr ())) (\<lambda>_.
     case apply_server_transport_config (gl_kex (ap_gateway L)) (ap_server_default L)
         (cf_kex_policy (rt_config (gw_config s))) of
       (_, Inl error) \<Rightarrow> act_return (Inl error)
     | (transport, Inr summary) \<Rightarrow>
         act_try (act_get (\<lambda>s. map_err (\<lambda>error. Ssh (''failed to load host key: '' @ error))
             (ap_load_secret_key L (tr_disk s) path))) (\<lambda>host_key.
         act_bind (utc_now (gl_tracker (ap_gateway L))) (\<lambda>now.
         act_then (audit_log (frontend_event now summary))
           (act_return (case parse_socket_addr listen of
              None \<Rightarrow> Inl (InvalidConfig (''invalid listen address '' @ sq listen
                @ '': invalid socket address syntax''))
            | Some listen_socket \<Rightarrow> Inr (\<lparr>sv_methods = [''keyboard-interactive''],
                sv_auth_rejection_time = auth_rejection_delay, sv_transport = transport,
                sv_keys = [host_key]\<rparr>, listen_socket)))))) s1 = (s', Inr (Inr (config, socket)))"
    using run unfolding prepare_server_def act_bind_simps(3) by (rule act_try_ok) (rule that; assumption)
  obtain d where d: "ensure_server_host_key (ap_keys L) draw path (tr_disk s) = (d, Inr u)" "s1 = s\<lparr>tr_disk := d\<rparr>"
    using s1 by (rule on_disk_ok)
  have there: "tr_disk s p \<noteq> None \<Longrightarrow> d p \<noteq> None" for p
    using presentD [OF host_key_present [OF K] _ d(1)] by blast
  obtain transport summary where transport: "apply_server_transport_config (gl_kex (ap_gateway L)) (ap_server_default L)
      (cf_kex_policy (rt_config (gw_config s))) = (transport, Inr summary)"
    using rest by (auto simp: act_try_def act_bind_def split: sum.splits prod.splits)
  obtain key socket' where key: "ap_load_secret_key L d path = Inr key"
    "parse_socket_addr listen = Some socket'"
    "strict \<longrightarrow> validate_host_key_security (gl_os (ap_gateway L)) d path = Inr ()"
    using rest transport d(2)
    by (auto simp: act_try_def act_bind_def act_then_def utc_now_def audit_log_def map_err_def split: sum.splits option.splits if_splits)
  let ?now = "tl_utc (gl_tracker (ap_gateway L)) (tr_readings s)"
  have s': "s' = s\<lparr>tr_disk := d, tr_readings := Suc (tr_readings s), tr_audit := tr_audit s @ [frontend_event ?now summary]\<rparr>"
    and made: "config = \<lparr>sv_methods = [''keyboard-interactive''], sv_auth_rejection_time = auth_rejection_delay,
      sv_transport = transport, sv_keys = [key]\<rparr>" "socket = socket'"
    using rest transport d(2) key
    by (cases strict; auto simp: act_try_def act_bind_def act_then_def utc_now_def audit_log_def map_err_def)+
  have "\<exists>summary now before. apply_server_transport_config (gl_kex (ap_gateway L)) (ap_server_default L)
      (cf_kex_policy (rt_config (gw_config s))) = (sv_transport config, Inr summary)
    \<and> tr_audit s' = before @ [frontend_event now summary]"
    using transport by (intro exI [of _ summary] exI [of _ ?now] exI [of _ "tr_audit s"]) (simp add: s' made)
  then show ?thesis using key there by (simp add: s' made)
qed


definition start_listening ::
  "('d, 'k) app_libs \<Rightarrow> cli \<Rightarrow> ('z gateway_scheme, ('k server_config \<times> ip_addr \<times> nat \<times> nat) gw_result) act" where
  \<comment> \<open>\<^verbatim>\<open>run\<close> up to the call that listens\<close>
  "start_listening L cli =
     act_try (before_server L cli) (\<lambda>(G, paths, report).
       prepare_server (L\<lparr>ap_gateway := G\<rparr>) (bs_created_private_keys report) (cli_listen cli)
         (host_key_path_from_config_dir (ep_config_path paths)) (cli_enforce_strict_security cli))"

lemma act_try_assoc: "act_try (act_try m f) g = act_try m (\<lambda>x. act_try (f x) g)"
  by (simp add: act_try_def act_bind_assoc) (rule arg_cong [of _ _ "act_bind m"], simp add: fun_eq_iff split: sum.split)

lemma run_app_listens:
  "run_app L cli = (if cli_version_flag cli then act_return (Inr ())
     else act_try (start_listening L cli) (\<lambda>(config, listen_socket).
       act_return (map_err Ssh (ap_run_on_address L config listen_socket))))"
  by (auto simp: run_app_def start_listening_def act_try_assoc run_gateway_server_def case_prod_beta
      intro!: arg_cong [of _ _ "act_try (before_server L cli)"])

lemma set_up_steps:
  fixes s :: "'z gateway_scheme"
  assumes "set_up L cli s = (s', Inr (Inr (G, paths, report)))"
  obtains a b c d e u where "config_store_load (ap_gateway L) paths (cli_enforce_strict_security cli) a = (b, Inr (Inr ()))"
    "auth_engine_new (ap_gateway L) b = (c, Inr (Inr G))"
    "on_disk (audit_logger_new (gl_os G) (ep_audit_log_path paths) (cli_enforce_strict_security cli)) c = (d, Inr (Inr u))"
    "from_config (gl_tracker G) (rt_config (gw_config d)) d = (e, Inr (Inr ()))"
    "bootstrap G (ap_keys L) e = (s', Inr (Inr report))"
  using assms unfolding set_up_def Let_def
  by (elim act_try_ok) (rule that; force simp: act_return_def)

lemma listening_steps:
  fixes s :: "'z gateway_scheme"
  assumes "start_listening L cli s = (s', Inr (Inr (config, socket)))"
  obtains a b c d e u s1 G paths report where
    "config_store_load (ap_gateway L) paths (cli_enforce_strict_security cli) a = (b, Inr (Inr ()))"
    "auth_engine_new (ap_gateway L) b = (c, Inr (Inr G))"
    "on_disk (audit_logger_new (gl_os G) (ep_audit_log_path paths) (cli_enforce_strict_security cli)) c = (d, Inr (Inr u))"
    "from_config (gl_tracker G) (rt_config (gw_config d)) d = (e, Inr (Inr ()))"
    "bootstrap G (ap_keys L) e = (s1, Inr (Inr report))"
    "prepare_server (L\<lparr>ap_gateway := G\<rparr>) (bs_created_private_keys report) (cli_listen cli)
       (host_key_path_from_config_dir (ep_config_path paths)) (cli_enforce_strict_security cli) s1
       = (s', Inr (Inr (config, socket)))"
proof -
  obtain s1 G paths report where before: "before_server L cli s = (s1, Inr (Inr (G, paths, report)))"
    and server: "prepare_server (L\<lparr>ap_gateway := G\<rparr>) (bs_created_private_keys report) (cli_listen cli)
         (host_key_path_from_config_dir (ep_config_path paths)) (cli_enforce_strict_security cli) s1
         = (s', Inr (Inr (config, socket)))"
    using assms unfolding start_listening_def by (rule act_try_ok) (auto intro: that)
  have "set_up L cli s = (s1, Inr (Inr (G, paths, report)))"
    using before unfolding before_server_def
    by (rule act_try_ok) (auto simp: act_try_def act_bind_def split: sum.splits prod.splits)
  then show thesis by (rule set_up_steps) (rule that; (assumption | rule server))
qed

lemma listening_users_distinct:
  fixes s :: "'z gateway_scheme"
  assumes K: "create_laws (ap_keys L)" and run: "start_listening L cli s = (s', Inr (Inr (config, socket)))"
  shows "distinct (map user_name (gw_users s')) \<and> sv_methods config = [''keyboard-interactive'']"
proof -
  obtain a b c d e u s1 G paths report where
    loads: "config_store_load (ap_gateway L) paths (cli_enforce_strict_security cli) a = (b, Inr (Inr ()))"
    and engine: "auth_engine_new (ap_gateway L) b = (c, Inr (Inr G))"
    and audit: "on_disk (audit_logger_new (gl_os G) (ep_audit_log_path paths) (cli_enforce_strict_security cli)) c = (d, Inr (Inr u))"
    and tracker: "from_config (gl_tracker G) (rt_config (gw_config d)) d = (e, Inr (Inr ()))"
    and boot: "bootstrap G (ap_keys L) e = (s1, Inr (Inr report))"
    and server: "prepare_server (L\<lparr>ap_gateway := G\<rparr>) (bs_created_private_keys report) (cli_listen cli)
       (host_key_path_from_config_dir (ep_config_path paths)) (cli_enforce_strict_security cli) s1
       = (s', Inr (Inr (config, socket)))"
    using run by (rule listening_steps)
  obtain config0 servers where "read_store (ap_gateway L) (tr_disk a) paths (cli_enforce_strict_security cli) = Inr (config0, servers)"
    and b: "rt_config (gw_config b) = config0"
    using loads by (rule store_loaded) simp
  then have names: "distinct (map user_name (gw_users b))" by (simp add: read_store_ok config_ok_def)
  have "gw_config c = gw_config b" using engine by (rule engine_made) simp
  moreover have "gw_config d = gw_config c" using audit by (auto elim: on_disk_ok)
  moreover have "gw_config e = gw_config d" using tracker_made [OF tracker] by simp
  moreover obtain users where "list_all2 (hashed_from (gl_auth G)) (gw_users e) users" "gw_users s1 = users"
    using bootstrapped [OF K boot] by auto
  moreover have "map user_name users = map user_name us" if "list_all2 (hashed_from A) us users" for A us users
    using that by (induction rule: list_all2_induct) (auto simp: hashed_from_def split: if_splits)
  moreover have "create_laws (ap_keys (L\<lparr>ap_gateway := G\<rparr>))" using K by simp
  note served = server_prepared [OF this server]
  ultimately show ?thesis using names served by (metis (no_types, lifting))
qed

text \<open>
  C6: A gateway that listens is set up.  When the start gets as far as listening, the configuration in
  force is one that was read, checked and validated, with every password still in the clear
  replaced by a hash that must be changed; the tracker works with its settings; every user has
  a key pair in every place where one belongs; the server offers keyboard-interactive
  authentication alone, with the transport policy of the configuration, which is audited, and
  the host key just checked; in strict mode that file is private to root.
\<close>
theorem listening_gateway_is_ready:
  fixes s :: "'z gateway_scheme"
  assumes K: "create_laws (ap_keys L)"
    and hash: "\<forall>n pw h. al_hash (gl_auth (ap_gateway L)) n pw = Inr h \<longrightarrow> is_hash_format h"
    and run: "start_listening L cli s = (s', Inr (Inr (config, socket)))"
  shows "\<exists>d0 d1 loaded servers users. let paths = gw_paths s'; strict = cli_enforce_strict_security cli;
      host_key = host_key_path_from_config_dir (ep_config_path paths) in
    read_store (ap_gateway L) d0 paths strict = Inr (loaded, servers)
    \<and> rt_config (gw_config s') = loaded\<lparr>cf_users := users\<rparr> \<and> rt_servers (gw_config s') = servers
    \<and> list_all2 (hashed_from (gl_auth (ap_gateway L))) (cf_users loaded) users
    \<and> (\<forall>u\<in>set users. is_hash_format (user_password u))
    \<and> effective_settings (ap_gateway L) d1 loaded = Inr (tr_settings s')
    \<and> (\<forall>u\<in>set users. \<forall>k\<in>set (key_dirs_of (ep_user_key_root paths) (ep_per_user_per_server paths) u).
         keypair_at (tr_disk s') k)
    \<and> (strict \<longrightarrow> validate_host_key_security (gl_os (ap_gateway L)) (tr_disk s') host_key = Inr ())
    \<and> sv_methods config = [''keyboard-interactive'']
    \<and> (\<exists>key. sv_keys config = [key] \<and> ap_load_secret_key L (tr_disk s') host_key = Inr key)
    \<and> (\<exists>summary now before. apply_server_transport_config (gl_kex (ap_gateway L)) (ap_server_default L)
          (cf_kex_policy loaded) = (sv_transport config, Inr summary)
        \<and> tr_audit s' = before @ [frontend_event now summary])
    \<and> parse_socket_addr (cli_listen cli) = Some socket"
proof -
  let ?G = "ap_gateway L" and ?strict = "cli_enforce_strict_security cli"
  obtain a b c d e u s1 G paths report where loads: "config_store_load ?G paths ?strict a = (b, Inr (Inr ()))"
    and engine: "auth_engine_new ?G b = (c, Inr (Inr G))"
    and audit: "on_disk (audit_logger_new (gl_os G) (ep_audit_log_path paths) ?strict) c = (d, Inr (Inr u))"
    and tracker: "from_config (gl_tracker G) (rt_config (gw_config d)) d = (e, Inr (Inr ()))"
    and boot: "bootstrap G (ap_keys L) e = (s1, Inr (Inr report))"
    and server: "prepare_server (L\<lparr>ap_gateway := G\<rparr>) (bs_created_private_keys report) (cli_listen cli)
         (host_key_path_from_config_dir (ep_config_path paths)) ?strict s1 = (s', Inr (Inr (config, socket)))"
    using run by (rule listening_steps)
  obtain config0 servers where read: "read_store ?G (tr_disk a) paths ?strict = Inr (config0, servers)"
    and b: "gw_paths b = paths" "gw_config b = \<lparr>rt_config = config0, rt_servers = servers,
      rt_loaded_at = tl_utc (gl_tracker ?G) (tr_readings a)\<rparr>"
    using loads by (rule store_loaded) simp
  obtain dummy where G: "G = ?G\<lparr>gl_dummy_hash := dummy\<rparr>"
    and c: "gw_paths c = gw_paths b" "gw_config c = gw_config b"
    using engine by (rule engine_made) simp
  have d: "gw_paths d = gw_paths c" "gw_config d = gw_config c"
    using audit by (auto elim: on_disk_ok)
  have e: "effective_settings G (tr_disk d) config0 = Inr (tr_settings e)" "gw_config e = gw_config d" "gw_paths e = gw_paths d"
    using tracker_made [OF tracker] d c b by simp_all
  obtain users where users: "list_all2 (hashed_from (gl_auth G)) (gw_users e) users"
    and s1: "gw_paths s1 = gw_paths e" "tr_settings s1 = tr_settings e"
      "gw_config s1 = (gw_config e)\<lparr>rt_config := (rt_config (gw_config e))\<lparr>cf_users := users\<rparr>\<rparr>"
    and keys: "\<forall>u \<in> set users. \<forall>k \<in> set (key_dirs_of (ep_user_key_root (gw_paths e))
      (ep_per_user_per_server (gw_paths e)) u). keypair_at (tr_disk s1) k"
    using bootstrapped [OF K boot] by blast
  have "create_laws (ap_keys (L\<lparr>ap_gateway := G\<rparr>))" using K by simp
  note served = server_prepared [OF this server]
  have hashed: "is_hash_format (user_password u')" if "hashed_from (gl_auth ?G) u u'" for u u'
    using that hash by (auto simp: hashed_from_def split: if_splits)
  have all: "list_all2 (hashed_from (gl_auth ?G)) (cf_users config0) users"
    using users e d c b G by simp
  then have "\<forall>u\<in>set users. is_hash_format (user_password u)"
    using hashed by (metis list_all2_conv_all_nth in_set_conv_nth)
  moreover have "\<forall>u\<in>set users. \<forall>k\<in>set (key_dirs_of (ep_user_key_root (gw_paths s')) (ep_per_user_per_server (gw_paths s')) u).
      keypair_at (tr_disk s') k"
    using keys served s1 unfolding keypair_at_def by simp
  moreover have "effective_settings ?G (tr_disk d) config0 = Inr (tr_settings s')"
    using e(1) served s1 G by (simp add: effective_settings_def)
  ultimately show ?thesis
    using read all served s1 e d c b G
    by (intro exI [of _ "tr_disk a"] exI [of _ "tr_disk d"] exI [of _ config0] exI [of _ servers] exI [of _ users])
      (simp add: Let_def)
qed


subsection \<open>An instance\<close>

definition sample_app :: "(string, string) app_libs" where
  "sample_app = \<lparr>ap_gateway = sample_gateway_libs, ap_keys = sample_key_libs, ap_install_signal = Inr (),
     ap_probe = (\<lambda>_. Inr ()), ap_server_default = sample_transport, ap_load_secret_key = (\<lambda>d p. Inr ''key''),
     ap_run_on_address = (\<lambda>config address. Inr ())\<rparr>"

definition sample_cli :: cli where
  "sample_cli = \<lparr>cli_listen = ''0.0.0.0:22'', cli_version_flag = False, cli_config = Some ''/c'',
     cli_servers = Some ''/c'', cli_known_hosts = Some ''/c'', cli_user_key_root = Some ''/k'',
     cli_audit_log = Some ''/a'', cli_whitelist = None, cli_per_user_per_server = None, cli_drop_to_menu = None,
     cli_hide_proxy_ip = None, cli_enforce_strict_security = True\<rparr>"

definition disk_with_log :: disk where
  "disk_with_log = sample_disk(''/a'' := Some (root_file []))"

lemma sample_disk_programs:
  "snd (ensure_user_key_root_directory sample_key_libs ''/k'' sample_disk) = Inr False"
  "map_option kr_created_private_keys (res_ok (snd (ensure_private_keys_for_config_users sample_key_libs ''/k''
     sample_config True disk_with_log))) = Some 1"
  by code_simp+

definition disk_with_keys :: disk where
  "disk_with_keys = fst (ensure_private_keys_for_config_users sample_key_libs ''/k'' sample_config True disk_with_log)"

lemma sample_host_key:
  "is_ok (snd (ensure_server_host_key sample_key_libs 1 ''/host_ed25519'' disk_with_keys))"
  "validate_host_key_security sample_os (fst (ensure_server_host_key sample_key_libs 1 ''/host_ed25519'' disk_with_keys))
     ''/host_ed25519'' = Inr ()"
  by code_simp+

lemma sample_kex_policy:
  "is_ok (frontend_kex_policy_summary documented_as_ref default_kex_policy)"
  "is_ok (frontend_server_preferred default_kex_policy)"
  by code_simp+

lemma sample_listen: "parse_socket_addr ''0.0.0.0:22'' = Some (V4 [0, 0, 0, 0], 22, 0)"
  by (simp add: parse_socket_addr_def read_ipv4_def read_separator_def read_number_def radix_digit_def byte_val_def
      digits_value_def unwrap_or_def read_port_def read_char_def Let_def)

lemma sample_cli_paths: "effective_cli_paths sample_cli sample_config = sample_paths"
  by (simp add: effective_cli_paths_def sample_cli_def sample_config_def sample_paths_def resolve_paths_def
      unwrap_or_def or_else_def setting_def)


lemma act_try_run: "m s = (s1, Inr (Inr x)) \<Longrightarrow> act_try m f s = f x s1"
  by (simp add: act_try_def act_bind_def)

lemma sample_key_root: "ensure_user_key_root_directory sample_key_libs ''/k'' sample_disk = (sample_disk, Inr False)"
  by (simp add: ensure_user_key_root_directory_def ensure_real_directory_def prog_bind_def prog_read_def
      sample_key_libs_def sample_store_links path_exists_def sample_nodes root_file_def)

lemma sample_log_file: "audit_logger_new sample_os ''/a'' True sample_disk = (disk_with_log, Inr ())"
proof -
  have parts: "path_components ''/a'' = [RootDir, Normal ''a'']" "path_components ''/'' = [RootDir]"
    by code_simp+
  have nodes: "sample_disk ''/a'' = None" "sample_disk ''/'' = None" by (simp_all add: sample_disk_def)
  have mode: "mode_bits mode_600 = mode_600" by (simp add: mode_bits_def mode_600_def)
  show ?thesis
    by (simp add: audit_logger_new_def path_parent_def parts path_of_def path_push_def prog_bind_ok
        prog_return_ok prog_call_run Let_def audit_file_security_iff validate_path_has_no_symlinks_def symlink_step_def
        sample_os_def node_or_missing_def change_node_def mode starts_with_def nodes disk_with_log_def root_file_def)
qed

lemma sample_settings:
  "effective sample_libs f default_fail2ban_config None = Inr default_fail2ban_settings"
  by (simp add: effective_def default_fail2ban_config_def default_fail2ban_settings_def
      parse_duration_option_def parse_whitelist_def validate_fail2ban_settings_def from_secs_def nanos_per_sec_def)

lemma sample_tracker_made:
  fixes s :: "'z gateway_scheme"
  assumes "tr_disk s = disk_with_log" "cf_fail2ban config = None" "sc_whitelist_path (cf_settings config) = None"
  shows "from_config sample_tracker_libs config s = (s\<lparr>tr_settings := default_fail2ban_settings, tr_core := []\<rparr>, Inr (Inr ()))"
proof -
  have "os_read sample_os disk_with_log (fs_state_path default_fail2ban_settings) = Inl (IoNotFound ''not found'')"
    by (simp add: sample_os_def node_or_missing_def disk_with_log_def sample_disk_def default_fail2ban_settings_def)
  then show ?thesis
    using assms load_missing [of default_fail2ban_settings sample_tracker_libs
        "s\<lparr>tr_settings := default_fail2ban_settings, tr_core := []\<rparr>"]
    by (simp add: from_config_def sample_settings unwrap_or_def act_then_def act_bind_def)
      (simp add: default_fail2ban_settings_def)
qed

lemma sample_migration:
  fixes s :: "'z gateway_scheme"
  assumes "gl_doc G = sample_doc_lib" "gl_os G = sample_os" "tr_disk s = disk_with_log" "ep_config_path (gw_paths s) = ''/c''"
    "gw_users s = [sample_user]"
  shows "\<exists>s'. migrate_bootstrap_passwords G s = (s', Inr (Inr 0)) \<and> tr_disk s' = disk_with_log
    \<and> gw_paths s' = gw_paths s \<and> rt_config (gw_config s') = rt_config (gw_config s)"
proof -
  have "from_utf8 ''doc'' = Some ''doc''" by code_simp
  then have "load_config_document G disk_with_log ''/c'' = Inr ''doc''"
    using assms(1,2)
    by (simp add: load_config_document_def read_to_string_def sample_doc_lib_def sample_os_def node_or_missing_def
        disk_with_log_def sample_disk_def root_file_def)
  moreover have "migrate_users G n ''doc'' [sample_user] = ([sample_user], n, Inr (''doc'', 0))" for n
    by (simp add: sample_user_def is_hash_format_def starts_with_def)
  moreover have "set_users [sample_user] s = s"
    using assms(5) by (simp add: set_users_def)
  ultimately show ?thesis
    using assms by (simp add: migrate_bootstrap_passwords_def act_then_def act_bind_def)
qed

lemma sample_cli_simps [simp]:
  "cli_config sample_cli = Some ''/c''" "cli_enforce_strict_security sample_cli" "cli_listen sample_cli = ''0.0.0.0:22''"
  by (simp_all add: sample_cli_def)

lemma act_try_get: "act_try (act_get g) f s = (case g s of Inl e \<Rightarrow> (s, Inr (Inl e)) | Inr x \<Rightarrow> f x s)"
  by (simp add: act_try_def split: sum.split)

lemma act_try_return: "act_try (act_return r) f = (case r of Inl e \<Rightarrow> act_return (Inl e) | Inr x \<Rightarrow> f x)"
  by (simp add: act_try_def)

lemma sample_set_up:
  "\<exists>s1 report. set_up sample_app sample_cli sample_gateway
      = (s1, Inr (Inr (sample_gateway_libs\<lparr>gl_dummy_hash := ''$argon2id$centralssh-dummy-password''\<rparr>, sample_paths, report)))
    \<and> bs_created_private_keys report = 1
    \<and> tr_disk s1 = disk_with_keys \<and> cf_kex_policy (rt_config (gw_config s1)) = default_kex_policy"
proof -
  let ?G = sample_gateway_libs and ?config = "apply_runtime_overrides sample_config sample_paths"
  let ?G' = "?G\<lparr>gl_dummy_hash := ''$argon2id$centralssh-dummy-password''\<rparr>"
  have seed: "load_config_file ?G sample_disk ''/c'' = Inr sample_config"
    using sample_read by (simp add: load_config_file_def)
  have "read_store ?G sample_disk sample_paths True = Inr (?config, sample_servers)"
    using sample_store_files sample_config_valid sample_read
    by (simp add: read_store_ok load_config_file_def load_servers_file_def) (simp add: sample_paths_def)
  then obtain s1 where loads: "config_store_load ?G sample_paths True sample_gateway = (s1, Inr (Inr ()))"
    and s1: "tr_disk s1 = sample_disk" "gw_paths s1 = sample_paths" "rt_config (gw_config s1) = ?config"
    by (simp add: config_store_load_def utc_now_def act_bind_def)
  let ?s2 = "s1\<lparr>gw_draws := Suc (gw_draws s1), gw_limiter := \<lparr>rl_rate_limits = [], rl_ip_rate_limits = []\<rparr>\<rparr>"
  have engine: "auth_engine_new ?G s1 = (?s2, Inr (Inr ?G'))"
    by (simp add: auth_engine_new_def hash_password_def sample_auth_def dummy_password_def)
  let ?s3 = "?s2\<lparr>tr_disk := disk_with_log\<rparr>"
  let ?s4 = "?s3\<lparr>tr_settings := default_fail2ban_settings, tr_core := []\<rparr>"
  have plain: "cf_fail2ban ?config = None" "sc_whitelist_path (cf_settings ?config) = None"
    "cf_users ?config = [sample_user]" "cf_kex_policy ?config = default_kex_policy"
    by (simp_all add: sample_config_def apply_runtime_overrides_def sample_paths_def)
  have paths: "ep_config_path sample_paths = ''/c''" "ep_user_key_root sample_paths = ''/k''"
    "ep_audit_log_path sample_paths = ''/a''" "ep_per_user_per_server sample_paths"
    by (simp_all add: sample_paths_def)
  obtain s5 where migrated: "migrate_bootstrap_passwords ?G' ?s4 = (s5, Inr (Inr 0))"
    and s5: "tr_disk s5 = disk_with_log" "gw_paths s5 = sample_paths" "rt_config (gw_config s5) = ?config"
    using sample_migration [of ?G' ?s4] s1 plain paths by auto
  obtain report where keys: "ensure_private_keys_for_config_users sample_key_libs ''/k'' ?config True disk_with_log
      = (disk_with_keys, Inr report)" "kr_created_private_keys report = 1"
  proof -
    have "ensure_private_keys_for_config_users sample_key_libs ''/k'' ?config True
        = ensure_private_keys_for_config_users sample_key_libs ''/k'' sample_config True"
      by (simp add: ensure_private_keys_for_config_users_def)
    then show thesis
      using that sample_disk_programs(2)
      by (auto simp: disk_with_keys_def res_ok_def prod_eq_iff split: sum.splits)
  qed
  obtain report' where boot: "bootstrap ?G' sample_key_libs ?s4 = (s5\<lparr>tr_disk := disk_with_keys\<rparr>, Inr (Inr report'))"
    and one: "bs_created_private_keys report' = 1"
    using migrated keys s5 paths by (simp add: bootstrap_def act_try_run on_disk_def)
  have same: "sample_gateway\<lparr>tr_disk := sample_disk\<rparr> = sample_gateway" by (simp add: sample_gateway_def)
  have root_made: "on_disk (ensure_user_key_root_directory sample_key_libs ''/k'') sample_gateway = (sample_gateway, Inr (Inr False))"
    using sample_key_root same by (simp add: on_disk_def)
  have opened: "on_disk (audit_logger_new sample_os ''/a'' True) ?s2 = (?s3, Inr (Inr ()))"
    using sample_log_file s1 by (simp add: on_disk_def)
  have tracker: "from_config sample_tracker_libs ?config ?s3 = (?s4, Inr (Inr ()))"
    using sample_tracker_made [of ?s3 ?config] plain by simp
  have "set_up sample_app sample_cli sample_gateway
      = (s5\<lparr>tr_disk := disk_with_keys\<rparr>, Inr (Inr (?G', sample_paths, report')))"
    using seed s1(3) paths
    apply (simp add: set_up_def sample_app_def sample_cli_paths Let_def unwrap_or_def act_try_get)
    apply (subst act_try_run, rule root_made)
    apply (subst act_try_run, rule loads)
    apply (subst act_try_run, rule engine)
    apply simp
    apply (subst act_try_run, rule opened)
    apply (subst act_try_run [where m = "act_bind (act_get g) f" for g f], simp, rule tracker)
    apply (simp add: act_try_return)
    apply (subst act_try_run, rule boot)
    by simp
  then show ?thesis using s5 plain one by auto
qed


lemma sample_starts:
  "\<exists>s' config. start_listening sample_app sample_cli sample_gateway = (s', Inr (Inr (config, V4 [0, 0, 0, 0], 22, 0)))"
proof -
  let ?G' = "sample_gateway_libs\<lparr>gl_dummy_hash := ''$argon2id$centralssh-dummy-password''\<rparr>"
  obtain s1 report where s1: "set_up sample_app sample_cli sample_gateway = (s1, Inr (Inr (?G', sample_paths, report)))"
    "bs_created_private_keys report = 1" "tr_disk s1 = disk_with_keys"
    "cf_kex_policy (rt_config (gw_config s1)) = default_kex_policy"
    using sample_set_up by blast
  have host: "host_key_path_from_config_dir (ep_config_path sample_paths) = ''/host_ed25519''" by code_simp
  have before: "before_server sample_app sample_cli sample_gateway = (s1, Inr (Inr (?G', sample_paths, report)))"
    using s1(1) by (simp add: before_server_def act_try_run sample_app_def)
  obtain transport summary where transport:
    "apply_server_transport_config documented_as_ref sample_transport default_kex_policy = (transport, Inr summary)"
    using sample_kex_policy
    by (auto simp: apply_server_transport_config_def apply_server_transport_crypto_policy_def is_ok_iff)
  obtain d where made: "ensure_server_host_key sample_key_libs 1 ''/host_ed25519'' disk_with_keys = (d, Inr ())"
    and safe: "validate_host_key_security sample_os d ''/host_ed25519'' = Inr ()"
    using sample_host_key by (cases "ensure_server_host_key sample_key_libs 1 ''/host_ed25519'' disk_with_keys") (auto simp: is_ok_iff)
  have written: "on_disk (ensure_server_host_key sample_key_libs 1 ''/host_ed25519'') s1 = (s1\<lparr>tr_disk := d\<rparr>, Inr (Inr ()))"
    using made s1(3) by (simp add: on_disk_def)
  let ?server = "prepare_server (sample_app\<lparr>ap_gateway := ?G'\<rparr>) 1 ''0.0.0.0:22'' ''/host_ed25519'' True s1"
  have "\<exists>s' config. ?server = (s', Inr (Inr (config, V4 [0, 0, 0, 0], 22, 0)))"
    using s1(4) safe transport sample_listen
    apply (simp add: prepare_server_def sample_app_def)
    apply (subst act_try_run, rule written [unfolded One_nat_def])
    by (simp add: act_try_get act_then_def act_bind_def utc_now_def audit_log_def)
  then show ?thesis
    unfolding start_listening_def using before host s1(2) by (simp add: act_try_run)
qed

lemma listening_gateway_is_ready_witness:
  "\<exists>s' config. start_listening sample_app sample_cli sample_gateway = (s', Inr (Inr (config, V4 [0, 0, 0, 0], 22, 0)))
    \<and> sv_methods config = [''keyboard-interactive'']
    \<and> validate_host_key_security sample_os (tr_disk s') (host_key_path_from_config_dir (ep_config_path (gw_paths s'))) = Inr ()"
proof -
  obtain s' config where run: "start_listening sample_app sample_cli sample_gateway = (s', Inr (Inr (config, V4 [0, 0, 0, 0], 22, 0)))"
    using sample_starts by blast
  have K: "create_laws (ap_keys sample_app)" using sample_key_laws by (simp add: sample_app_def)
  have hash: "\<forall>n pw h. al_hash (gl_auth (ap_gateway sample_app)) n pw = Inr h \<longrightarrow> is_hash_format h"
    by (simp add: sample_app_def sample_auth_def is_hash_format_def starts_with_def)
  have os: "gl_os (ap_gateway sample_app) = sample_os" by (simp add: sample_app_def)
  from listening_gateway_is_ready [OF K hash run, unfolded Let_def os]
  have "sv_methods config = [''keyboard-interactive''] \<and> (cli_enforce_strict_security sample_cli \<longrightarrow>
      validate_host_key_security sample_os (tr_disk s')
       (host_key_path_from_config_dir (ep_config_path (gw_paths s'))) = Inr ())"
    by (elim exE conjE) (intro conjI; assumption)
  then show ?thesis using run by (intro exI conjI) (assumption, simp, simp)
qed


end
