(* ===== verification/Spec2Isabelle.thy ===== *)
theory Spec2Isabelle
  imports Version_Support Enrollment_Flow Connection_Safety Bridge_End Link_Safety Gateway_App
begin

text \<open>
  A verification library for CentralSSH, an SSH gateway: a client logs in to the gateway with a
  password and a TOTP code, picks a server it is allowed, and the gateway relays its channels to
  that server over a connection made with the user's own key.  Addresses that fail too often are
  banned, passwords and codes are enrolled at the first login, and everything is audited.

  \<^bold>\<open>The program and its theories.\<close>  All sources are below \<^verbatim>\<open>src/src/\<close>.

  \<^item> Shared vocabulary: \<^verbatim>\<open>Prelude\<close> (results with early return, loops over lists, theorem
    collections), \<^verbatim>\<open>Effects\<close> (actions on a state that return, panic or end the connection, and
    their proof rules), \<^verbatim>\<open>Machine\<close> (reachable states, the interface \<open>machine_invariant\<close>),
    \<^verbatim>\<open>Hash_Map\<close> (\<^verbatim>\<open>HashMap\<close> behind the interface \<open>key_store\<close>), \<^verbatim>\<open>Float64\<close> (\<^verbatim>\<open>f64\<close>, with the
    interface \<open>rounding\<close>), \<^verbatim>\<open>Rust_Text\<close> and \<^verbatim>\<open>Ip_Addr\<close> (the standard library's text, UTF-8 and
    address functions), \<^verbatim>\<open>Gateway_Error\<close> (\<^verbatim>\<open>error.rs\<close>).
  \<^item> Configuration: \<^verbatim>\<open>Config_Types\<close> (records, paths, policies), \<^verbatim>\<open>Config_Validation\<close>
    (\<^verbatim>\<open>validate_semantics\<close>), \<^verbatim>\<open>Os_Files\<close> (checks on files, atomic replacement), \<^verbatim>\<open>Config_Store\<close>
    (load, reload, migration of passwords, update of credentials): \<^verbatim>\<open>config/mod.rs\<close>.
    \<^verbatim>\<open>Crypto_Policy\<close>: \<^verbatim>\<open>crypto_policy.rs\<close>.
  \<^item> Abuse protection: \<^verbatim>\<open>Fail2ban_Settings\<close>, \<^verbatim>\<open>Abuse_Core\<close> (\<^verbatim>\<open>AbuseTrackerCore\<close>),
    \<^verbatim>\<open>Abuse_Tracker\<close> (its state file and clock): \<^verbatim>\<open>abuse.rs\<close>.  \<^verbatim>\<open>Audit_Log\<close>: \<^verbatim>\<open>audit/mod.rs\<close>.
  \<^item> Login: \<^verbatim>\<open>Auth_Engine\<close> (\<^verbatim>\<open>auth/mod.rs\<close>); \<^verbatim>\<open>Session_State\<close> (\<^verbatim>\<open>GatewayHandler\<close>),
    \<^verbatim>\<open>Keyboard_Auth\<close> (the dialogue) and \<^verbatim>\<open>Enrollment_Qr\<close> of \<^verbatim>\<open>ssh/mod.rs\<close>; about them
    \<^verbatim>\<open>Login_Safety\<close>, \<^verbatim>\<open>Login_Progress\<close>, \<^verbatim>\<open>Login_Refusals\<close>, \<^verbatim>\<open>Enrollment_Flow\<close>.
  \<^item> Keys: \<^verbatim>\<open>Key_Files\<close> (\<^verbatim>\<open>keys/mod.rs\<close> and the host key of \<^verbatim>\<open>ssh/mod.rs\<close>).
  \<^item> Sessions: \<^verbatim>\<open>Target_Link\<close> (\<^verbatim>\<open>ProxySession\<close>) and \<^verbatim>\<open>Session_Relay\<close> (what comes back) of
    \<^verbatim>\<open>ssh/proxy.rs\<close> and \<^verbatim>\<open>ui/mod.rs\<close>; \<^verbatim>\<open>Server_Menu\<close> and \<^verbatim>\<open>Channel_Handlers\<close> (the client's
    requests) and \<^verbatim>\<open>Scp_Policy\<close> of \<^verbatim>\<open>ssh/mod.rs\<close>; about them \<^verbatim>\<open>Request_Policy\<close>, \<^verbatim>\<open>Bridge_End\<close>,
    \<^verbatim>\<open>Link_Safety\<close> and, with the login, \<^verbatim>\<open>Connection_Safety\<close>.
  \<^item> The program around them: \<^verbatim>\<open>Gateway_App\<close> (\<^verbatim>\<open>main.rs\<close>, \<^verbatim>\<open>app.rs\<close>, \<^verbatim>\<open>reload/mod.rs\<close>,
    \<^verbatim>\<open>run_gateway_server\<close>).  \<^verbatim>\<open>Version_Support\<close>: \<^verbatim>\<open>version_support.rs\<close> and \<^verbatim>\<open>src/build.rs\<close>.

  \<^bold>\<open>State.\<close>  The state is one record, extended by each component: the tracker's part (settings,
  core, disk, audit trail, readings taken from the clock), the gateway's part (configuration,
  paths, rate limiters, random draws), a connection's part (the fields of \<^verbatim>\<open>GatewayHandler\<close>, what
  was sent to the client) and its links (calls made at targets, bridges, replaced sessions).  An
  operation is an action on it under the name of the Rust function.  What is shared behind
  \<^verbatim>\<open>Arc<Mutex<..>>\<close> is in the part of the record that all extensions have, so the steps of other
  connections and of reloads are steps that change that part.  The disk is a map from paths to
  files; each system call may fail and gives the disk after it.

  \<^bold>\<open>Parameters.\<close>  Code outside the repository is a field of a record of functions: system calls
  (\<^verbatim>\<open>os_ops\<close>), clocks, JSON and TOML, Argon2, TOTP and base32, \<^verbatim>\<open>humantime\<close>, \<^verbatim>\<open>chrono\<close>,
  \<^verbatim>\<open>ipnet\<close>, QR codes, key files, and \<^verbatim>\<open>russh\<close>'s client and server handles.  What a theorem relies
  on of them is a named hypothesis: \<open>os_laws\<close> and \<open>create_laws\<close> (a call changes only its path, and
  creation is exclusive), \<open>chrono_fits\<close> (a duration that can be represented),
  \<open>kex_names_documented\<close>, \<open>checks_host_keys\<close>, \<open>sends_succeed\<close> (the client stays connected).
  Every such theorem has a witness over concrete instances (\<open>sample_os\<close>, \<open>sample_links\<close>, ...).

  \<^bold>\<open>What is proved.\<close>  Login: who is let in has shown both factors (an invariant over all
  interleavings), a valid login completes, a banned address gets nothing, refusals are counted,
  enrolment commits what it should.  Sessions: targets are reached only for those who logged in,
  safely and with the user's key; requests respect the policy, denials are audited, permitted
  requests reach their channel; the bridges relay in order and end; the menu is a line editor
  equivalent to a reference one.  Files and start: atomic replacement, exact security checks, keys
  made without touching existing ones, a listening gateway is set up, reloads are applied and
  reported.  Abuse: the sliding window is the one counted over the whole history, bans last until
  their end, across restarts and failing disks; rate limits are bounded.  Validation refines the
  predicate \<open>config_ok\<close>.  Where the code does not do what it means to, a theorem states what it
  does (\<open>menu_replays_unchecked\<close>, \<open>reload_lifts_unsaved_bans\<close>, \<open>failed_update_diverges\<close>,
  \<open>unbalanced_quote_hides_scp\<close>, and lemmas such as \<open>default_backoff\<close>, \<open>never_forgotten\<close>,
  \<open>hangup_during_reload_lost\<close>, \<open>reload_success_without_whitelist\<close>).

  \<^bold>\<open>Bounds and loops.\<close>  There is no fuel: every loop of the program is over a list or a text, and is
  defined by recursion on it or with a measure.  The loops of the bridges run over the messages
  received so far; \<open>bridges_end_at_close\<close> says they end with the target's channel.  Counters keep
  their width (\<^verbatim>\<open>u32\<close> and \<^verbatim>\<open>u64\<close> are words, saturating where the code saturates); panics of
  time arithmetic are outcomes.

  \<^bold>\<open>Atomicity.\<close>  A call of a handler, a message from a target and a turn of the reload loop are one
  step each; the model does not interleave the awaits inside them.  The tasks spawned by \<^verbatim>\<open>Drop\<close>
  run at once.  The audit trail is the list of the events handed to the logger; its file is
  treated apart in \<^verbatim>\<open>Audit_Log\<close>.

  \<^bold>\<open>Not modelled.\<close>  Output through \<^verbatim>\<open>tracing\<close> and the initialisation of logging (no effect on the
  state), the parsing of the command line by \<^verbatim>\<open>clap\<close> (its result is the record \<^verbatim>\<open>cli\<close>), the SSH
  protocol, sockets and the accept loop (\<^verbatim>\<open>russh\<close> and the runtime; parameters), timing of the
  delays, the constant in \<^verbatim>\<open>version.rs\<close>, the tests, and everything for packaging, containers and
  releases outside \<^verbatim>\<open>src/src\<close>.
\<close>

subsection \<open>From the start to the targets\<close>

text \<open>
  C3: Whoever the running gateway connects to a target has logged in to it.  Take any start that got
  as far as listening, and any connection it serves: keyboard-interactive is the only method
  offered, and whatever happens on the connection and around it, nothing reaches a target before
  somebody has shown a password and a TOTP code for an account, targets are logged in to under
  such accounts only, and the target in place is one the account was allowed.
\<close>
theorem served_connections_are_authenticated:
  assumes "create_laws (ap_keys A)"
    and "start_listening A cli s0 = (gw, Inr (Inr (config, socket)))"
    and "reach (\<lambda>start. \<exists>addr uuid. start = (new_connection gw addr uuid, \<lparr>lh_responses = [], lh_snapshots = []\<rparr>))
           (connection_step L) (s, h)"
  shows "sv_methods config = [''keyboard-interactive'']
    \<and> (cn_links s \<noteq> 0 \<or> cn_calls s \<noteq> [] \<longrightarrow> (\<exists>nm. admitted (gl_auth (ln_gateway L)) h nm))
    \<and> (\<forall>(n, call) \<in> set (cn_calls s). \<forall>nm. call = AuthenticatePublickey nm \<longrightarrow> admitted (gl_auth (ln_gateway L)) h nm)
    \<and> (\<forall>px. gh_proxy_session s = Some px \<longrightarrow> admitted (gl_auth (ln_gateway L)) h (px_username px)
         \<and> (\<exists>t. st_name t = px_target_server px \<and> granted h (px_username px) t))"
proof (rule conjI)
  note listening = listening_users_distinct [OF assms(1,2)]
  then show "sv_methods config = [''keyboard-interactive'']" ..
  have "reach connection_start (connection_step L) (s, h)"
    using assms(3) by (rule reach_mono) (use listening in \<open>auto simp: connection_start_def\<close>)
  from connection.reach_inv [OF this] have "links_inv (gl_auth (ln_gateway L)) h s"
    by (simp add: connection_inv_def)
  then show "(cn_links s \<noteq> 0 \<or> cn_calls s \<noteq> [] \<longrightarrow> (\<exists>nm. admitted (gl_auth (ln_gateway L)) h nm))
    \<and> (\<forall>(n, call) \<in> set (cn_calls s). \<forall>nm. call = AuthenticatePublickey nm \<longrightarrow> admitted (gl_auth (ln_gateway L)) h nm)
    \<and> (\<forall>px. gh_proxy_session s = Some px \<longrightarrow> admitted (gl_auth (ln_gateway L)) h (px_username px)
         \<and> (\<exists>t. st_name t = px_target_server px \<and> granted h (px_username px) t))"
    by (rule links_guarded)
qed

lemma served_connections_are_authenticated_witness:
  "\<exists>gw config. start_listening sample_app sample_cli sample_gateway = (gw, Inr (Inr (config, V4 [0, 0, 0, 0], 22, 0)))
    \<and> sv_methods config = [''keyboard-interactive''] \<and> gh_proxy_session (new_connection gw None ''id'') = None"
proof -
  obtain gw :: gateway and config where start:
    "start_listening sample_app sample_cli sample_gateway = (gw, Inr (Inr (config, V4 [0, 0, 0, 0], 22, 0)))"
    using sample_starts by blast
  let ?start = "(new_connection gw None ''id'', \<lparr>lh_responses = [], lh_snapshots = []\<rparr>)"
  have laws: "create_laws (ap_keys sample_app)" using sample_key_laws by (simp add: sample_app_def)
  have begun: "reach (\<lambda>start. \<exists>addr uuid. start = (new_connection gw addr uuid, \<lparr>lh_responses = [], lh_snapshots = []\<rparr>))
      (connection_step sample_links) ?start"
    by (rule reach_init) blast
  from served_connections_are_authenticated [OF laws start begun] start show ?thesis
    by (auto simp: new_connection_def new_client_def gateway.defs session.defs connection.defs)
qed

end
